theory Spec2Isabelle
  imports Complex_Main "HOL-Library.Sublist" "HOL-Library.Multiset" "HOL-Library.Log_Nat"
begin

chapter \<open>The model\<close>

section \<open>Python strings\<close>

text \<open>
  A Python string is a sequence of Unicode code points. A code point is an integer here,
  and \<open>lit\<close> gives the code points of a string literal of the source (every literal
  that the model takes from the source is ASCII).

  \<open>is_space\<close> is \<open>str.isspace\<close> on one character, the whitespace that \<open>str.strip\<close>
  removes: tab, line feed, vertical tab, form feed, carriage return, the separators
  0x1C..0x1F, the space, U+0085, U+00A0, U+1680, U+2000..U+200A, U+2028, U+2029, U+202F,
  U+205F and U+3000.

  \<open>str.lower\<close> works character by character on a string whose code points are all below
  256 or whitespace: it maps \<open>A\<close>..\<open>Z\<close> and the Latin-1 capitals 0xC0..0xDE (the
  multiplication sign 0xD7 apart) to the code point 32 above and leaves every other
  such character alone. On a string with any other code point, where Unicode's case
  mapping can change the length and look at the context, \<open>str.lower\<close> is the parameter
  \<open>unicode_lower\<close>.

  The test \<open>a in b\<close> on two strings is \<open>sublist a b\<close> (a contiguous occurrence).
\<close>

type_synonym pystr = "int list"

definition lit :: "string \<Rightarrow> pystr" where
  "lit s = map of_char s"

definition is_space :: "int \<Rightarrow> bool" where
  "is_space c =
     ((9 \<le> c \<and> c \<le> 13) \<or> (28 \<le> c \<and> c \<le> 32) \<or> c = 133 \<or> c = 160 \<or> c = 5760
      \<or> (8192 \<le> c \<and> c \<le> 8202) \<or> c = 8232 \<or> c = 8233 \<or> c = 8239 \<or> c = 8287
      \<or> c = 12288)"

definition lower_char :: "int \<Rightarrow> int" where
  "lower_char c =
     (if (65 \<le> c \<and> c \<le> 90) \<or> (192 \<le> c \<and> c \<le> 214) \<or> (216 \<le> c \<and> c \<le> 222)
      then c + 32 else c)"

definition plain_char :: "int \<Rightarrow> bool" where
  "plain_char c = ((0 \<le> c \<and> c < 256) \<or> is_space c)"

definition lower :: "(pystr \<Rightarrow> pystr) \<Rightarrow> pystr \<Rightarrow> pystr" where
  "lower unicode_lower s =
     (if list_all plain_char s then map lower_char s else unicode_lower s)"

definition lstrip :: "pystr \<Rightarrow> pystr" where
  "lstrip s = dropWhile is_space s"

definition rstrip :: "pystr \<Rightarrow> pystr" where
  "rstrip s = rev (dropWhile is_space (rev s))"

definition strip :: "pystr \<Rightarrow> pystr" where
  "strip s = rstrip (lstrip s)"

section \<open>The sport classifier (ai_engine.py)\<close>

text \<open>
  \<open>AIEngine.SPORT_CATEGORIES\<close>, in the order the dictionary literal lists its keys:
  a Python dictionary iterates in insertion order, so the table is an association list.
  Keys and categories are the literals' code points.
\<close>

definition SPORT_CATEGORIES :: "(pystr \<times> pystr) list" where
  "SPORT_CATEGORIES = map (\<lambda>(sport_key, category). (lit sport_key, lit category))
    [(''soccer'', ''Ball Sports''), (''football'', ''Ball Sports''), (''basketball'', ''Ball Sports''),
     (''volleyball'', ''Ball Sports''), (''tennis'', ''Racket Sports''), (''badminton'', ''Racket Sports''),
     (''table tennis'', ''Racket Sports''), (''squash'', ''Racket Sports''), (''pickleball'', ''Racket Sports''),
     (''running'', ''Endurance''), (''jogging'', ''Endurance''), (''marathon'', ''Endurance''),
     (''cycling'', ''Endurance''), (''swimming'', ''Endurance''), (''triathlon'', ''Endurance''),
     (''weightlifting'', ''Strength Training''), (''powerlifting'', ''Strength Training''),
     (''bodybuilding'', ''Strength Training''), (''crossfit'', ''Strength Training''),
     (''gym'', ''Strength Training''), (''lifting'', ''Strength Training''),
     (''boxing'', ''Combat Sports''), (''mma'', ''Combat Sports''), (''kickboxing'', ''Combat Sports''),
     (''martial arts'', ''Combat Sports''), (''judo'', ''Combat Sports''), (''karate'', ''Combat Sports''),
     (''yoga'', ''Flexibility''), (''pilates'', ''Flexibility''), (''stretching'', ''Flexibility''),
     (''gymnastics'', ''Flexibility''),
     (''hiking'', ''Outdoor''), (''climbing'', ''Outdoor''), (''rock climbing'', ''Outdoor''),
     (''bouldering'', ''Outdoor''), (''skiing'', ''Outdoor''), (''snowboarding'', ''Outdoor''),
     (''dance'', ''Dance''), (''ballet'', ''Dance''), (''hip hop'', ''Dance''), (''zumba'', ''Dance'')]"

text \<open>
  The loop \<open>for sport_key, category in self.SPORT_CATEGORIES.items()\<close> with its early
  \<open>return category\<close>; \<open>None\<close> is the loop running to its end.
\<close>

fun partial_match :: "pystr \<Rightarrow> (pystr \<times> pystr) list \<Rightarrow> pystr option" where
  "partial_match exercise_lower [] = None"
| "partial_match exercise_lower ((sport_key, category) # rest) =
     (if sublist sport_key exercise_lower \<or> sublist exercise_lower sport_key
      then Some category
      else partial_match exercise_lower rest)"

definition categorize_sport_in ::
  "(pystr \<Rightarrow> pystr) \<Rightarrow> (pystr \<times> pystr) list \<Rightarrow> pystr \<Rightarrow> pystr" where
  "categorize_sport_in unicode_lower table exercise =
     (let exercise_lower = strip (lower unicode_lower exercise) in
      case map_of table exercise_lower of
        Some category \<Rightarrow> category
      | None \<Rightarrow>
          (case partial_match exercise_lower table of
             Some category \<Rightarrow> category
           | None \<Rightarrow> lit ''Other''))"

definition categorize_sport :: "(pystr \<Rightarrow> pystr) \<Rightarrow> pystr \<Rightarrow> pystr" where
  "categorize_sport unicode_lower exercise =
     categorize_sport_in unicode_lower SPORT_CATEGORIES exercise"

section \<open>Saving a routine (main.py)\<close>

text \<open>
  The part of the dictionary \<open>routine_data\<close> that \<open>save_routine\<close> reads: a field is
  \<open>None\<close> when the key is absent, so that \<open>routine_data.get(key, default)\<close> is a case
  on the option. The row keeps the dictionary itself where the source stores its
  \<open>json.dumps\<close> text. \<open>unicode_lower\<close> is the parameter of \<open>lower\<close>.
\<close>

record routine_data =
  rd_sport_category :: "pystr option"
  rd_exercise :: "pystr option"

record routine_row =
  r_id :: nat
  r_user_id :: nat
  r_routine_json :: routine_data
  r_sport_category :: pystr

text \<open>The local dictionary \<open>category_keywords\<close> of \<open>save_routine\<close>, in its order.\<close>

definition category_keywords :: "(pystr \<times> pystr list) list" where
  "category_keywords = map (\<lambda>(category, keywords). (lit category, map lit keywords))
    [(''Running'', [''running'', ''run'', ''sprint'', ''jog'', ''marathon'', ''5k'', ''10k'']),
     (''Weightlifting'', [''squat'', ''deadlift'', ''bench press'', ''overhead press'', ''lifting'',
                          ''weights'', ''barbell'', ''dumbbell'']),
     (''Cycling'', [''cycling'', ''bike'', ''biking'', ''spin'']),
     (''Swimming'', [''swimming'', ''swim'', ''freestyle'', ''backstroke'', ''breaststroke'']),
     (''Tennis'', [''tennis'', ''serve'', ''forehand'', ''backhand'']),
     (''Basketball'', [''basketball'', ''jump shot'', ''layup'', ''dunk'', ''free throw'']),
     (''Soccer'', [''soccer'', ''football'', ''kick'', ''dribbling'']),
     (''Yoga'', [''yoga'', ''downward dog'', ''warrior'', ''tree pose'', ''sun salutation'']),
     (''Martial Arts'', [''martial arts'', ''karate'', ''taekwondo'', ''judo'', ''boxing'',
                         ''kickboxing'', ''mma'']),
     (''Rock Climbing'', [''climbing'', ''bouldering'', ''rock climbing'']),
     (''CrossFit'', [''crossfit'', ''wod'', ''amrap'', ''emom'']),
     (''Pilates'', [''pilates'']),
     (''Dance'', [''dance'', ''ballet'', ''hip hop'', ''contemporary'']),
     (''Golf'', [''golf'', ''swing'', ''putt'', ''drive'']),
     (''Volleyball'', [''volleyball'', ''spike'', ''serve'', ''bump''])]"

text \<open>
  The loop \<open>for category, keywords in category_keywords.items()\<close>: the first entry with
  \<open>any(keyword in exercise_name for keyword in keywords)\<close> assigns \<open>sport_category\<close> and
  breaks; an exhausted loop leaves \<open>sport_category\<close> as it was.
\<close>

fun keyword_scan :: "pystr \<Rightarrow> (pystr \<times> pystr list) list \<Rightarrow> pystr \<Rightarrow> pystr" where
  "keyword_scan exercise_name [] sport_category = sport_category"
| "keyword_scan exercise_name ((category, keywords) # rest) sport_category =
     (if list_ex (\<lambda>keyword. sublist keyword exercise_name) keywords
      then category
      else keyword_scan exercise_name rest sport_category)"

definition infer_sport_category :: "(pystr \<Rightarrow> pystr) \<Rightarrow> routine_data \<Rightarrow> pystr" where
  "infer_sport_category unicode_lower routine_data =
     (let sport_category =
            (case rd_sport_category routine_data of Some c \<Rightarrow> c | None \<Rightarrow> lit ''General Fitness'')
      in if sport_category = lit ''Other'' \<or> sport_category = []
         then
           (let exercise_name =
                  lower unicode_lower (case rd_exercise routine_data of Some e \<Rightarrow> e | None \<Rightarrow> []);
                sport_category = keyword_scan exercise_name category_keywords sport_category
            in if sport_category = [] \<or> sport_category = lit ''Other''
               then lit ''General Fitness''
               else sport_category)
         else sport_category)"

text \<open>
  \<open>save_routine\<close> inserts one row into \<open>routines\<close> and returns \<open>cursor.lastrowid\<close>.
  Rows are never deleted, so the new row's id is one more than the number of rows.
\<close>

definition save_routine ::
  "(pystr \<Rightarrow> pystr) \<Rightarrow> routine_row list \<Rightarrow> nat \<Rightarrow> routine_data \<Rightarrow> routine_row list \<times> nat" where
  "save_routine unicode_lower routines user_id routine_data =
     (let sport_category = infer_sport_category unicode_lower routine_data;
          routine_id = Suc (length routines)
      in (routines @ [\<lparr>r_id = routine_id, r_user_id = user_id,
                        r_routine_json = routine_data, r_sport_category = sport_category\<rparr>],
          routine_id))"

text \<open>The \<open>sport_category\<close> column of the row that \<open>save_routine\<close> inserted.\<close>

definition stored_category :: "routine_row list \<times> nat \<Rightarrow> pystr" where
  "stored_category res = r_sport_category (last (fst res))"

section \<open>The routine parser (ai_engine.py)\<close>

text \<open>
  What \<open>json.loads\<close> returns: \<open>None\<close>, a truth value, an integer, a float, a string, a
  list or a dictionary. Floats are kept opaque (the type parameter). A dictionary is the
  association list of its keys, one entry per key, so that \<open>d.get(k, default)\<close> is a
  lookup with a default.
\<close>

datatype 'f json =
    JNull
  | JBool bool
  | JInt int
  | JFloat 'f
  | JStr pystr
  | JList "'f json list"
  | JDict "(pystr \<times> 'f json) list"

text \<open>
  The library functions the parser calls, taken as parameters:
  \<^item> \<open>json_loads\<close> is \<open>json.loads\<close>: the parsed value, or \<open>Inl\<close> the message of the
    exception it raised;
  \<^item> \<open>str_other\<close> is \<open>str\<close> on a value that is not a string;
  \<^item> \<open>int_str\<close> and \<open>int_float\<close> are \<open>int\<close> on a string and on a float, \<open>None\<close> when
    \<open>int\<close> raises;
  \<^item> \<open>str_lower\<close> is \<open>str.lower\<close> on the strings that \<open>lower\<close> leaves to its
    parameter.
\<close>

record 'f pylib =
  json_loads :: "pystr \<Rightarrow> pystr + 'f json"
  str_other :: "'f json \<Rightarrow> pystr"
  int_str :: "pystr \<Rightarrow> int option"
  int_float :: "'f \<Rightarrow> int option"
  str_lower :: "pystr \<Rightarrow> pystr"

definition py_str :: "'f pylib \<Rightarrow> 'f json \<Rightarrow> pystr" where
  "py_str lib v = (case v of JStr s \<Rightarrow> s | _ \<Rightarrow> str_other lib v)"

text \<open>
  \<open>int(d)\<close>: an integer is itself, \<open>True\<close> and \<open>False\<close> are 1 and 0; \<open>None\<close>, a list and
  a dictionary raise \<open>TypeError\<close>. \<open>None\<close> stands for every exception, which the source
  catches with \<open>except Exception\<close>.
\<close>

definition py_int :: "'f pylib \<Rightarrow> 'f json \<Rightarrow> int option" where
  "py_int lib v =
     (case v of
        JInt n \<Rightarrow> Some n
      | JBool b \<Rightarrow> Some (if b then 1 else 0)
      | JFloat x \<Rightarrow> int_float lib x
      | JStr s \<Rightarrow> int_str lib s
      | _ \<Rightarrow> None)"

definition dict_get :: "(pystr \<times> 'f json) list \<Rightarrow> pystr \<Rightarrow> 'f json \<Rightarrow> 'f json" where
  "dict_get d k dflt = (case map_of d k of Some v \<Rightarrow> v | None \<Rightarrow> dflt)"

text \<open>\<open>text.find(c)\<close> and \<open>text.rfind(c)\<close> for a one-character \<open>c\<close>: an index, or \<open>-1\<close>.\<close>

fun find_char :: "int \<Rightarrow> pystr \<Rightarrow> int" where
  "find_char c [] = - 1"
| "find_char c (x # xs) =
     (if x = c then 0 else (let i = find_char c xs in if i = - 1 then - 1 else i + 1))"

definition rfind_char :: "int \<Rightarrow> pystr \<Rightarrow> int" where
  "rfind_char c s =
     (let i = find_char c (rev s) in if i = - 1 then - 1 else int (length s) - 1 - i)"

text \<open>The slice \<open>text[i:j]\<close> for indices that are not negative.\<close>

definition slice :: "pystr \<Rightarrow> int \<Rightarrow> int \<Rightarrow> pystr" where
  "slice s i j = drop (nat i) (take (nat j) s)"

text \<open>
  \<open>AIEngine._safe_json_load\<close>. The first component is the document, \<open>JNull\<close> being
  Python's \<open>None\<close>; the second is the error message, if any.
\<close>

definition safe_json_load :: "'f pylib \<Rightarrow> pystr \<Rightarrow> 'f json \<times> pystr option" where
  "safe_json_load lib text =
     (if text = [] then (JNull, Some (lit ''Empty model output.''))
      else
        (case json_loads lib text of
           Inr v \<Rightarrow> (v, None)
         | Inl _ \<Rightarrow>
             (let start = find_char (of_char CHR ''{'') text;
                  end' = rfind_char (of_char CHR ''}'') text
              in if start \<noteq> - 1 \<and> end' \<noteq> - 1 \<and> end' > start
                 then
                   (let candidate = slice text start (end' + 1)
                    in case json_loads lib candidate of
                         Inr v \<Rightarrow> (v, None)
                       | Inl e \<Rightarrow> (JNull, Some (lit ''JSON parse error: '' @ e)))
                 else (JNull, Some (lit ''No JSON object found in model output.'')))))"

record warmup =
  w_name :: pystr
  w_duration :: int
  w_notes :: pystr
  w_movement_type :: pystr

definition valid_types :: "pystr list" where
  "valid_types = [lit ''Mobility'', lit ''Activation'', lit ''Stability'', lit ''Power'', lit ''Balance'']"

text \<open>
  The loop \<open>for item in items\<close> of \<open>generate_warmups\<close>; the last argument is the list
  \<open>warmups\<close> that the loop appends to.
\<close>

fun collect_warmups :: "'f pylib \<Rightarrow> 'f json list \<Rightarrow> warmup list \<Rightarrow> warmup list" where
  "collect_warmups lib [] warmups = warmups"
| "collect_warmups lib (item # items) warmups =
     (case item of
        JDict it \<Rightarrow>
          (let n = strip (py_str lib (dict_get it (lit ''name'') (JStr [])));
               d = dict_get it (lit ''duration_seconds'') (dict_get it (lit ''duration'') (JInt 0));
               d_int = (case py_int lib d of Some i \<Rightarrow> i | None \<Rightarrow> 0);
               notes = strip (py_str lib (dict_get it (lit ''notes'') (JStr [])));
               movement_type = strip (py_str lib (dict_get it (lit ''movement_type'') (JStr (lit ''Mobility''))));
               movement_type = (if movement_type \<notin> set valid_types then lit ''Mobility''
                                else movement_type)
           in if n \<noteq> [] \<and> d_int > 0
              then collect_warmups lib items
                     (warmups @ [\<lparr>w_name = n, w_duration = d_int, w_notes = notes,
                                  w_movement_type = movement_type\<rparr>])
              else collect_warmups lib items warmups)
      | _ \<Rightarrow> collect_warmups lib items warmups)"

record routine =
  rt_exercise :: pystr
  rt_sport_category :: pystr
  rt_muscle_groups :: pystr
  rt_warmups :: "warmup list"
  rt_safety :: pystr
  rt_raw :: pystr
  rt_error :: "pystr option"

text \<open>
  \<open>AIEngine.generate_warmups\<close> from the provider's answer on: \<open>output_text\<close> is
  \<open>resp.output_text\<close>, \<open>None\<close> or a string. The call to the provider itself is outside
  the model.
\<close>

definition extract_warmups :: "'f pylib \<Rightarrow> 'f json \<Rightarrow> warmup list \<times> pystr" where
  "extract_warmups lib routine_obj =
     (case routine_obj of
        JDict ro \<Rightarrow>
          (let safety = strip (py_str lib (dict_get ro (lit ''safety'') (JStr [])));
               items = dict_get ro (lit ''warmups'') (JList [])
           in case items of
                JList its \<Rightarrow> (collect_warmups lib its [], safety)
              | _ \<Rightarrow> ([], safety))
      | _ \<Rightarrow> ([], []))"

definition generate_warmups ::
  "'f pylib \<Rightarrow> pystr \<Rightarrow> pystr \<Rightarrow> pystr option \<Rightarrow> routine" where
  "generate_warmups lib exercise muscle_groups output_text =
     (let raw_text = strip (case output_text of Some t \<Rightarrow> t | None \<Rightarrow> []);
          (routine_obj, parse_error) = safe_json_load lib raw_text;
          (warmups, safety) = extract_warmups lib routine_obj
      in if warmups = []
         then \<lparr>rt_exercise = exercise, rt_sport_category = categorize_sport (str_lower lib) exercise,
               rt_muscle_groups = muscle_groups, rt_warmups = [], rt_safety = [],
               rt_raw = raw_text,
               rt_error = Some (case parse_error of
                                  Some e \<Rightarrow> if e = [] then lit ''Could not parse the model output.'' else e
                                | None \<Rightarrow> lit ''Could not parse the model output.'')\<rparr>
         else \<lparr>rt_exercise = exercise, rt_sport_category = categorize_sport (str_lower lib) exercise,
               rt_muscle_groups = muscle_groups, rt_warmups = warmups, rt_safety = safety,
               rt_raw = raw_text, rt_error = None\<rparr>)"

text \<open>
  The parser's rule for one element in the specification's words (section 4.2, step 6),
  to compare the loop with: which elements are kept, and the move made of a kept one.
\<close>

definition spec_duration :: "'f pylib \<Rightarrow> (pystr \<times> 'f json) list \<Rightarrow> int" where
  "spec_duration lib it =
     (let field = (case map_of it (lit ''duration_seconds'') of
                     Some v \<Rightarrow> v
                   | None \<Rightarrow> (case map_of it (lit ''duration'') of Some v \<Rightarrow> v | None \<Rightarrow> JInt 0))
      in case py_int lib field of Some i \<Rightarrow> i | None \<Rightarrow> 0)"

definition spec_name :: "'f pylib \<Rightarrow> (pystr \<times> 'f json) list \<Rightarrow> pystr" where
  "spec_name lib it = strip (case map_of it (lit ''name'') of Some v \<Rightarrow> py_str lib v | None \<Rightarrow> [])"

definition spec_movement_type :: "'f pylib \<Rightarrow> (pystr \<times> 'f json) list \<Rightarrow> pystr" where
  "spec_movement_type lib it =
     (let t = (case map_of it (lit ''movement_type'') of
                 Some v \<Rightarrow> strip (py_str lib v)
               | None \<Rightarrow> lit ''Mobility'')
      in if t = lit ''Mobility'' \<or> t = lit ''Activation'' \<or> t = lit ''Stability'' \<or> t = lit ''Power'' \<or> t = lit ''Balance''
         then t else lit ''Mobility'')"

definition spec_keep :: "'f pylib \<Rightarrow> 'f json \<Rightarrow> bool" where
  "spec_keep lib item =
     (case item of
        JDict it \<Rightarrow> spec_name lib it \<noteq> [] \<and> spec_duration lib it > 0
      | _ \<Rightarrow> False)"

definition spec_move :: "'f pylib \<Rightarrow> 'f json \<Rightarrow> warmup" where
  "spec_move lib item =
     (case item of
        JDict it \<Rightarrow>
          \<lparr>w_name = spec_name lib it, w_duration = spec_duration lib it,
           w_notes = strip (case map_of it (lit ''notes'') of Some v \<Rightarrow> py_str lib v | None \<Rightarrow> []),
           w_movement_type = spec_movement_type lib it\<rparr>
      | _ \<Rightarrow> \<lparr>w_name = [], w_duration = 0, w_notes = [], w_movement_type = lit ''Mobility''\<rparr>)"

text \<open>
  A stand-in for the library, to run the parser on examples: its \<open>json.loads\<close> parses the
  one text \<open>{}\<close> to the given document and fails on every other text, and its \<open>int\<close>
  reads the one string \<open>45\<close>; its \<open>str.lower\<close> beyond the strings that \<open>lower\<close>
  treats itself changes nothing.

  The example document has a move with an unknown movement type, an element that is no
  dictionary, a move of duration 0, a move without a name, a move whose duration is
  the string \<open>45\<close> under the key \<open>duration\<close>, a move whose name is a no-break space
  (U+00A0) and an em space (U+2003), and a move whose name and movement type stand
  between such spaces.
\<close>

definition stub_lib :: "unit json \<Rightarrow> unit pylib" where
  "stub_lib doc =
     \<lparr>json_loads = (\<lambda>s. if s = lit ''{}'' then Inr doc else Inl (lit ''Expecting value'')),
      str_other = (\<lambda>_. lit ''None''),
      int_str = (\<lambda>s. if s = lit ''45'' then Some 45 else None),
      int_float = (\<lambda>_. None),
      str_lower = (\<lambda>s. s)\<rparr>"

definition example_doc :: "unit json" where
  "example_doc =
     JDict [(lit ''warmups'', JList
              [JDict [(lit ''name'', JStr (lit ''Arm Circles'')), (lit ''duration_seconds'', JInt 30),
                      (lit ''notes'', JStr (lit ''slow'')), (lit ''movement_type'', JStr (lit ''Explosive''))],
               JStr (lit ''not a move''),
               JDict [(lit ''name'', JStr (lit ''Plank'')), (lit ''duration_seconds'', JInt 0)],
               JDict [(lit ''duration_seconds'', JInt 20)],
               JDict [(lit ''name'', JStr (lit '' Jump Squats '')), (lit ''duration'', JStr (lit ''45'')),
                      (lit ''movement_type'', JStr (lit ''Power''))],
               JDict [(lit ''name'', JStr [160, 8195]), (lit ''duration_seconds'', JInt 15)],
               JDict [(lit ''name'', JStr ([160] @ lit ''Lunge'' @ [133])), (lit ''duration_seconds'', JInt 20),
                      (lit ''movement_type'', JStr ([8195] @ lit ''Balance'' @ [160]))]]),
            (lit ''safety'', JStr (lit ''Stop if pain.''))]"

section \<open>Floating-point arithmetic\<close>

text \<open>
  \<open>calculate_level\<close> computes \<open>math.floor(math.sqrt(xp / 50))\<close> in IEEE 754 double
  precision: \<open>xp / 50\<close> is Python's true division of two integers, which returns the
  double nearest to the quotient (ties to the even mantissa) and raises \<open>OverflowError\<close>
  when that is beyond the doubles; \<open>math.sqrt\<close> returns the double nearest to the square
  root; \<open>math.floor\<close> returns an integer, exactly.

  A positive finite double is a mantissa and an exponent, with the value
  \<open>mant * 2 ^ expo\<close>. The arguments of \<open>calculate_level\<close> keep every value here at or
  above \<open>1 / 50\<close>, far from the subnormal range, which is left out.
\<close>

datatype py_error =
  OverflowError | AttributeError | OperationalError | ProgrammingError | UnicodeEncodeError

record double =
  mant :: int
  expo :: int

definition dval :: "double \<Rightarrow> real" where
  "dval x = real_of_int (mant x) * 2 powi (expo x)"

text \<open>The integer nearest to \<open>p / q\<close>, the even one of the two when both are as near.\<close>

definition round_even_div :: "int \<Rightarrow> int \<Rightarrow> int" where
  "round_even_div p q =
     (let m = p div q; r = p mod q
      in if 2 * r < q then m
         else if 2 * r > q then m + 1
         else if even m then m else m + 1)"

text \<open>The fraction \<open>p / (q * 2 ^ e)\<close> as a numerator and a denominator.\<close>

definition scale2 :: "int \<Rightarrow> int \<Rightarrow> int \<Rightarrow> int \<times> int" where
  "scale2 p q e = (if 0 \<le> e then (p, q * 2 ^ nat e) else (p * 2 ^ nat (- e), q))"

text \<open>
  The double nearest to \<open>p / q\<close> for positive \<open>p\<close> and \<open>q\<close>: the exponent \<open>e\<close> is the one
  with \<open>2 ^ 52 \<le> p / (q * 2 ^ e) < 2 ^ 53\<close>, found from the bit lengths of \<open>p\<close> and \<open>q\<close> (\<open>bitlen\<close>),
  and the mantissa is that fraction rounded to the nearest integer, ties to even. A
  mantissa rounded up to \<open>2 ^ 53\<close> is kept as it is: the value is the same as that of
  \<open>2 ^ 52\<close> with the next exponent.
\<close>

definition round53 :: "int \<Rightarrow> int \<Rightarrow> double" where
  "round53 p q =
     (let e0 = bitlen p - bitlen q - 53;
          e = (if fst (scale2 p q e0) < 2 ^ 53 * snd (scale2 p q e0) then e0 else e0 + 1)
      in \<lparr>mant = round_even_div (fst (scale2 p q e)) (snd (scale2 p q e)), expo = e\<rparr>)"

text \<open>
  Python's \<open>a / b\<close> for positive integers: \<open>OverflowError\<close> (integer division result
  too large for a float) when the rounded quotient is \<open>2 ^ 1024\<close> or more.
\<close>

definition int_truediv :: "int \<Rightarrow> int \<Rightarrow> py_error + double" where
  "int_truediv a b =
     (let x = round53 a b
      in if 0 \<le> expo x \<and> 2 ^ 1024 \<le> mant x * 2 ^ nat (expo x)
         then Inl OverflowError
         else Inr x)"

text \<open>
  The integer square root, bit by bit from the top: \<open>isqrt_bits a k r\<close> decides the
  bits \<open>k, \<dots>, 0\<close> of the root, \<open>r\<close> holding the bits above them.
\<close>

fun isqrt_bits :: "int \<Rightarrow> nat \<Rightarrow> int \<Rightarrow> int" where
  "isqrt_bits a 0 r = (if (r + 1) * (r + 1) \<le> a then r + 1 else r)"
| "isqrt_bits a (Suc k) r =
     isqrt_bits a k (if (r + 2 ^ Suc k) * (r + 2 ^ Suc k) \<le> a then r + 2 ^ Suc k else r)"

definition isqrt :: "int \<Rightarrow> int" where
  "isqrt a = isqrt_bits a (nat (bitlen a div 2)) 0"

text \<open>
  \<open>math.sqrt\<close> on a positive double: the double nearest to the square root of its value.
  With an even exponent \<open>2 * h\<close> the value is \<open>m * 4 ^ h\<close>, and its root is
  \<open>sqrt (m * 4 ^ 53) * 2 ^ (h - 53)\<close>. The integer root \<open>r\<close> of \<open>m * 4 ^ 53\<close> has 54 bits or
  more, so the mantissa drops at least one bit of \<open>r\<close>, and the rounding only asks
  whether the root is \<open>r\<close> itself or lies strictly between \<open>r\<close> and \<open>r + 1\<close>: it rounds
  as \<open>r\<close> or as \<open>r + 1 / 2\<close> does.
\<close>

definition math_sqrt :: "double \<Rightarrow> double" where
  "math_sqrt x =
     (let m = (if even (expo x) then mant x else 2 * mant x);
          h = (if even (expo x) then expo x else expo x - 1) div 2;
          a = m * 4 ^ 53;
          r = isqrt a;
          y = round53 (2 * r + (if r * r = a then 0 else 1)) 2
      in \<lparr>mant = mant y, expo = expo y + h - 53\<rparr>)"

text \<open>\<open>math.floor\<close> on a positive double.\<close>

definition math_floor :: "double \<Rightarrow> int" where
  "math_floor x =
     (if 0 \<le> expo x then mant x * 2 ^ nat (expo x)
      else mant x div 2 ^ nat (- expo x))"

section \<open>The levelling functions (main.py)\<close>

definition calculate_level :: "int \<Rightarrow> py_error + int" where
  "calculate_level xp =
     (if xp \<le> 0 then Inr 0
      else
        (case int_truediv xp 50 of
           Inl err \<Rightarrow> Inl err
         | Inr q \<Rightarrow> Inr (max 0 (math_floor (math_sqrt q)))))"

definition xp_for_next_level :: "int \<Rightarrow> int" where
  "xp_for_next_level current_level = (current_level + 1) ^ 2 * 50"

text \<open>
  The same formula as \<open>dbinit.py\<close> writes it when it recalculates the level columns:
  \<open>max(0, math.floor(math.sqrt(total_xp / 50))) if total_xp > 0 else 0\<close>.
\<close>

definition migration_level :: "int \<Rightarrow> py_error + int" where
  "migration_level total_xp =
     (if total_xp > 0
      then (case int_truediv total_xp 50 of
              Inl err \<Rightarrow> Inl err
            | Inr q \<Rightarrow> Inr (max 0 (math_floor (math_sqrt q))))
      else Inr 0)"

section \<open>The database and the progress ledger (main.py, dbinit.py)\<close>

text \<open>
  A value of a SQLite column or of a statement parameter: \<open>NULL\<close>, a 64-bit integer, a
  text, or a real (a double, kept opaque like the floats of JSON).
\<close>

datatype 'f sqlv = SqlNull | SqlInt int | SqlText pystr | SqlReal 'f

definition int64 :: "int \<Rightarrow> bool" where
  "int64 n = (- (2 ^ 63) \<le> n \<and> n < 2 ^ 63)"

text \<open>
  The tables as lists of rows. A row of \<open>users\<close> holds the columns that \<open>dbinit.py\<close>
  adds; the level columns hold integers, which is all that the code writes there. A row
  of \<open>completed_exercises\<close> is one ledger entry (its \<open>id\<close> and \<open>completed_at\<close> are left
  out). The column \<open>movement_type\<close> has the affinity \<open>TEXT\<close>: it holds a text or \<open>NULL\<close>
  (\<open>None\<close>). The columns \<open>routine_id\<close> and \<open>exercise_name\<close> are kept as the values that
  were bound, since nothing reads them.
\<close>

record 'f user_row =
  u_id :: nat
  u_total_xp :: "'f sqlv"
  u_mobility_level :: int
  u_activation_level :: int
  u_stability_level :: int
  u_power_level :: int
  u_balance_level :: int

record 'f completed_exercise =
  ce_user_id :: nat
  ce_routine_id :: "'f sqlv"
  ce_exercise_name :: "'f sqlv"
  ce_movement_type :: "pystr option"
  ce_xp_earned :: "'f sqlv"

record 'f db =
  users :: "'f user_row list"
  completed_exercises :: "'f completed_exercise list"

text \<open>
  What SQLite does outside integers and plain column names, taken as parameters:
  \<^item> \<open>is_nan\<close> tells a NaN, which \<open>sqlite3\<close> binds as \<open>NULL\<close>;
  \<^item> \<open>integer_affinity\<close> is the value that a column of affinity \<open>INTEGER\<close> keeps for a
    text or a real (a text that reads as a number becomes that number);
  \<^item> \<open>text_affinity\<close> is the text that the affinity \<open>TEXT\<close> makes of an integer or a
    real;
  \<^item> \<open>plus_other\<close> is what the column \<open>total_xp\<close> holds after \<open>total_xp + ?\<close> when an
    operand is a text or a real, or when the sum of two integers leaves 64 bits (SQLite
    then adds them as reals);
  \<^item> \<open>level_other\<close> is \<open>calculate_level\<close> of \<open>SUM(xp_earned)\<close> over values some of which
    are texts or reals (the sum is then a real), or the exception raised on the way;
  \<^item> \<open>update_other\<close> is the table \<open>users\<close> after
    \<open>UPDATE users SET <level_field> = ? WHERE id = ?\<close> for a \<open>level_field\<close> that is not
    one of the five level columns, or the exception: the text is pasted into the
    statement, where it can name another column or be more than a name.
\<close>

record 'f sqlite =
  is_nan :: "'f \<Rightarrow> bool"
  integer_affinity :: "'f sqlv \<Rightarrow> 'f sqlv"
  text_affinity :: "'f sqlv \<Rightarrow> pystr"
  plus_other :: "'f sqlv \<Rightarrow> 'f sqlv \<Rightarrow> 'f sqlv"
  level_other :: "'f sqlv list \<Rightarrow> py_error + int"
  update_other :: "pystr \<Rightarrow> int \<Rightarrow> nat \<Rightarrow> 'f db \<Rightarrow> py_error + 'f user_row list"

text \<open>
  How \<open>sqlite3\<close> binds a Python value to a \<open>?\<close>: \<open>None\<close> is \<open>NULL\<close>, \<open>True\<close> and \<open>False\<close>
  are 1 and 0, an integer must fit 64 bits (\<open>OverflowError\<close>: Python int too large to
  convert to SQLite INTEGER), a string must encode as UTF-8, which a surrogate code
  point does not (\<open>UnicodeEncodeError\<close>), and a list or a dictionary is refused
  (\<open>ProgrammingError\<close>; \<open>InterfaceError\<close> before Python 3.11).
\<close>

definition surrogate :: "int \<Rightarrow> bool" where
  "surrogate c = (55296 \<le> c \<and> c \<le> 57343)"

definition bind :: "'f sqlite \<Rightarrow> 'f json \<Rightarrow> py_error + 'f sqlv" where
  "bind sq v =
     (case v of
        JNull \<Rightarrow> Inr SqlNull
      | JBool b \<Rightarrow> Inr (SqlInt (if b then 1 else 0))
      | JInt n \<Rightarrow> if int64 n then Inr (SqlInt n) else Inl OverflowError
      | JFloat x \<Rightarrow> Inr (if is_nan sq x then SqlNull else SqlReal x)
      | JStr s \<Rightarrow> if list_ex surrogate s then Inl UnicodeEncodeError else Inr (SqlText s)
      | JList _ \<Rightarrow> Inl ProgrammingError
      | JDict _ \<Rightarrow> Inl ProgrammingError)"

text \<open>A value as a column of affinity \<open>INTEGER\<close> and of affinity \<open>TEXT\<close> stores it.\<close>

definition store_integer :: "'f sqlite \<Rightarrow> 'f sqlv \<Rightarrow> 'f sqlv" where
  "store_integer sq v =
     (case v of SqlNull \<Rightarrow> SqlNull | SqlInt n \<Rightarrow> SqlInt n | _ \<Rightarrow> integer_affinity sq v)"

definition store_text :: "'f sqlite \<Rightarrow> 'f sqlv \<Rightarrow> pystr option" where
  "store_text sq v =
     (case v of SqlNull \<Rightarrow> None | SqlText s \<Rightarrow> Some s | _ \<Rightarrow> Some (text_affinity sq v))"

text \<open>
  \<open>total_xp + ?\<close>: \<open>NULL\<close> when an operand is \<open>NULL\<close>, the integer sum of two integers
  when it fits 64 bits.
\<close>

definition sql_plus :: "'f sqlite \<Rightarrow> 'f sqlv \<Rightarrow> 'f sqlv \<Rightarrow> 'f sqlv" where
  "sql_plus sq a b =
     (case (a, b) of
        (SqlNull, _) \<Rightarrow> SqlNull
      | (_, SqlNull) \<Rightarrow> SqlNull
      | (SqlInt x, SqlInt y) \<Rightarrow> if int64 (x + y) then SqlInt (x + y) else plus_other sq a b
      | _ \<Rightarrow> plus_other sq a b)"

text \<open>\<open>SELECT * FROM users WHERE id = ?\<close> with \<open>fetchone\<close>.\<close>

definition get_user :: "'f db \<Rightarrow> nat \<Rightarrow> 'f user_row option" where
  "get_user d user_id = find (\<lambda>u. u_id u = user_id) (users d)"

text \<open>The five level columns by name.\<close>

definition level_fields :: "pystr list" where
  "level_fields = [lit ''mobility_level'', lit ''activation_level'', lit ''stability_level'',
                   lit ''power_level'', lit ''balance_level'']"

definition get_level :: "pystr \<Rightarrow> 'f user_row \<Rightarrow> int" where
  "get_level level_field u =
     (if level_field = lit ''mobility_level'' then u_mobility_level u
      else if level_field = lit ''activation_level'' then u_activation_level u
      else if level_field = lit ''stability_level'' then u_stability_level u
      else if level_field = lit ''power_level'' then u_power_level u
      else u_balance_level u)"

definition set_level :: "pystr \<Rightarrow> int \<Rightarrow> 'f user_row \<Rightarrow> 'f user_row" where
  "set_level level_field v u =
     (if level_field = lit ''mobility_level'' then u\<lparr>u_mobility_level := v\<rparr>
      else if level_field = lit ''activation_level'' then u\<lparr>u_activation_level := v\<rparr>
      else if level_field = lit ''stability_level'' then u\<lparr>u_stability_level := v\<rparr>
      else if level_field = lit ''power_level'' then u\<lparr>u_power_level := v\<rparr>
      else u\<lparr>u_balance_level := v\<rparr>)"

text \<open>\<open>UPDATE users SET ... WHERE id = ?\<close>: every row with that id is changed.\<close>

definition update_users :: "'f db \<Rightarrow> nat \<Rightarrow> ('f user_row \<Rightarrow> 'f user_row) \<Rightarrow> 'f db" where
  "update_users d user_id f =
     d\<lparr>users := map (\<lambda>u. if u_id u = user_id then f u else u) (users d)\<rparr>"

text \<open>
  \<open>SUM\<close> over integers: SQLite adds them in 64 bits, row after row, and raises
  \<open>integer overflow\<close> (an \<open>OperationalError\<close>) when a partial sum leaves 64 bits.
\<close>

fun sum_int64 :: "int \<Rightarrow> int list \<Rightarrow> py_error + int" where
  "sum_int64 acc [] = Inr acc"
| "sum_int64 acc (x # xs) =
     (if int64 (acc + x) then sum_int64 (acc + x) xs else Inl OperationalError)"

text \<open>
  The values of \<open>xp_earned\<close> that
  \<open>SELECT ... FROM completed_exercises WHERE user_id = ? AND movement_type = ?\<close> selects,
  in the order of the rows. A comparison with \<open>NULL\<close> selects no row.
\<close>

definition selected_xp :: "'f db \<Rightarrow> nat \<Rightarrow> pystr option \<Rightarrow> 'f sqlv list" where
  "selected_xp d user_id movement_type =
     map ce_xp_earned
       (filter (\<lambda>r. ce_user_id r = user_id \<and> movement_type \<noteq> None
                    \<and> ce_movement_type r = movement_type)
          (completed_exercises d))"

text \<open>
  \<open>COALESCE(SUM(xp_earned), 0)\<close> over such values: \<open>SUM\<close> skips \<open>NULL\<close>, is \<open>NULL\<close> when
  nothing is left (then \<open>COALESCE\<close> gives 0), and is an integer when every value is one.
  Otherwise the total is a real, kept as the values it is the sum of.
\<close>

datatype 'f total = IntTotal int | RealTotal "'f sqlv list"

definition the_int :: "'f sqlv \<Rightarrow> int" where
  "the_int v = (case v of SqlInt n \<Rightarrow> n | _ \<Rightarrow> 0)"

definition coalesce_sum :: "'f sqlv list \<Rightarrow> py_error + 'f total" where
  "coalesce_sum values =
     (let vs = filter (\<lambda>v. v \<noteq> SqlNull) values
      in if list_all (\<lambda>v. case v of SqlInt n \<Rightarrow> True | _ \<Rightarrow> False) vs
         then (case sum_int64 0 (map the_int vs) of
                 Inl err \<Rightarrow> Inl err
               | Inr s \<Rightarrow> Inr (IntTotal s))
         else Inr (RealTotal vs))"

text \<open>
  \<open>calculate_level\<close> on the total that the query returned. On an integer total below
  \<open>2 ^ 63\<close> the level is below \<open>2 ^ 32\<close>, so binding it to the \<open>UPDATE\<close> never fails.
\<close>

definition calculate_level_of :: "'f sqlite \<Rightarrow> 'f total \<Rightarrow> py_error + int" where
  "calculate_level_of sq t =
     (case t of IntTotal n \<Rightarrow> calculate_level n | RealTotal vs \<Rightarrow> level_other sq vs)"

text \<open>
  The functions below return the database as they leave it, and the exception they
  raised, if any: what was committed before an exception stays committed.
  \<open>movement_type\<close> and \<open>xp_amount\<close> are the Python values taken from the request. A
  movement type that is not a string has no \<open>lower\<close> (\<open>AttributeError\<close>). The parameter
  \<open>unicode_lower\<close> is that of \<open>lower\<close>.
\<close>

definition update_movement_level ::
  "'f sqlite \<Rightarrow> (pystr \<Rightarrow> pystr) \<Rightarrow> 'f db \<Rightarrow> nat \<Rightarrow> 'f json \<Rightarrow> 'f json
     \<Rightarrow> 'f db \<times> py_error option" where
  "update_movement_level sq unicode_lower d user_id movement_type xp_amount =
     (case bind sq movement_type of
        Inl err \<Rightarrow> (d, Some err)
      | Inr m \<Rightarrow>
          (case coalesce_sum (selected_xp d user_id (store_text sq m)) of
             Inl err \<Rightarrow> (d, Some err)
           | Inr current_xp \<Rightarrow>
               (case calculate_level_of sq current_xp of
                  Inl err \<Rightarrow> (d, Some err)
                | Inr new_level \<Rightarrow>
                    (case movement_type of
                       JStr mt \<Rightarrow>
                         (let level_field = lower unicode_lower mt @ lit ''_level''
                          in if level_field \<in> set level_fields
                             then (update_users d user_id (set_level level_field new_level), None)
                             else (case update_other sq level_field new_level user_id d of
                                     Inl err \<Rightarrow> (d, Some err)
                                   | Inr us \<Rightarrow> (d\<lparr>users := us\<rparr>, None)))
                     | _ \<Rightarrow> (d, Some AttributeError)))))"

definition add_xp ::
  "'f sqlite \<Rightarrow> (pystr \<Rightarrow> pystr) \<Rightarrow> 'f db \<Rightarrow> nat \<Rightarrow> 'f json \<Rightarrow> 'f json
     \<Rightarrow> 'f db \<times> py_error option" where
  "add_xp sq unicode_lower d user_id movement_type xp_amount =
     (case bind sq xp_amount of
        Inl err \<Rightarrow> (d, Some err)
      | Inr x \<Rightarrow>
          update_movement_level sq unicode_lower
            (update_users d user_id (\<lambda>u. u\<lparr>u_total_xp := sql_plus sq (u_total_xp u) x\<rparr>))
            user_id movement_type xp_amount)"

text \<open>
  \<open>save_completed_exercise\<close> binds its arguments in the order of the tuple; the first
  one that does not bind raises, and no row is written.
\<close>

definition save_completed_exercise ::
  "'f sqlite \<Rightarrow> 'f db \<Rightarrow> nat \<Rightarrow> 'f json \<Rightarrow> 'f json \<Rightarrow> 'f json \<Rightarrow> 'f json \<Rightarrow> py_error + 'f db" where
  "save_completed_exercise sq d user_id routine_id exercise_name movement_type xp_earned =
     (case bind sq routine_id of
        Inl err \<Rightarrow> Inl err
      | Inr r \<Rightarrow>
     (case bind sq exercise_name of
        Inl err \<Rightarrow> Inl err
      | Inr n \<Rightarrow>
     (case bind sq movement_type of
        Inl err \<Rightarrow> Inl err
      | Inr m \<Rightarrow>
     (case bind sq xp_earned of
        Inl err \<Rightarrow> Inl err
      | Inr x \<Rightarrow>
          Inr (d\<lparr>completed_exercises := completed_exercises d @
                 [\<lparr>ce_user_id = user_id, ce_routine_id = r, ce_exercise_name = n,
                   ce_movement_type = store_text sq m,
                   ce_xp_earned = store_integer sq x\<rparr>]\<rparr>)))))"

text \<open>
  The two endpoints. \<open>session\<close> is \<open>session["user_id"]\<close>, \<open>None\<close> when nobody is logged in;
  \<open>body\<close> is \<open>request.json\<close>. A body that is not a dictionary has no \<open>get\<close>
  (\<open>AttributeError\<close>). \<open>data.get(key)\<close> is \<open>None\<close> for an absent key; \<open>xp_earned\<close>
  defaults to 10 and \<open>bonus_xp\<close> to 50. An exception that leaves the handler is the
  answer \<open>ServerError\<close>.
\<close>

datatype 'f response = Success "'f json" | NotAuthenticated | ServerError py_error

definition complete_exercise ::
  "'f sqlite \<Rightarrow> (pystr \<Rightarrow> pystr) \<Rightarrow> 'f db \<Rightarrow> nat option \<Rightarrow> 'f json \<Rightarrow> 'f db \<times> 'f response" where
  "complete_exercise sq unicode_lower d session body =
     (case session of
        None \<Rightarrow> (d, NotAuthenticated)
      | Some user_id \<Rightarrow>
          (case body of
             JDict data \<Rightarrow>
               (let routine_id = dict_get data (lit ''routine_id'') JNull;
                    exercise_name = dict_get data (lit ''exercise_name'') JNull;
                    movement_type = dict_get data (lit ''movement_type'') JNull;
                    xp_earned = dict_get data (lit ''xp_earned'') (JInt 10)
                in case save_completed_exercise sq d user_id routine_id exercise_name
                          movement_type xp_earned of
                     Inl err \<Rightarrow> (d, ServerError err)
                   | Inr d1 \<Rightarrow>
                       (let (d2, raised) = add_xp sq unicode_lower d1 user_id movement_type xp_earned
                        in case raised of
                             Some err \<Rightarrow> (d2, ServerError err)
                           | None \<Rightarrow> (d2, Success xp_earned)))
           | _ \<Rightarrow> (d, ServerError AttributeError)))"

definition complete_routine ::
  "'f sqlite \<Rightarrow> 'f db \<Rightarrow> nat option \<Rightarrow> 'f json \<Rightarrow> 'f db \<times> 'f response" where
  "complete_routine sq d session body =
     (case session of
        None \<Rightarrow> (d, NotAuthenticated)
      | Some user_id \<Rightarrow>
          (case body of
             JDict data \<Rightarrow>
               (let bonus_xp = dict_get data (lit ''bonus_xp'') (JInt 50)
                in case bind sq bonus_xp of
                     Inl err \<Rightarrow> (d, ServerError err)
                   | Inr b \<Rightarrow>
                       (update_users d user_id
                          (\<lambda>u. u\<lparr>u_total_xp := sql_plus sq (u_total_xp u) b\<rparr>),
                        Success bonus_xp))
           | _ \<Rightarrow> (d, ServerError AttributeError)))"

text \<open>A history of completions, served one request after the other.\<close>

datatype 'f request =
    CompleteExercise "nat option" "'f json"
  | CompleteRoutine "nat option" "'f json"

fun serve :: "'f sqlite \<Rightarrow> (pystr \<Rightarrow> pystr) \<Rightarrow> 'f db \<Rightarrow> 'f request \<Rightarrow> 'f db" where
  "serve sq unicode_lower d (CompleteExercise session body) =
     fst (complete_exercise sq unicode_lower d session body)"
| "serve sq unicode_lower d (CompleteRoutine session body) =
     fst (complete_routine sq d session body)"

fun serve_all :: "'f sqlite \<Rightarrow> (pystr \<Rightarrow> pystr) \<Rightarrow> 'f db \<Rightarrow> 'f request list \<Rightarrow> 'f db" where
  "serve_all sq unicode_lower d [] = d"
| "serve_all sq unicode_lower d (rq # rqs) = serve_all sq unicode_lower (serve sq unicode_lower d rq) rqs"

section \<open>What a history adds\<close>

text \<open>
  The row that one request adds to \<open>completed_exercises\<close>: one row for a move completion
  of a logged-in user whose body is a dictionary and whose four fields bind, and no row
  for any other request.
\<close>

fun request_rows :: "'f sqlite \<Rightarrow> 'f request \<Rightarrow> 'f completed_exercise list" where
  "request_rows sq (CompleteExercise (Some user_id) (JDict data)) =
     (case (bind sq (dict_get data (lit ''routine_id'') JNull),
            bind sq (dict_get data (lit ''exercise_name'') JNull),
            bind sq (dict_get data (lit ''movement_type'') JNull),
            bind sq (dict_get data (lit ''xp_earned'') (JInt 10))) of
        (Inr r, Inr n, Inr m, Inr x) \<Rightarrow>
          [\<lparr>ce_user_id = user_id, ce_routine_id = r, ce_exercise_name = n,
            ce_movement_type = store_text sq m, ce_xp_earned = store_integer sq x\<rparr>]
      | _ \<Rightarrow> [])"
| "request_rows sq _ = []"

definition ledger_rows :: "'f sqlite \<Rightarrow> 'f request list \<Rightarrow> 'f completed_exercise list" where
  "ledger_rows sq rqs = concat (map (request_rows sq) rqs)"

text \<open>
  The sum of XP over the rows of one user, for rows whose XP are integers (any other
  value counts as 0); over the ledger, and over the rows that a history adds.
\<close>

definition rows_xp :: "nat \<Rightarrow> 'f completed_exercise list \<Rightarrow> int" where
  "rows_xp user_id rows =
     sum_list (map (\<lambda>r. the_int (ce_xp_earned r)) (filter (\<lambda>r. ce_user_id r = user_id) rows))"

definition ledger_xp :: "'f db \<Rightarrow> nat \<Rightarrow> int" where
  "ledger_xp d user_id = rows_xp user_id (completed_exercises d)"

definition moves_xp :: "'f sqlite \<Rightarrow> nat \<Rightarrow> 'f request list \<Rightarrow> int" where
  "moves_xp sq user_id rqs = rows_xp user_id (ledger_rows sq rqs)"

text \<open>The bonus of one request for a user, and the bonuses of a history.\<close>

fun request_bonus :: "'f sqlite \<Rightarrow> nat \<Rightarrow> 'f request \<Rightarrow> int" where
  "request_bonus sq uid (CompleteRoutine (Some user_id) (JDict data)) =
     (if user_id = uid
      then (case bind sq (dict_get data (lit ''bonus_xp'') (JInt 50)) of
              Inr b \<Rightarrow> the_int b
            | Inl _ \<Rightarrow> 0)
      else 0)"
| "request_bonus sq uid _ = 0"

definition bonuses_xp :: "'f sqlite \<Rightarrow> nat \<Rightarrow> 'f request list \<Rightarrow> int" where
  "bonuses_xp sq uid rqs = sum_list (map (request_bonus sq uid) rqs)"

text \<open>
  A request whose movement type, if it is a move completion with a dictionary for its
  body, is one of the five; a request that moreover carries \<open>xp_earned\<close> as an integer,
  or not at all; and a request whose \<open>bonus_xp\<close>, if it is a routine completion with a
  dictionary for its body, is an integer, or absent.
\<close>

definition json_int :: "'f json \<Rightarrow> bool" where
  "json_int v = (case v of JInt n \<Rightarrow> True | _ \<Rightarrow> False)"

fun valid_request :: "'f request \<Rightarrow> bool" where
  "valid_request (CompleteExercise session (JDict data)) =
     (case dict_get data (lit ''movement_type'') JNull of
        JStr t \<Rightarrow> t \<in> set valid_types
      | _ \<Rightarrow> False)"
| "valid_request _ = True"

fun plain_request :: "'f request \<Rightarrow> bool" where
  "plain_request (CompleteExercise session (JDict data)) =
     (valid_request (CompleteExercise session (JDict data))
      \<and> json_int (dict_get data (lit ''xp_earned'') (JInt 10)))"
| "plain_request _ = True"

fun plain_bonus :: "'f request \<Rightarrow> bool" where
  "plain_bonus (CompleteRoutine session (JDict data)) =
     json_int (dict_get data (lit ''bonus_xp'') (JInt 50))"
| "plain_bonus _ = True"

text \<open>
  The running total of a user stays within 64 bits: \<open>c\<close> is the total before the
  history, and each request adds the XP of its row for the user and its bonus for the
  user.
\<close>

fun totals_fit :: "'f sqlite \<Rightarrow> nat \<Rightarrow> int \<Rightarrow> 'f request list \<Rightarrow> bool" where
  "totals_fit sq uid c [] = int64 c"
| "totals_fit sq uid c (rq # rqs) =
     (int64 c \<and> totals_fit sq uid (c + rows_xp uid (request_rows sq rq) + request_bonus sq uid rq) rqs)"

text \<open>
  A ledger whose XP are integers or \<open>NULL\<close>, and one whose XP are integers that are not
  negative, or \<open>NULL\<close>.
\<close>

definition int_xp :: "'f sqlv \<Rightarrow> bool" where
  "int_xp v = (case v of SqlInt n \<Rightarrow> True | SqlNull \<Rightarrow> True | _ \<Rightarrow> False)"


definition plain_xp :: "'f sqlv \<Rightarrow> bool" where
  "plain_xp v = (case v of SqlInt n \<Rightarrow> 0 \<le> n | SqlNull \<Rightarrow> True | _ \<Rightarrow> False)"


text \<open>The cached level of a user for a movement type: the column \<open><type>_level\<close>.\<close>

definition stored_level :: "(pystr \<Rightarrow> pystr) \<Rightarrow> 'f db \<Rightarrow> nat \<Rightarrow> pystr \<Rightarrow> int option" where
  "stored_level unicode_lower d user_id mt =
     (case get_user d user_id of
        Some u \<Rightarrow> Some (get_level (lower unicode_lower mt @ lit ''_level'') u)
      | None \<Rightarrow> None)"

text \<open>
  The level recomputed from the full ledger, as \<open>get_user_stats\<close> computes
  \<open>calculated_levels\<close> and as \<open>dbinit.py\<close> recalculates the level columns: the query for
  the sum of the user's XP for the movement type, then \<open>calculate_level\<close>.
\<close>

definition recomputed_level :: "'f sqlite \<Rightarrow> 'f db \<Rightarrow> nat \<Rightarrow> pystr \<Rightarrow> py_error + int" where
  "recomputed_level sq d user_id movement_type =
     (case coalesce_sum (selected_xp d user_id (Some movement_type)) of
        Inl err \<Rightarrow> Inl err
      | Inr current_xp \<Rightarrow> calculate_level_of sq current_xp)"


section \<open>Examples\<close>

text \<open>
  A stand-in for SQLite outside integers, to run the handlers on examples: none of the
  examples reaches it.
\<close>

definition stub_sqlite :: "unit sqlite" where
  "stub_sqlite =
     \<lparr>is_nan = (\<lambda>_. False), integer_affinity = (\<lambda>v. v), text_affinity = (\<lambda>_. []),
      plus_other = (\<lambda>a b. SqlReal ()), level_other = (\<lambda>_. Inr 0),
      update_other = (\<lambda>_ _ _ _. Inl OperationalError)\<rparr>"

definition example_db :: "unit db" where
  "example_db =
     \<lparr>users = [\<lparr>u_id = 1, u_total_xp = SqlInt 0, u_mobility_level = 0, u_activation_level = 0,
                 u_stability_level = 0, u_power_level = 0, u_balance_level = 0\<rparr>],
      completed_exercises = []\<rparr>"

definition example_request :: "pystr \<Rightarrow> unit json option \<Rightarrow> unit request" where
  "example_request mt xp =
     CompleteExercise (Some 1)
       (JDict ([(lit ''routine_id'', JInt 7), (lit ''exercise_name'', JStr (lit ''Arm Circles'')),
                (lit ''movement_type'', JStr mt)]
               @ (case xp of Some x \<Rightarrow> [(lit ''xp_earned'', x)] | None \<Rightarrow> [])))"

definition example_history :: "unit request list" where
  "example_history =
     [example_request (lit ''Mobility'') (Some (JInt 150)), example_request (lit ''Power'') None,
      CompleteRoutine (Some 1) (JDict []), example_request (lit ''Mobility'') (Some (JInt 60))]"

chapter \<open>Facts about the model\<close>

section \<open>Facts about strings\<close>

lemma lower_char_space: "is_space c \<Longrightarrow> lower_char c = c"
  by (auto simp: is_space_def lower_char_def)

lemma lower_all_space: "list_all is_space s \<Longrightarrow> lower unicode_lower s = s"
proof -
  assume h: "list_all is_space s"
  then have "list_all plain_char s"
    by (induction s) (simp_all add: plain_char_def)
  moreover from h have "map lower_char s = s"
    by (induction s) (simp_all add: lower_char_space)
  ultimately show ?thesis
    by (simp add: lower_def)
qed

lemma lower_ascii:
  "list_all (\<lambda>c. 0 \<le> c \<and> c < 128) s \<Longrightarrow>
   lower unicode_lower s = map (\<lambda>c. if 65 \<le> c \<and> c \<le> 90 then c + 32 else c) s"
proof -
  assume h: "list_all (\<lambda>c. 0 \<le> c \<and> c < 128) s"
  then have "list_all plain_char s"
    by (induction s) (simp_all add: plain_char_def)
  moreover from h have "map lower_char s = map (\<lambda>c. if 65 \<le> c \<and> c \<le> 90 then c + 32 else c) s"
    by (induction s) (auto simp: lower_char_def)
  ultimately show ?thesis
    by (simp add: lower_def)
qed

lemma dropWhile_all: "list_all P s \<Longrightarrow> dropWhile P s = []"
  by (induction s) simp_all

lemma strip_all_space: "list_all is_space s \<Longrightarrow> strip s = []"
  by (simp add: strip_def lstrip_def rstrip_def dropWhile_all)

lemma strip_lower_all_space: "list_all is_space s \<Longrightarrow> strip (lower unicode_lower s) = []"
  by (simp add: lower_all_space strip_all_space)

text \<open>
  \<open>strip\<close> removes a prefix and a suffix of whitespace, and what it leaves neither
  begins nor ends with whitespace.
\<close>

lemma rstrip_decomp: "t = rstrip t @ rev (takeWhile is_space (rev t))"
proof -
  have "rev (dropWhile is_space (rev t)) @ rev (takeWhile is_space (rev t))
      = rev (takeWhile is_space (rev t) @ dropWhile is_space (rev t))"
    by (simp only: rev_append)
  also have "\<dots> = rev (rev t)"
    by (simp only: takeWhile_dropWhile_id)
  finally show ?thesis
    by (simp add: rstrip_def)
qed

lemma strip_decomp:
  "s = takeWhile is_space s @ strip s @ rev (takeWhile is_space (rev (lstrip s)))"
proof -
  have "s = takeWhile is_space s @ lstrip s"
    by (simp add: lstrip_def)
  also have "lstrip s = strip s @ rev (takeWhile is_space (rev (lstrip s)))"
    unfolding strip_def by (rule rstrip_decomp)
  finally show ?thesis .
qed

lemma strip_surrounded:
  "\<exists>pre post. s = pre @ strip s @ post \<and> list_all is_space pre \<and> list_all is_space post"
proof (intro exI conjI)
  show "s = takeWhile is_space s @ strip s @ rev (takeWhile is_space (rev (lstrip s)))"
    by (rule strip_decomp)
  show "list_all is_space (takeWhile is_space s)"
    by (simp add: list_all_iff) (meson set_takeWhileD)
  show "list_all is_space (rev (takeWhile is_space (rev (lstrip s))))"
    by (simp add: list_all_iff) (meson set_takeWhileD)
qed

lemma rstrip_last: "rstrip t \<noteq> [] \<Longrightarrow> \<not> is_space (last (rstrip t))"
  by (simp add: rstrip_def last_rev hd_dropWhile)

lemma rstrip_hd: "rstrip t \<noteq> [] \<Longrightarrow> hd (rstrip t) = hd t"
proof -
  assume "rstrip t \<noteq> []"
  moreover have "t = rstrip t @ rev (takeWhile is_space (rev t))"
    by (rule rstrip_decomp)
  ultimately show ?thesis
    by (metis hd_append2)
qed

lemma strip_ends:
  "strip s \<noteq> [] \<Longrightarrow> \<not> is_space (hd (strip s)) \<and> \<not> is_space (last (strip s))"
proof -
  assume h: "strip s \<noteq> []"
  then have ne: "lstrip s \<noteq> []"
    by (auto simp: strip_def rstrip_def)
  from h have "hd (strip s) = hd (lstrip s)"
    unfolding strip_def by (rule rstrip_hd)
  moreover from ne have "\<not> is_space (hd (lstrip s))"
    by (simp add: lstrip_def hd_dropWhile)
  moreover from h have "\<not> is_space (last (strip s))"
    unfolding strip_def by (rule rstrip_last)
  ultimately show ?thesis
    by simp
qed

section \<open>Facts about the classifier\<close>

lemma partial_match_first:
  "list_all (\<lambda>(k', c'). \<not> sublist k' s \<and> \<not> sublist s k') pre \<Longrightarrow>
   sublist k s \<or> sublist s k \<Longrightarrow>
   partial_match s (pre @ (k, c) # post) = Some c"
  by (induction pre) auto

lemma partial_match_none:
  "list_all (\<lambda>(k', c'). \<not> sublist k' s \<and> \<not> sublist s k') table \<Longrightarrow>
   partial_match s table = None"
  by (induction table) auto

section \<open>Facts about category inference\<close>

lemma keyword_scan_first:
  "list_all (\<lambda>(c', kws'). \<not> list_ex (\<lambda>kw. sublist kw name) kws') pre \<Longrightarrow>
   list_ex (\<lambda>kw. sublist kw name) kws \<Longrightarrow>
   keyword_scan name (pre @ (c, kws) # post) sc = c"
  by (induction pre) auto

lemma keyword_scan_none:
  "list_all (\<lambda>(c', kws'). \<not> list_ex (\<lambda>kw. sublist kw name) kws') table \<Longrightarrow>
   keyword_scan name table sc = sc"
  by (induction table) auto

lemma keyword_scan_result:
  "keyword_scan name table sc = sc \<or> keyword_scan name table sc \<in> fst ` set table"
proof (induction table)
  case Nil
  then show ?case by simp
next
  case (Cons e table)
  obtain c kws where e: "e = (c, kws)" by (cases e)
  show ?case
  proof (cases "list_ex (\<lambda>kw. sublist kw name) kws")
    case True
    then show ?thesis by (simp add: e)
  next
    case False
    with Cons show ?thesis by (auto simp: e)
  qed
qed

lemma category_keywords_names:
  "c \<in> fst ` set category_keywords \<Longrightarrow> c \<noteq> [] \<and> c \<noteq> lit ''Other''"
proof -
  have "list_all (\<lambda>c. c \<noteq> [] \<and> c \<noteq> lit ''Other'') (map fst category_keywords)"
    by code_simp
  then show "c \<in> fst ` set category_keywords \<Longrightarrow> c \<noteq> [] \<and> c \<noteq> lit ''Other''"
    by (auto simp: list_all_iff)
qed

section \<open>Facts about the routine parser\<close>

lemma strip_Nil: "strip [] = []"
  by (simp add: strip_def lstrip_def rstrip_def)

lemma strip_Mobility: "strip (lit ''Mobility'') = lit ''Mobility''"
  by code_simp

lemma py_str_JStr: "py_str lib (JStr s) = s"
  by (simp add: py_str_def)

lemma name_field:
  "strip (py_str lib (dict_get it (lit ''name'') (JStr []))) = spec_name lib it"
  by (simp add: dict_get_def spec_name_def py_str_JStr split: option.splits)

lemma notes_field:
  "strip (py_str lib (dict_get it (lit ''notes'') (JStr []))) =
   strip (case map_of it (lit ''notes'') of Some v \<Rightarrow> py_str lib v | None \<Rightarrow> [])"
  by (simp add: dict_get_def py_str_JStr split: option.splits)

lemma duration_field:
  "(case py_int lib (dict_get it (lit ''duration_seconds'') (dict_get it (lit ''duration'') (JInt 0))) of
      Some i \<Rightarrow> i | None \<Rightarrow> 0) = spec_duration lib it"
  by (simp add: dict_get_def spec_duration_def split: option.splits)

lemma movement_type_field:
  "(let movement_type = strip (py_str lib (dict_get it (lit ''movement_type'') (JStr (lit ''Mobility''))))
    in if movement_type \<notin> set valid_types then lit ''Mobility'' else movement_type)
   = spec_movement_type lib it"
proof (cases "map_of it (lit ''movement_type'')")
  case None
  then show ?thesis
    by (simp add: dict_get_def spec_movement_type_def py_str_JStr strip_Mobility valid_types_def)
next
  case (Some v)
  then show ?thesis
    by (simp add: dict_get_def spec_movement_type_def valid_types_def Let_def)
qed

lemma collect_warmups_dict:
  "collect_warmups lib (JDict it # items) acc =
     (if spec_keep lib (JDict it)
      then collect_warmups lib items (acc @ [spec_move lib (JDict it)])
      else collect_warmups lib items acc)"
  using movement_type_field [of lib it]
  by (simp add: name_field notes_field duration_field spec_keep_def spec_move_def Let_def)

lemma collect_warmups_other:
  "\<not> (\<exists>it. item = JDict it) \<Longrightarrow> collect_warmups lib (item # items) acc = collect_warmups lib items acc"
  by (cases item) simp_all

lemma collect_warmups_acc:
  "collect_warmups lib items acc = acc @ map (spec_move lib) (filter (spec_keep lib) items)"
proof (induction items arbitrary: acc)
  case Nil
  then show ?case by simp
next
  case (Cons item items)
  show ?case
  proof (cases "\<exists>it. item = JDict it")
    case True
    then obtain it where "item = JDict it" ..
    then show ?thesis
      by (simp only: collect_warmups_dict Cons.IH) simp
  next
    case False
    then have "\<not> spec_keep lib item"
      by (cases item) (simp_all add: spec_keep_def)
    with collect_warmups_other [OF False, of lib items acc] show ?thesis
      by (simp add: Cons.IH del: collect_warmups.simps)
  qed
qed

lemma extract_warmups_list:
  "map_of ro (lit ''warmups'') = Some (JList items) \<Longrightarrow>
   fst (extract_warmups lib (JDict ro)) = map (spec_move lib) (filter (spec_keep lib) items)"
  using collect_warmups_acc [of lib items "[]"]
  by (simp add: extract_warmups_def dict_get_def Let_def)

lemma generate_warmups_fields:
  "rt_warmups (generate_warmups lib exercise mg out) =
     fst (extract_warmups lib (fst (safe_json_load lib (strip (case out of Some t \<Rightarrow> t | None \<Rightarrow> [])))))
   \<and> rt_raw (generate_warmups lib exercise mg out) = strip (case out of Some t \<Rightarrow> t | None \<Rightarrow> [])
   \<and> (rt_error (generate_warmups lib exercise mg out) = None) =
       (rt_warmups (generate_warmups lib exercise mg out) \<noteq> [])"
  by (simp add: generate_warmups_def Let_def split: prod.splits)

lemma spec_movement_type_valid: "spec_movement_type lib it \<in> set valid_types"
  by (simp add: spec_movement_type_def valid_types_def Let_def)

lemma spec_move_valid: "spec_keep lib item \<Longrightarrow> w_movement_type (spec_move lib item) \<in> set valid_types"
  by (cases item) (simp_all add: spec_keep_def spec_move_def spec_movement_type_valid)


lemma spec_move_kept:
  assumes "spec_keep lib item"
  shows "w_name (spec_move lib item) \<noteq> [] \<and> \<not> is_space (hd (w_name (spec_move lib item)))
       \<and> \<not> is_space (last (w_name (spec_move lib item))) \<and> 0 < w_duration (spec_move lib item)"
proof -
  from assms obtain it where it: "item = JDict it" "spec_name lib it \<noteq> []" "0 < spec_duration lib it"
    by (cases item) (simp_all add: spec_keep_def)
  have "spec_name lib it = strip (case map_of it (lit ''name'') of Some v \<Rightarrow> py_str lib v | None \<Rightarrow> [])"
    by (simp add: spec_name_def)
  with it(2) strip_ends [of "case map_of it (lit ''name'') of Some v \<Rightarrow> py_str lib v | None \<Rightarrow> []"]
  have "\<not> is_space (hd (spec_name lib it)) \<and> \<not> is_space (last (spec_name lib it))"
    by simp
  with it show ?thesis
    by (simp add: spec_move_def)
qed

section \<open>Facts about finding the braces\<close>

lemma find_char_range:
  "find_char c s = - 1 \<or> (0 \<le> find_char c s \<and> find_char c s < int (length s))"
  by (induction s) (auto simp: Let_def)

lemma find_char_absent: "c \<notin> set s \<Longrightarrow> find_char c s = - 1"
  by (induction s) auto

lemma find_char_first: "c \<notin> set pre \<Longrightarrow> find_char c (pre @ c # rest) = int (length pre)"
  by (induction pre) (auto simp: Let_def)

lemma find_char_nth:
  "find_char c s \<noteq> - 1 \<Longrightarrow> s ! nat (find_char c s) = c"
proof (induction s)
  case Nil
  then show ?case by simp
next
  case (Cons x xs)
  show ?case
  proof (cases "x = c")
    case True
    then show ?thesis by simp
  next
    case False
    with Cons.prems have ne: "find_char c xs \<noteq> - 1"
      by (auto simp: Let_def split: if_splits)
    with find_char_range [of c xs] have "0 \<le> find_char c xs" by auto
    then have "nat (find_char c xs + 1) = Suc (nat (find_char c xs))" by simp
    with False ne Cons.IH show ?thesis by (simp add: Let_def)
  qed
qed

lemma rfind_char_last: "c \<notin> set post \<Longrightarrow> rfind_char c (pre @ c # post) = int (length pre)"
  using find_char_first [of c "rev post" "rev pre"]
  by (simp add: rfind_char_def)

lemma rfind_char_range:
  "rfind_char c s = - 1 \<or> (0 \<le> rfind_char c s \<and> rfind_char c s < int (length s))"
  using find_char_range [of c "rev s"] by (auto simp: rfind_char_def Let_def)

lemma rfind_char_nth:
  assumes "rfind_char c s \<noteq> - 1"
  shows "s ! nat (rfind_char c s) = c"
proof -
  let ?i = "find_char c (rev s)"
  from assms have ne: "?i \<noteq> - 1"
    by (auto simp: rfind_char_def Let_def)
  with find_char_range [of c "rev s"] have r: "0 \<le> ?i" "?i < int (length s)" by auto
  from ne have "rev s ! nat ?i = c" by (rule find_char_nth)
  moreover from r have "rev s ! nat ?i = s ! (length s - Suc (nat ?i))"
    by (simp add: rev_nth)
  moreover from r ne have "nat (rfind_char c s) = length s - Suc (nat ?i)"
    by (simp add: rfind_char_def Let_def)
  ultimately show ?thesis by simp
qed

lemma slice_span:
  "slice (pre @ a # mid @ b # post) (int (length pre)) (int (length pre) + 1 + int (length mid) + 1)
     = a # mid @ [b]"
proof -
  have "nat (int (length pre) + 1 + int (length mid) + 1) = length pre + (length mid + 2)"
    by simp
  then show ?thesis
    by (simp add: slice_def)
qed

lemma span_exists:
  assumes "find_char a s \<noteq> - 1" "rfind_char b s \<noteq> - 1" "find_char a s < rfind_char b s"
  shows "\<exists>pre mid post. s = pre @ a # mid @ b # post"
proof -
  let ?i = "nat (find_char a s)" and ?j = "nat (rfind_char b s)"
  from assms find_char_range [of a s] rfind_char_range [of b s]
  have r: "?i < ?j" "?j < length s" by auto
  have si: "s ! ?i = a" using assms(1) by (rule find_char_nth)
  have sj: "s ! ?j = b" using assms(2) by (rule rfind_char_nth)
  from r have "s = take ?j s @ s ! ?j # drop (Suc ?j) s"
    by (simp add: id_take_nth_drop)
  moreover from r have "take ?j s = take ?i (take ?j s) @ take ?j s ! ?i # drop (Suc ?i) (take ?j s)"
    by (intro id_take_nth_drop) simp
  moreover from r have "take ?j s ! ?i = s ! ?i" by simp
  ultimately have "s = (take ?i (take ?j s) @ a # drop (Suc ?i) (take ?j s)) @ b # drop (Suc ?j) s"
    using si sj by metis
  then show ?thesis by (metis append.assoc append_Cons)
qed

lemma find_char_le: "0 \<le> find_char c (pre @ c # rest) \<and> find_char c (pre @ c # rest) \<le> int (length pre)"
  by (induction pre) (auto simp: Let_def)

lemma rfind_char_ge:
  "rfind_char c (pre @ c # rest) \<noteq> - 1 \<and> int (length pre) \<le> rfind_char c (pre @ c # rest)"
  using find_char_le [of c "rev rest" "rev pre"]
  by (auto simp: rfind_char_def Let_def)

lemma span_first_last:
  assumes "s = pre @ a # mid @ b # post"
  shows "find_char a s \<noteq> - 1 \<and> rfind_char b s \<noteq> - 1 \<and> find_char a s < rfind_char b s"
proof -
  have "0 \<le> find_char a s \<and> find_char a s \<le> int (length pre)"
    unfolding assms by (rule find_char_le)
  moreover have "rfind_char b ((pre @ a # mid) @ b # post) \<noteq> - 1
      \<and> int (length (pre @ a # mid)) \<le> rfind_char b ((pre @ a # mid) @ b # post)"
    by (rule rfind_char_ge)
  then have "rfind_char b s \<noteq> - 1 \<and> int (length pre) + 1 \<le> rfind_char b s"
    unfolding assms by simp
  ultimately show ?thesis by linarith
qed

section \<open>Facts about rounding\<close>

lemma round_even_div_ge:
  assumes "0 < q" "L * q \<le> p"
  shows "L \<le> round_even_div p q"
proof -
  have "L \<le> p div q"
  proof (rule ccontr)
    assume "\<not> L \<le> p div q"
    then have "p div q + 1 \<le> L" by simp
    with assms(1) have "(p div q + 1) * q \<le> L * q"
      by (simp only: mult_right_mono order_less_imp_le)
    moreover have "(p div q + 1) * q = (p div q) * q + q" by (simp add: algebra_simps)
    moreover have "p mod q < q" using assms(1) by simp
    moreover have "(p div q) * q + p mod q = p" by simp
    ultimately show False using assms(2) by linarith
  qed
  moreover have "p div q \<le> round_even_div p q"
    by (simp add: round_even_div_def Let_def)
  ultimately show ?thesis by linarith
qed

lemma round_even_div_le:
  assumes "0 < q" "p \<le> U * q"
  shows "round_even_div p q \<le> U"
proof (cases "p mod q = 0")
  case True
  then have "p = (p div q) * q" by auto
  with assms have "p div q \<le> U"
    by (metis mult_le_cancel_right)
  with True assms(1) show ?thesis
    by (simp add: round_even_div_def Let_def)
next
  case False
  with assms(1) have "0 < p mod q" 
    by (simp add: order_less_le)
  moreover have "p = (p div q) * q + p mod q" by simp
  ultimately have "(p div q) * q < U * q" using assms(2) by linarith
  with assms(1) have "p div q < U"
    by (simp add: mult_less_cancel_right)
  then show ?thesis
    by (simp add: round_even_div_def Let_def)
qed

lemma scale2_pos: "0 < p \<Longrightarrow> 0 < q \<Longrightarrow> 0 < fst (scale2 p q e) \<and> 0 < snd (scale2 p q e)"
  by (simp add: scale2_def)

lemma scale2_ratio:
  assumes "0 < p" "0 < q"
  shows "real_of_int (fst (scale2 p q e)) / real_of_int (snd (scale2 p q e)) =
         (real_of_int p / real_of_int q) * 2 powi (- e)"
proof (cases "0 \<le> e")
  case True
  then have "(2::real) powi (- e) = 1 / 2 ^ nat e"
    by (simp add: power_int_def power_divide)
  then have "(real_of_int p / real_of_int q) * 2 powi (- e) =
             real_of_int p / (real_of_int q * 2 ^ nat e)"
    by simp
  with True show ?thesis
    by (simp add: scale2_def)
next
  case False
  then have "(2::real) powi (- e) = 2 ^ nat (- e)"
    by (simp add: power_int_def)
  with False show ?thesis
    by (simp add: scale2_def field_simps)
qed

lemma bitlen_powi:
  assumes "0 < p"
  shows "2 powi (bitlen p - 1) \<le> real_of_int p \<and> real_of_int p < 2 powi (bitlen p)"
proof -
  from assms have b: "2 ^ nat (bitlen p - 1) \<le> p \<and> p < 2 ^ nat (bitlen p)"
    by (rule bitlen_bounds)
  from b assms have pos: "0 < bitlen p"
    by (cases "0 < bitlen p") auto
  then have "(2::real) powi (bitlen p - 1) = 2 ^ nat (bitlen p - 1)" "(2::real) powi (bitlen p) = 2 ^ nat (bitlen p)"
    by (simp_all add: power_int_def)
  moreover from b have "real_of_int (2 ^ nat (bitlen p - 1)) \<le> real_of_int p" "real_of_int p < real_of_int (2 ^ nat (bitlen p))"
    by linarith+
  ultimately show ?thesis by simp
qed

lemma powi2_add: "(2::real) powi (a + b) = 2 powi a * 2 powi b"
  by (simp add: power_int_add)

lemma powi2_half: "(2::real) powi (z - 1) = 2 powi z / 2"
  using powi2_add [of z "- 1"] by simp

lemma scale_half: "r * (2::real) powi (- (e + 1)) = r * 2 powi (- e) / 2"
proof -
  have "- (e + 1) = (- e) - 1" by simp
  then have "(2::real) powi (- (e + 1)) = 2 powi (- e) / 2"
    by (simp only: powi2_half)
  then show ?thesis by simp
qed

lemma ratio_bitlen:
  assumes "0 < p" "0 < q"
  shows "2 powi (bitlen p - bitlen q - 1) < real_of_int p / real_of_int q"
    and "real_of_int p / real_of_int q < 2 powi (bitlen p - bitlen q + 1)"
proof -
  have bp: "2 powi (bitlen p - 1) \<le> real_of_int p" "real_of_int p < 2 powi (bitlen p)"
    using bitlen_powi [OF assms(1)] by simp_all
  have bq: "2 powi (bitlen q - 1) \<le> real_of_int q" "real_of_int q < 2 powi (bitlen q)"
    using bitlen_powi [OF assms(2)] by simp_all
  have qpos: "0 < real_of_int q" using assms(2) by simp
  have "(2::real) powi (bitlen p - bitlen q - 1) * 2 powi (bitlen q) = 2 powi (bitlen p - 1)"
    by (simp add: power_int_add [symmetric])
  moreover have "2 powi (bitlen p - bitlen q - 1) * real_of_int q
        < (2::real) powi (bitlen p - bitlen q - 1) * 2 powi (bitlen q)"
    using bq(2) by (simp add: mult_strict_left_mono)
  ultimately have "2 powi (bitlen p - bitlen q - 1) * real_of_int q < real_of_int p"
    using bp(1) by linarith
  with qpos show "2 powi (bitlen p - bitlen q - 1) < real_of_int p / real_of_int q"
    by (simp add: pos_less_divide_eq)
  have "(2::real) powi (bitlen p - bitlen q + 1) * 2 powi (bitlen q - 1) = 2 powi (bitlen p)"
    by (simp add: power_int_add [symmetric])
  moreover have "(2::real) powi (bitlen p - bitlen q + 1) * 2 powi (bitlen q - 1)
        \<le> 2 powi (bitlen p - bitlen q + 1) * real_of_int q"
    using bq(1) by (simp add: mult_left_mono)
  ultimately have "real_of_int p < 2 powi (bitlen p - bitlen q + 1) * real_of_int q"
    using bp(2) by linarith
  with qpos show "real_of_int p / real_of_int q < 2 powi (bitlen p - bitlen q + 1)"
    by (simp add: pos_divide_less_eq)
qed

lemma round53_range:
  assumes "0 < p" "0 < q"
  shows "2 ^ 52 \<le> (real_of_int p / real_of_int q) * 2 powi (- expo (round53 p q))"
    and "(real_of_int p / real_of_int q) * 2 powi (- expo (round53 p q)) < 2 ^ 53"
proof -
  let ?r = "real_of_int p / real_of_int q"
  let ?e0 = "bitlen p - bitlen q - 53"
  let ?a = "fst (scale2 p q ?e0)" and ?b = "snd (scale2 p q ?e0)"
  have pos: "0 < ?a \<and> 0 < ?b" using assms by (rule scale2_pos)
  have ratio: "real_of_int ?a / real_of_int ?b = ?r * 2 powi (- ?e0)"
    using assms by (rule scale2_ratio)
  have test: "?a < 2 ^ 53 * ?b \<longleftrightarrow> ?r * 2 powi (- ?e0) < 2 ^ 53"
  proof -
    have "?a < 2 ^ 53 * ?b \<longleftrightarrow> real_of_int ?a < real_of_int (2 ^ 53 * ?b)"
      by linarith
    also have "\<dots> \<longleftrightarrow> real_of_int ?a / real_of_int ?b < 2 ^ 53"
      using pos by (simp add: pos_divide_less_eq)
    finally show ?thesis by (simp only: ratio)
  qed
  have lo: "2 powi 52 < ?r * 2 powi (- ?e0)"
  proof -
    have "(2::real) powi (bitlen p - bitlen q - 1) * 2 powi (- ?e0) = 2 powi 52"
      by (simp add: power_int_add [symmetric])
    moreover have "2 powi (bitlen p - bitlen q - 1) * 2 powi (- ?e0) < ?r * (2::real) powi (- ?e0)"
      by (rule mult_strict_right_mono [OF ratio_bitlen(1) [OF assms]]) simp
    ultimately show ?thesis by linarith
  qed
  have hi: "?r * 2 powi (- ?e0) < 2 powi 54"
  proof -
    have "(2::real) powi (bitlen p - bitlen q + 1) * 2 powi (- ?e0) = 2 powi 54"
      by (simp add: power_int_add [symmetric])
    moreover have "?r * (2::real) powi (- ?e0) < 2 powi (bitlen p - bitlen q + 1) * 2 powi (- ?e0)"
      by (rule mult_strict_right_mono [OF ratio_bitlen(2) [OF assms]]) simp
    ultimately show ?thesis by linarith
  qed
  define X where "X = ?r * 2 powi (- ?e0)"
  have half: "?r * 2 powi (- (?e0 + 1)) = X / 2"
    unfolding X_def by (rule scale_half)
  have lo': "2 ^ 52 < X" using lo unfolding X_def by simp
  have hi': "X < 2 ^ 54" using hi unfolding X_def by simp
  have test': "?a < 2 ^ 53 * ?b \<longleftrightarrow> X < 2 ^ 53"
    using test unfolding X_def .
  have pw: "(2::real) ^ 53 = 2 * 2 ^ 52" "(2::real) ^ 54 = 2 * 2 ^ 53"
    by simp_all
  show "2 ^ 52 \<le> ?r * 2 powi (- expo (round53 p q))"
  proof (cases "?a < 2 ^ 53 * ?b")
    case True
    then have "expo (round53 p q) = ?e0" by (simp add: round53_def Let_def)
    then have "?r * 2 powi (- expo (round53 p q)) = X" by (simp only: X_def)
    with lo' show ?thesis by linarith
  next
    case False
    then have "expo (round53 p q) = ?e0 + 1" by (simp add: round53_def Let_def)
    then have "?r * 2 powi (- expo (round53 p q)) = X / 2" by (simp only: half)
    moreover from False test' have "2 ^ 53 \<le> X" by linarith
    ultimately show ?thesis using pw by linarith
  qed
  show "?r * 2 powi (- expo (round53 p q)) < 2 ^ 53"
  proof (cases "?a < 2 ^ 53 * ?b")
    case True
    then have "expo (round53 p q) = ?e0" by (simp add: round53_def Let_def)
    then have "?r * 2 powi (- expo (round53 p q)) = X" by (simp only: X_def)
    with True test' show ?thesis by linarith
  next
    case False
    then have "expo (round53 p q) = ?e0 + 1" by (simp add: round53_def Let_def)
    then have "?r * 2 powi (- expo (round53 p q)) = X / 2" by (simp only: half)
    with hi' pw show ?thesis by linarith
  qed
qed

lemma round53_mant:
  "mant (round53 p q) =
   round_even_div (fst (scale2 p q (expo (round53 p q)))) (snd (scale2 p q (expo (round53 p q))))"
  by (simp add: round53_def Let_def)

lemma powi2_pos: "0 < (2::real) powi z"
  by simp

lemma powi2_mono: "a \<le> b \<Longrightarrow> (2::real) powi a \<le> 2 powi b"
  by (rule power_int_increasing) simp_all

lemma powi2_nat: "0 \<le> z \<Longrightarrow> (2::real) powi z = real_of_int (2 ^ nat z)"
  by (simp add: power_int_def)

lemma powi2_cancel: "(2::real) powi a * 2 powi (- a) = 1"
  using powi2_add [of a "- a"] by simp

text \<open>The mantissa and the scaled fraction of a rounded quotient.\<close>

lemma round53_frac:
  assumes "0 < p" "0 < q"
  defines "e \<equiv> expo (round53 p q)"
  defines "a \<equiv> fst (scale2 p q e)" and "b \<equiv> snd (scale2 p q e)"
  shows "0 < b" and "mant (round53 p q) = round_even_div a b"
    and "real_of_int a / real_of_int b = (real_of_int p / real_of_int q) * 2 powi (- e)"
    and "2 ^ 52 * b \<le> a" and "a < 2 ^ 53 * b"
proof -
  show b: "0 < b" using scale2_pos [OF assms(1,2)] by (simp add: b_def)
  show "mant (round53 p q) = round_even_div a b"
    unfolding a_def b_def e_def by (rule round53_mant)
  show r: "real_of_int a / real_of_int b = (real_of_int p / real_of_int q) * 2 powi (- e)"
    unfolding a_def b_def by (rule scale2_ratio [OF assms(1,2)])
  from round53_range(1) [OF assms(1,2)] r have "2 ^ 52 \<le> real_of_int a / real_of_int b"
    by (simp add: e_def)
  with b have "2 ^ 52 * real_of_int b \<le> real_of_int a"
    by (simp add: pos_le_divide_eq)
  then have "real_of_int (2 ^ 52 * b) \<le> real_of_int a" by simp
  then show "2 ^ 52 * b \<le> a" by (simp only: of_int_le_iff)
  from round53_range(2) [OF assms(1,2)] r have "real_of_int a / real_of_int b < 2 ^ 53"
    by (simp add: e_def)
  with b have "real_of_int a < 2 ^ 53 * real_of_int b"
    by (simp add: pos_divide_less_eq)
  then have "real_of_int a < real_of_int (2 ^ 53 * b)" by simp
  then show "a < 2 ^ 53 * b" by (simp only: of_int_less_iff)
qed

lemma round53_mant_range:
  assumes "0 < p" "0 < q"
  shows "2 ^ 52 \<le> mant (round53 p q)" and "mant (round53 p q) \<le> 2 ^ 53"
proof -
  note f = round53_frac [OF assms]
  show "2 ^ 52 \<le> mant (round53 p q)"
    unfolding f(2) using f(1) f(4) by (rule round_even_div_ge)
  from f(5) have "fst (scale2 p q (expo (round53 p q))) \<le> 2 ^ 53 * snd (scale2 p q (expo (round53 p q)))"
    by simp
  with f(1) show "mant (round53 p q) \<le> 2 ^ 53"
    unfolding f(2) by (rule round_even_div_le)
qed

lemma dval_round53:
  "dval (round53 p q) = real_of_int (mant (round53 p q)) * 2 powi (expo (round53 p q))"
  by (simp add: dval_def)

lemma round53_lower:
  assumes "0 < p" "0 < q" "A \<le> 2 ^ 53"
    and le: "real_of_int A * 2 powi c \<le> real_of_int p / real_of_int q"
  shows "real_of_int A * 2 powi c \<le> dval (round53 p q)"
proof -
  define e where "e = expo (round53 p q)"
  define a where "a = fst (scale2 p q e)"
  define b where "b = snd (scale2 p q e)"
  define m where "m = mant (round53 p q)"
  note f = round53_frac [OF assms(1,2), folded e_def, folded a_def b_def m_def]
  have m52: "2 ^ 52 \<le> m" unfolding m_def by (rule round53_mant_range(1) [OF assms(1,2)])
  have dv: "dval (round53 p q) = real_of_int m * 2 powi e"
    by (simp add: dval_def m_def e_def)
  show ?thesis
  proof (cases "e \<le> c")
    case True
    define L where "L = A * 2 ^ nat (c - e)"
    have L: "real_of_int L = real_of_int A * 2 powi (c - e)"
      using True by (simp add: L_def powi2_nat)
    have "real_of_int A * 2 powi c * 2 powi (- e) \<le> (real_of_int p / real_of_int q) * 2 powi (- e)"
      by (rule mult_right_mono [OF le]) simp
    moreover have "real_of_int A * 2 powi c * 2 powi (- e) = real_of_int L"
      unfolding L using powi2_add [of c "- e"] by simp
    ultimately have "real_of_int L \<le> real_of_int a / real_of_int b"
      using f(3) by simp
    with f(1) have "real_of_int L * real_of_int b \<le> real_of_int a"
      by (simp add: pos_le_divide_eq)
    then have "real_of_int (L * b) \<le> real_of_int a" by simp
    then have "L * b \<le> a" by (simp only: of_int_le_iff)
    with f(1) have "L \<le> m" unfolding f(2) by (rule round_even_div_ge)
    then have "real_of_int L * 2 powi e \<le> real_of_int m * 2 powi e"
      by (simp add: mult_right_mono)
    moreover have "real_of_int L * 2 powi e = real_of_int A * 2 powi c"
      unfolding L using powi2_add [of "c - e" e] by simp
    ultimately show ?thesis unfolding dv by simp
  next
    case False
    then have "c \<le> e - 1" by simp
    then have "(2::real) powi c \<le> 2 powi (e - 1)" by (rule powi2_mono)
    then have c1: "(2::real) powi c \<le> 2 powi e / 2" by (simp only: powi2_half)
    have "real_of_int A \<le> 2 ^ 53" using assms(3) by (metis of_int_le_iff of_int_numeral of_int_power)
    then have "real_of_int A * 2 powi c \<le> 2 ^ 53 * 2 powi c"
      by (simp add: mult_right_mono)
    also have "\<dots> \<le> 2 ^ 53 * (2 powi e / 2)"
      using c1 by (simp add: mult_left_mono)
    also have "\<dots> = 2 ^ 52 * 2 powi e" by simp
    also have "\<dots> \<le> real_of_int m * 2 powi e"
    proof -
      from m52 have "real_of_int (2 ^ 52) \<le> real_of_int m" by (simp only: of_int_le_iff)
      then show ?thesis by (simp add: mult_right_mono)
    qed
    finally show ?thesis unfolding dv .
  qed
qed

lemma round53_upper:
  assumes "0 < p" "0 < q" "A \<le> 2 ^ 53"
    and le: "real_of_int p / real_of_int q \<le> real_of_int A * 2 powi c"
  shows "dval (round53 p q) \<le> real_of_int A * 2 powi c"
proof -
  define e where "e = expo (round53 p q)"
  define a where "a = fst (scale2 p q e)"
  define b where "b = snd (scale2 p q e)"
  define m where "m = mant (round53 p q)"
  note f = round53_frac [OF assms(1,2), folded e_def, folded a_def b_def m_def]
  have dv: "dval (round53 p q) = real_of_int m * 2 powi e"
    by (simp add: dval_def m_def e_def)
  have bk: "(real_of_int a / real_of_int b) * 2 powi e = real_of_int p / real_of_int q"
    unfolding f(3) using powi2_cancel [of e] by (simp add: mult.commute mult.left_commute)
  show ?thesis
  proof (cases "e \<le> c")
    case True
    define U where "U = A * 2 ^ nat (c - e)"
    have U: "real_of_int U = real_of_int A * 2 powi (c - e)"
      using True by (simp add: U_def powi2_nat)
    have "(real_of_int p / real_of_int q) * 2 powi (- e) \<le> real_of_int A * 2 powi c * 2 powi (- e)"
      by (rule mult_right_mono [OF le]) simp
    moreover have "real_of_int A * 2 powi c * 2 powi (- e) = real_of_int U"
      unfolding U using powi2_add [of c "- e"] by simp
    ultimately have "real_of_int a / real_of_int b \<le> real_of_int U"
      using f(3) by simp
    with f(1) have "real_of_int a \<le> real_of_int U * real_of_int b"
      by (simp add: pos_divide_le_eq)
    then have "real_of_int a \<le> real_of_int (U * b)" by simp
    then have "a \<le> U * b" by (simp only: of_int_le_iff)
    with f(1) have "m \<le> U" unfolding f(2) by (rule round_even_div_le)
    then have "real_of_int m * 2 powi e \<le> real_of_int U * 2 powi e"
      by (simp add: mult_right_mono)
    moreover have "real_of_int U * 2 powi e = real_of_int A * 2 powi c"
      unfolding U using powi2_add [of "c - e" e] by simp
    ultimately show ?thesis unfolding dv by simp
  next
    case False
    then have "c \<le> e - 1" by simp
    then have "(2::real) powi c \<le> 2 powi (e - 1)" by (rule powi2_mono)
    then have c1: "(2::real) powi c \<le> 2 powi e / 2" by (simp only: powi2_half)
    have "real_of_int A \<le> 2 ^ 53" using assms(3) by (metis of_int_le_iff of_int_numeral of_int_power)
    then have "real_of_int A * 2 powi c \<le> 2 ^ 53 * 2 powi c"
      by (simp add: mult_right_mono)
    also have "\<dots> \<le> 2 ^ 53 * (2 powi e / 2)"
      using c1 by (simp add: mult_left_mono)
    also have "\<dots> = 2 ^ 52 * 2 powi e" by simp
    finally have up: "real_of_int A * 2 powi c \<le> 2 ^ 52 * 2 powi e" .
    from f(4) have "real_of_int (2 ^ 52 * b) \<le> real_of_int a" by (simp only: of_int_le_iff)
    with f(1) have "2 ^ 52 \<le> real_of_int a / real_of_int b"
      by (simp add: pos_le_divide_eq)
    then have "2 ^ 52 * 2 powi e \<le> (real_of_int a / real_of_int b) * 2 powi e"
      by (rule mult_right_mono) simp
    with bk le up have eq: "(real_of_int a / real_of_int b) * 2 powi e = 2 ^ 52 * 2 powi e"
      by linarith
    moreover have "(2::real) powi e \<noteq> 0" by simp
    ultimately have "real_of_int a / real_of_int b = 2 ^ 52"
      by (metis mult_right_cancel)
    with f(1) have "real_of_int a = real_of_int (2 ^ 52 * b)"
      by (simp add: field_simps)
    then have ab: "a = 2 ^ 52 * b" by (simp only: of_int_eq_iff)
    have "m \<le> 2 ^ 52" unfolding f(2) using f(1) by (rule round_even_div_le) (simp add: ab)
    then have "real_of_int m \<le> real_of_int (2 ^ 52)" by (simp only: of_int_le_iff)
    then have "real_of_int m * 2 powi e \<le> 2 ^ 52 * 2 powi e"
      by (simp add: mult_right_mono)
    with eq bk le show ?thesis unfolding dv by linarith
  qed
qed

lemma isqrt_bits_correct:
  "0 \<le> r \<Longrightarrow> r * r \<le> a \<Longrightarrow> a < (r + 2 ^ Suc k) * (r + 2 ^ Suc k) \<Longrightarrow>
   0 \<le> isqrt_bits a k r \<and> isqrt_bits a k r * isqrt_bits a k r \<le> a
   \<and> a < (isqrt_bits a k r + 1) * (isqrt_bits a k r + 1)"
proof (induction k arbitrary: r)
  case 0
  then show ?case by (auto simp: algebra_simps)
next
  case (Suc k)
  show ?case
  proof (cases "(r + 2 ^ Suc k) * (r + 2 ^ Suc k) \<le> a")
    case True
    have "r + 2 ^ Suc k + 2 ^ Suc k = r + 2 ^ Suc (Suc k)" by simp
    with Suc.prems have "a < (r + 2 ^ Suc k + 2 ^ Suc k) * (r + 2 ^ Suc k + 2 ^ Suc k)"
      by (simp only:)
    moreover from Suc.prems have "0 \<le> r + 2 ^ Suc k" by simp
    ultimately show ?thesis
      using True Suc.IH [of "r + 2 ^ Suc k"] by simp
  next
    case False
    then have "a < (r + 2 ^ Suc k) * (r + 2 ^ Suc k)" by simp
    with False Suc.prems show ?thesis
      using Suc.IH [of r] by simp
  qed
qed

lemma isqrt_correct:
  assumes "0 < a"
  shows "0 \<le> isqrt a" and "isqrt a * isqrt a \<le> a" and "a < (isqrt a + 1) * (isqrt a + 1)"
proof -
  define k where "k = nat (bitlen a div 2)"
  have b: "a < 2 ^ nat (bitlen a)" using bitlen_bounds [OF assms] by simp
  have "0 \<le> bitlen a" by (rule bitlen_nonneg)
  then have "nat (bitlen a) \<le> 2 * Suc k" unfolding k_def by (simp add: nat_le_iff)
  then have "(2::int) ^ nat (bitlen a) \<le> 2 ^ (2 * Suc k)"
    by (rule power_increasing) simp
  also have "\<dots> = (0 + 2 ^ Suc k) * (0 + 2 ^ Suc k)"
    by (simp add: power2_eq_square [symmetric] power_mult [symmetric] mult.commute)
  finally have "a < (0 + 2 ^ Suc k) * (0 + 2 ^ Suc k)" using b by linarith
  with assms have "0 \<le> isqrt_bits a k 0 \<and> isqrt_bits a k 0 * isqrt_bits a k 0 \<le> a
     \<and> a < (isqrt_bits a k 0 + 1) * (isqrt_bits a k 0 + 1)"
    by (intro isqrt_bits_correct) simp_all
  then show "0 \<le> isqrt a" and "isqrt a * isqrt a \<le> a" and "a < (isqrt a + 1) * (isqrt a + 1)"
    by (simp_all add: isqrt_def k_def)
qed

lemma isqrt_ge:
  assumes "0 < a" "0 \<le> L" "L * L \<le> a"
  shows "L \<le> isqrt a"
proof (rule ccontr)
  assume "\<not> L \<le> isqrt a"
  then have "isqrt a + 1 \<le> L" by simp
  moreover have "0 \<le> isqrt a + 1" using isqrt_correct(1) [OF assms(1)] by simp
  ultimately have "(isqrt a + 1) * (isqrt a + 1) \<le> L * L"
    by (simp add: mult_mono)
  with isqrt_correct(3) [OF assms(1)] assms(3) show False by linarith
qed

lemma isqrt_le:
  assumes "0 < a" "0 \<le> U" "a \<le> U * U"
  shows "isqrt a \<le> U"
proof (rule ccontr)
  assume "\<not> isqrt a \<le> U"
  then have "U + 1 \<le> isqrt a" by simp
  with assms(2) have "(U + 1) * (U + 1) \<le> isqrt a * isqrt a"
    by (simp add: mult_mono)
  moreover have "U * U < (U + 1) * (U + 1)" using assms(2) by (simp add: algebra_simps)
  ultimately show False using isqrt_correct(2) [OF assms(1)] assms(3) by linarith
qed

lemma math_floor_dval:
  assumes "0 \<le> mant x"
  shows "math_floor x = \<lfloor>dval x\<rfloor>"
proof (cases "0 \<le> expo x")
  case True
  then have "dval x = real_of_int (mant x * 2 ^ nat (expo x))"
    by (simp add: dval_def powi2_nat)
  then have "\<lfloor>dval x\<rfloor> = mant x * 2 ^ nat (expo x)"
    by (simp only: floor_of_int)
  with True show ?thesis by (simp add: math_floor_def)
next
  case False
  then have "(2::real) powi (expo x) = 1 / real_of_int (2 ^ nat (- expo x))"
    by (simp add: power_int_def power_divide)
  then have "dval x = real_of_int (mant x) / real_of_int (2 ^ nat (- expo x))"
    by (simp add: dval_def)
  then have "\<lfloor>dval x\<rfloor> = mant x div 2 ^ nat (- expo x)"
    by (simp only: floor_divide_of_int_eq)
  with False show ?thesis by (simp add: math_floor_def)
qed

text \<open>The parts of \<open>math_sqrt\<close>: the even exponent, the scaled mantissa and its root.\<close>

lemma math_sqrt_parts:
  fixes x :: double
  defines "m' \<equiv> (if even (expo x) then mant x else 2 * mant x)"
  defines "h \<equiv> (if even (expo x) then expo x else expo x - 1) div 2"
  defines "a \<equiv> m' * 4 ^ 53"
  defines "r \<equiv> isqrt a"
  defines "d \<equiv> round53 (2 * r + (if r * r = a then 0 else 1)) 2"
  shows "math_sqrt x = \<lparr>mant = mant d, expo = expo d + h - 53\<rparr>"
    and "dval x = real_of_int m' * 2 powi (2 * h)"
    and "real_of_int a = dval x * 2 powi (2 * (53 - h))"
proof -
  show "math_sqrt x = \<lparr>mant = mant d, expo = expo d + h - 53\<rparr>"
    by (simp add: math_sqrt_def Let_def d_def r_def a_def m'_def h_def)
  show dx: "dval x = real_of_int m' * 2 powi (2 * h)"
  proof (cases "even (expo x)")
    case True
    then have "2 * h = expo x" by (auto simp: h_def)
    with True show ?thesis by (simp add: dval_def m'_def)
  next
    case False
    then have "2 * h = expo x - 1" by (auto simp: h_def)
    then have "(2::real) powi (2 * h) = 2 powi (expo x) / 2" by (simp only: powi2_half)
    with False show ?thesis by (simp add: dval_def m'_def)
  qed
  have "(2::real) powi (2 * h) * 2 powi (2 * (53 - h)) = 2 powi 106"
    using powi2_add [of "2 * h" "2 * (53 - h)"] by simp
  also have "\<dots> = 4 ^ 53" by simp
  finally have "real_of_int m' * (2 powi (2 * h) * 2 powi (2 * (53 - h))) = real_of_int m' * 4 ^ 53"
    by simp
  then show "real_of_int a = dval x * 2 powi (2 * (53 - h))"
    unfolding dx a_def by (simp add: mult.assoc)
qed

lemma sq_powi: "(y * 2 powi D) * (y * 2 powi D) = (y * y) * (2::real) powi (2 * D)"
proof -
  have "(2::real) powi (2 * D) = 2 powi D * 2 powi D"
    using powi2_add [of D D] by simp
  then show ?thesis by (simp add: algebra_simps)
qed

lemma of_int_sq_le: "real_of_int L * real_of_int L \<le> real_of_int a \<Longrightarrow> L * L \<le> a"
proof -
  assume "real_of_int L * real_of_int L \<le> real_of_int a"
  then have "real_of_int (L * L) \<le> real_of_int a" by simp
  then show ?thesis by (simp only: of_int_le_iff)
qed

lemma of_int_le_sq: "real_of_int a \<le> real_of_int U * real_of_int U \<Longrightarrow> a \<le> U * U"
proof -
  assume "real_of_int a \<le> real_of_int U * real_of_int U"
  then have "real_of_int a \<le> real_of_int (U * U)" by simp
  then show ?thesis by (simp only: of_int_le_iff)
qed

text \<open>
  Just below an integer \<open>n + 1\<close> of at most 23 bits: the square of \<open>n + 1 - 2 ^ - 30\<close> is
  at least \<open>(n + 1) ^ 2 - 1 / 64\<close>.
\<close>

lemma below_square:
  fixes y :: real
  assumes "0 \<le> y" "y \<le> 2 ^ 23"
  shows "y * y - 1 / 64 \<le> (y - 1 / 2 ^ 30) * (y - 1 / 2 ^ 30)"
proof -
  have "(y - 1 / 2 ^ 30) * (y - 1 / 2 ^ 30) = y * y - 2 * y / 2 ^ 30 + (1 / 2 ^ 30) * (1 / 2 ^ 30)"
    by (simp add: algebra_simps)
  moreover have "2 * y / 2 ^ 30 \<le> 1 / 64" using assms(2) by simp
  moreover have "0 \<le> (1 / 2 ^ 30) * (1 / 2 ^ 30 :: real)" by simp
  ultimately show ?thesis by linarith
qed

lemma math_sqrt_floor:
  assumes M: "0 < mant x" and E: "expo x \<le> 0"
    and n: "0 \<le> n" "n + 1 \<le> 2 ^ 23"
    and lo: "real_of_int n * real_of_int n \<le> dval x"
    and hi: "dval x \<le> (real_of_int n + 1) * (real_of_int n + 1) - 1 / 64"
  shows "math_floor (math_sqrt x) = n"
proof -
  define m' where "m' = (if even (expo x) then mant x else 2 * mant x)"
  define h where "h = (if even (expo x) then expo x else expo x - 1) div 2"
  define a where "a = m' * 4 ^ 53"
  define r where "r = isqrt a"
  define s :: int where "s = (if r * r = a then 0 else 1)"
  define d where "d = round53 (2 * r + s) 2"
  define D where "D = 53 - h"
  note parts = math_sqrt_parts [of x, folded m'_def h_def, folded a_def, folded r_def,
      folded s_def, folded d_def, folded D_def]
  have h0: "h \<le> 0" using E by (auto simp: h_def)
  then have D53: "53 \<le> D" by (simp add: D_def)
  have apos: "0 < a" using M by (simp add: a_def m'_def)
  have ra: "real_of_int a = dval x * 2 powi (2 * D)" by (rule parts(3))
  have p2D: "0 \<le> (2::real) powi (2 * D)" by simp
  \<comment> \<open>the lower bound\<close>
  define L where "L = n * 2 ^ nat D"
  have Lr: "real_of_int L = real_of_int n * 2 powi D"
    using D53 by (simp add: L_def powi2_nat)
  have "real_of_int L * real_of_int L = (real_of_int n * real_of_int n) * 2 powi (2 * D)"
    unfolding Lr by (rule sq_powi)
  also have "\<dots> \<le> dval x * 2 powi (2 * D)"
    by (rule mult_right_mono [OF lo p2D])
  finally have "L * L \<le> a" unfolding ra [symmetric] by (rule of_int_sq_le)
  moreover have "0 \<le> L" using n(1) by (simp add: L_def)
  ultimately have Lr_le: "L \<le> r" unfolding r_def using apos by (intro isqrt_ge)
  \<comment> \<open>the upper bound\<close>
  define A where "A = (n + 1) * 2 ^ 30 - 1"
  define U where "U = A * 2 ^ nat (D - 30)"
  define u where "u = real_of_int n + 1 - 1 / 2 ^ 30"
  have Au: "real_of_int A = u * 2 ^ 30"
    by (simp add: A_def u_def algebra_simps)
  have "(2::real) powi (D - 30) = real_of_int (2 ^ nat (D - 30))"
    using D53 by (intro powi2_nat) simp
  then have UA: "real_of_int U = real_of_int A * 2 powi (D - 30)"
    by (simp add: U_def)
  have "(2::real) ^ 30 * 2 powi (D - 30) = 2 powi D"
    using powi2_add [of 30 "D - 30"] by simp
  then have Ur: "real_of_int U = u * 2 powi D"
    unfolding UA Au by (simp add: mult.assoc)
  have n1: "0 \<le> real_of_int n + 1" "real_of_int n + 1 \<le> 2 ^ 23"
  proof -
    show "0 \<le> real_of_int n + 1" using n(1) by simp
    from n(2) have "real_of_int (n + 1) \<le> real_of_int (2 ^ 23)" by (simp only: of_int_le_iff)
    then show "real_of_int n + 1 \<le> 2 ^ 23" by simp
  qed
  have "dval x \<le> u * u"
    using hi below_square [OF n1] unfolding u_def by linarith
  then have "dval x * 2 powi (2 * D) \<le> (u * u) * 2 powi (2 * D)"
    by (rule mult_right_mono) simp
  also have "\<dots> = real_of_int U * real_of_int U"
    unfolding Ur by (rule sq_powi [symmetric])
  finally have aU: "a \<le> U * U" unfolding ra [symmetric] by (rule of_int_le_sq)
  have Apos: "0 \<le> A" using n(1) by (simp add: A_def)
  then have Upos: "0 \<le> U" by (simp add: U_def)
  have rU: "r \<le> U" unfolding r_def using apos Upos aU by (rule isqrt_le)
  have rr: "r * r \<le> a" unfolding r_def by (rule isqrt_correct(2) [OF apos])
  have r1: "1 \<le> r" unfolding r_def using apos by (intro isqrt_ge) simp_all
  have A53: "A \<le> 2 ^ 53"
  proof -
    have "(n + 1) * 2 ^ 30 \<le> 2 ^ 23 * (2 ^ 30 :: int)"
      using n(2) by (simp only: mult_right_mono zero_le_numeral zero_le_power)
    then show ?thesis by (simp add: A_def)
  qed
  \<comment> \<open>the rounded root\<close>
  have ppos: "0 < 2 * r + s" using r1 by (simp add: s_def)
  have half_lo: "real_of_int r \<le> real_of_int (2 * r + s) / real_of_int 2"
    by (simp add: s_def)
  have half_hi: "real_of_int (2 * r + s) / real_of_int 2 \<le> real_of_int U"
  proof (cases "r * r = a")
    case True
    then have "s = 0" by (simp add: s_def)
    with rU show ?thesis by simp
  next
    case False
    then have s1: "s = 1" by (simp add: s_def)
    have "r \<noteq> U"
    proof
      assume "r = U"
      with aU rr have "r * r = a" by simp
      with False show False by simp
    qed
    with rU have "r + 1 \<le> U" by simp
    then have "real_of_int (r + 1) \<le> real_of_int U" by (simp only: of_int_le_iff)
    with s1 show ?thesis by simp
  qed
  have "real_of_int n * 2 powi D \<le> real_of_int (2 * r + s) / real_of_int 2"
  proof -
    from Lr_le have "real_of_int L \<le> real_of_int r" by (simp only: of_int_le_iff)
    with half_lo show ?thesis unfolding Lr by linarith
  qed
  moreover have "n \<le> 2 ^ 53"
  proof -
    have "(2::int) ^ 23 \<le> 2 ^ 53" by simp
    with n(2) show ?thesis by linarith
  qed
  ultimately have dlo: "real_of_int n * 2 powi D \<le> dval d"
    unfolding d_def using ppos by (intro round53_lower) simp_all
  have dhi: "dval d \<le> real_of_int A * 2 powi (D - 30)"
    unfolding d_def using ppos A53 half_hi [unfolded UA] by (intro round53_upper) simp_all
  \<comment> \<open>back to the exponent of the argument\<close>
  have "expo d + h - 53 = expo d + (- D)" by (simp add: D_def)
  then have "2 powi (expo d + h - 53) = (2::real) powi (expo d) * 2 powi (- D)"
    by (simp only: powi2_add)
  then have dy: "dval (math_sqrt x) = dval d * 2 powi (- D)"
    unfolding parts(1) by (simp add: dval_def)
  have c: "(2::real) powi D * 2 powi (- D) = 1" by (rule powi2_cancel)
  have "real_of_int n = (real_of_int n * 2 powi D) * 2 powi (- D)"
    using c by (simp add: mult.assoc)
  also have "\<dots> \<le> dval d * 2 powi (- D)"
    by (rule mult_right_mono [OF dlo]) simp
  finally have ylo: "real_of_int n \<le> dval (math_sqrt x)" unfolding dy .
  have "dval d * 2 powi (- D) \<le> (real_of_int A * 2 powi (D - 30)) * 2 powi (- D)"
    by (rule mult_right_mono [OF dhi]) simp
  also have "\<dots> = (u * 2 powi D) * 2 powi (- D)"
    using UA Ur by simp
  also have "\<dots> = u" using c by (simp add: mult.assoc)
  finally have yhi: "dval (math_sqrt x) < real_of_int n + 1"
    unfolding dy u_def by simp
  have "0 < (2::int) ^ 52" by simp
  then have "0 \<le> mant d"
    unfolding d_def using round53_mant_range(1) [of "2 * r + s" 2] ppos by linarith
  then have "0 \<le> mant (math_sqrt x)" unfolding parts(1) by simp
  then have "math_floor (math_sqrt x) = \<lfloor>dval (math_sqrt x)\<rfloor>"
    by (rule math_floor_dval)
  also have "\<dots> = n" using ylo yhi by (simp add: floor_eq_iff)
  finally show ?thesis .
qed

lemma int_truediv_no_overflow:
  assumes "0 < a" "a < 50 * 2 ^ 1023"
  shows "int_truediv a 50 = Inr (round53 a 50)"
proof -
  have "real_of_int a < real_of_int (50 * 2 ^ 1023)" using assms(2) by (simp only: of_int_less_iff)
  then have "real_of_int a / real_of_int 50 \<le> real_of_int (2 ^ 52) * 2 powi 971"
    by simp
  with assms(1) have up: "dval (round53 a 50) \<le> real_of_int (2 ^ 52) * 2 powi 971"
    by (intro round53_upper) simp_all
  have "\<not> (0 \<le> expo (round53 a 50) \<and> 2 ^ 1024 \<le> mant (round53 a 50) * 2 ^ nat (expo (round53 a 50)))"
  proof
    assume h: "0 \<le> expo (round53 a 50) \<and> 2 ^ 1024 \<le> mant (round53 a 50) * 2 ^ nat (expo (round53 a 50))"
    then have "dval (round53 a 50) = real_of_int (mant (round53 a 50) * 2 ^ nat (expo (round53 a 50)))"
      by (simp add: dval_def powi2_nat)
    moreover from h have "real_of_int (2 ^ 1024) \<le> real_of_int (mant (round53 a 50) * 2 ^ nat (expo (round53 a 50)))"
      by (simp only: of_int_le_iff)
    ultimately have "real_of_int (2 ^ 1024) \<le> dval (round53 a 50)" by simp
    with up show False by simp
  qed
  then show ?thesis by (simp add: int_truediv_def Let_def)
qed

lemma floor_sqrt_bounds:
  fixes x :: real
  assumes "0 \<le> x"
  defines "n \<equiv> \<lfloor>sqrt x\<rfloor>"
  shows "0 \<le> n" and "real_of_int n * real_of_int n \<le> x"
    and "x < (real_of_int n + 1) * (real_of_int n + 1)"
proof -
  have s0: "0 \<le> sqrt x" using assms(1) by simp
  then show n0: "0 \<le> n" by (simp add: n_def)
  have le: "real_of_int n \<le> sqrt x" by (simp add: n_def)
  have lt: "sqrt x < real_of_int n + 1" by (simp add: n_def)
  have sq: "sqrt x * sqrt x = x" using assms(1) by simp
  from n0 have "0 \<le> real_of_int n" by simp
  with le s0 have "real_of_int n * real_of_int n \<le> sqrt x * sqrt x"
    by (intro mult_mono) simp_all
  then show "real_of_int n * real_of_int n \<le> x" by (simp only: sq)
  from lt s0 have "sqrt x * sqrt x < (real_of_int n + 1) * (real_of_int n + 1)"
    by (intro mult_strict_mono') simp_all
  then show "x < (real_of_int n + 1) * (real_of_int n + 1)" by (simp only: sq)
qed

lemma calculate_level_in_range:
  assumes "0 < xp" "xp < 50 * 2 ^ 46"
  shows "calculate_level xp = Inr \<lfloor>sqrt (real_of_int xp / 50)\<rfloor>"
proof -
  define x where "x = real_of_int xp / 50"
  define n where "n = \<lfloor>sqrt x\<rfloor>"
  define q where "q = round53 xp 50"
  have x0: "0 \<le> x" using assms(1) by (simp add: x_def)
  note fs = floor_sqrt_bounds [OF x0, folded n_def]
  have "real_of_int xp < real_of_int (50 * 2 ^ 46)" using assms(2) by (simp only: of_int_less_iff)
  then have x46: "x < 2 ^ 46" by (simp add: x_def)
  \<comment> \<open>the level has at most 23 bits\<close>
  have n23: "n + 1 \<le> 2 ^ 23"
  proof (rule ccontr)
    assume "\<not> n + 1 \<le> 2 ^ 23"
    then have "2 ^ 23 \<le> n" by simp
    then have "real_of_int (2 ^ 23) \<le> real_of_int n" by (simp only: of_int_le_iff)
    then have "(2 ^ 23 :: real) * 2 ^ 23 \<le> real_of_int n * real_of_int n"
      by (intro mult_mono) simp_all
    with fs(2) x46 show False by simp
  qed
  have rn1: "real_of_int n + 1 \<le> 2 ^ 23"
  proof -
    from n23 have "real_of_int (n + 1) \<le> real_of_int (2 ^ 23)" by (simp only: of_int_le_iff)
    then show ?thesis by simp
  qed
  \<comment> \<open>the quotient is an integer multiple of 1 / 50\<close>
  have "real_of_int xp < real_of_int (50 * ((n + 1) * (n + 1)))"
    using fs(3) by (simp add: x_def)
  then have "xp < 50 * ((n + 1) * (n + 1))" by (simp only: of_int_less_iff)
  then have "xp + 1 \<le> 50 * ((n + 1) * (n + 1))" by simp
  then have "real_of_int (xp + 1) \<le> real_of_int (50 * ((n + 1) * (n + 1)))"
    by (simp only: of_int_le_iff)
  then have xhi: "x \<le> (real_of_int n + 1) * (real_of_int n + 1) - 1 / 50"
    by (simp add: x_def)
  \<comment> \<open>rounding the quotient\<close>
  define A where "A = (n + 1) * (n + 1) * 64 - 1"
  have Ar: "real_of_int A * 2 powi (- 6) = (real_of_int n + 1) * (real_of_int n + 1) - 1 / 64"
  proof -
    have "(2::real) powi (- 6) = 1 / 64" by (simp add: power_int_minus_divide)
    then show ?thesis by (simp add: A_def algebra_simps)
  qed
  have nn: "(n + 1) * (n + 1) \<le> 2 ^ 23 * (2 ^ 23 :: int)"
    using n23 fs(1) by (intro mult_mono) simp_all
  then have A53: "A \<le> 2 ^ 53" by (simp add: A_def)
  have n53: "n * n \<le> 2 ^ 53"
  proof -
    have "n * n \<le> (n + 1) * (n + 1)" using fs(1) by (simp add: algebra_simps)
    with nn show ?thesis by simp
  qed
  have qlo: "real_of_int n * real_of_int n \<le> dval q"
  proof -
    have "real_of_int (n * n) * 2 powi 0 \<le> real_of_int xp / real_of_int 50"
      using fs(2) by (simp add: x_def)
    with assms(1) n53 have "real_of_int (n * n) * 2 powi 0 \<le> dval (round53 xp 50)"
      by (intro round53_lower) simp_all
    then show ?thesis by (simp add: q_def)
  qed
  have qhi: "dval q \<le> (real_of_int n + 1) * (real_of_int n + 1) - 1 / 64"
  proof -
    have "real_of_int xp / real_of_int 50 \<le> real_of_int A * 2 powi (- 6)"
      unfolding Ar using xhi by (simp add: x_def)
    with assms(1) A53 have "dval (round53 xp 50) \<le> real_of_int A * 2 powi (- 6)"
      by (intro round53_upper) simp_all
    then show ?thesis unfolding Ar by (simp add: q_def)
  qed
  \<comment> \<open>the exponent of the quotient is negative\<close>
  have m52: "2 ^ 52 \<le> mant q" unfolding q_def using assms(1) by (intro round53_mant_range(1)) simp_all
  then have mpos: "0 < mant q"
  proof -
    have "0 < (2::int) ^ 52" by simp
    with m52 show ?thesis by linarith
  qed
  have eneg: "expo q \<le> 0"
  proof (rule ccontr)
    assume "\<not> expo q \<le> 0"
    then have "0 \<le> expo q" by simp
    then have "(2::real) powi 0 \<le> 2 powi (expo q)" by (rule powi2_mono)
    then have one: "1 \<le> (2::real) powi (expo q)" by simp
    from m52 have "real_of_int (2 ^ 52) \<le> real_of_int (mant q)" by (simp only: of_int_le_iff)
    then have "(2 ^ 52 :: real) \<le> real_of_int (mant q)" by simp
    with one have "(2 ^ 52 :: real) * 1 \<le> real_of_int (mant q) * 2 powi (expo q)"
      by (intro mult_mono) simp_all
    then have "(2 ^ 52 :: real) \<le> dval q" by (simp add: dval_def)
    moreover have "(real_of_int n + 1) * (real_of_int n + 1) \<le> 2 ^ 23 * (2 ^ 23 :: real)"
      using rn1 fs(1) by (intro mult_mono) simp_all
    ultimately show False using qhi by simp
  qed
  have "math_floor (math_sqrt q) = n"
    using mpos eneg fs(1) n23 qlo qhi by (rule math_sqrt_floor)
  moreover have "int_truediv xp 50 = Inr q"
    unfolding q_def using assms by (intro int_truediv_no_overflow) simp_all
  ultimately show ?thesis
    using assms(1) fs(1) by (simp add: calculate_level_def n_def x_def)
qed

lemma floor_sqrt_eq:
  fixes x :: real
  assumes "0 \<le> n" "real_of_int n * real_of_int n \<le> x" "x < (real_of_int n + 1) * (real_of_int n + 1)"
  shows "\<lfloor>sqrt x\<rfloor> = n"
proof -
  have "real_of_int n \<le> sqrt x"
    using assms(2) by (intro real_le_rsqrt) (simp add: power2_eq_square)
  moreover have "sqrt x < real_of_int n + 1"
    using assms(1,3) by (intro real_less_lsqrt) (simp_all add: power2_eq_square)
  ultimately show ?thesis by (simp add: floor_eq_iff)
qed

lemma xp_for_next_level_inverse:
  assumes "0 \<le> L" "L + 1 < 2 ^ 23"
  shows "calculate_level (xp_for_next_level L - 1) = Inr L"
    and "calculate_level (xp_for_next_level L) = Inr (L + 1)"
proof -
  have sq: "(L + 1) * (L + 1) < 2 ^ 23 * (2 ^ 23 :: int)"
    using assms by (intro mult_strict_mono) simp_all
  have x: "xp_for_next_level L = 50 * ((L + 1) * (L + 1))"
    by (simp add: xp_for_next_level_def power2_eq_square)
  have pos: "0 < (L + 1) * (L + 1)" using assms(1) by (intro mult_pos_pos) simp_all
  have r1: "0 < xp_for_next_level L - 1" "xp_for_next_level L - 1 < 50 * 2 ^ 46"
    using sq pos unfolding x by simp_all
  have r2: "0 < xp_for_next_level L" "xp_for_next_level L < 50 * 2 ^ 46"
    using sq pos unfolding x by simp_all
  have "\<lfloor>sqrt (real_of_int (xp_for_next_level L - 1) / 50)\<rfloor> = L"
  proof (rule floor_sqrt_eq [OF assms(1)])
    have e: "real_of_int (xp_for_next_level L - 1) / 50 = (real_of_int L + 1) * (real_of_int L + 1) - 1 / 50"
      unfolding x by simp
    from assms(1) have "0 \<le> real_of_int L" by simp
    then show "real_of_int L * real_of_int L \<le> real_of_int (xp_for_next_level L - 1) / 50"
      unfolding e by (simp add: algebra_simps)
    show "real_of_int (xp_for_next_level L - 1) / 50 < (real_of_int L + 1) * (real_of_int L + 1)"
      unfolding e by simp
  qed
  with calculate_level_in_range [OF r1] show "calculate_level (xp_for_next_level L - 1) = Inr L"
    by simp
  have "\<lfloor>sqrt (real_of_int (xp_for_next_level L) / 50)\<rfloor> = L + 1"
  proof -
    have e: "real_of_int (xp_for_next_level L) / 50 = (real_of_int (L + 1))\<^sup>2"
      unfolding x by (simp add: power2_eq_square)
    have "0 \<le> real_of_int (L + 1)" using assms(1) by simp
    then have "sqrt (real_of_int (xp_for_next_level L) / 50) = real_of_int (L + 1)"
      unfolding e by (simp only: real_sqrt_abs abs_of_nonneg)
    then show ?thesis by (simp only: floor_of_int)
  qed
  with calculate_level_in_range [OF r2] show "calculate_level (xp_for_next_level L) = Inr (L + 1)"
    by simp
qed

lemma migration_level_eq: "migration_level xp = calculate_level xp"
  by (simp add: migration_level_def calculate_level_def)

text \<open>Some values of \<open>calculate_level\<close>, at and around the first level boundaries.\<close>

lemma calculate_level_examples:
  "calculate_level 0 = Inr 0" "calculate_level 49 = Inr 0" "calculate_level 50 = Inr 1"
  "calculate_level 199 = Inr 1" "calculate_level 200 = Inr 2" "calculate_level 449 = Inr 2"
  "calculate_level 450 = Inr 3" "calculate_level 12345 = Inr 15"
  "calculate_level (2 ^ 63 - 1) = Inr 429496729"
  by code_simp+

section \<open>Facts about the tables\<close>

lemma find_map_id:
  assumes "\<And>u. u_id (f u) = u_id u"
  shows "find (\<lambda>u. u_id u = uid') (map (\<lambda>u. if u_id u = uid then f u else u) us) =
         (if uid' = uid then map_option f (find (\<lambda>u. u_id u = uid') us)
          else find (\<lambda>u. u_id u = uid') us)"
  by (induction us) (auto simp: assms)

lemma get_user_update_users:
  assumes "\<And>u. u_id (f u) = u_id u"
  shows "get_user (update_users d uid f) uid' =
         (if uid' = uid then map_option f (get_user d uid') else get_user d uid')"
  using find_map_id [of f uid' uid "users d", OF assms]
  by (simp add: get_user_def update_users_def)

lemma ledger_update_users [simp]:
  "completed_exercises (update_users d uid f) = completed_exercises d"
  by (simp add: update_users_def)

lemma selected_xp_update_users [simp]:
  "selected_xp (update_users d uid f) uid' mt = selected_xp d uid' mt"
  by (simp add: selected_xp_def)

lemma recomputed_level_update_users [simp]:
  "recomputed_level sq (update_users d uid f) uid' mt = recomputed_level sq d uid' mt"
  by (simp add: recomputed_level_def)

lemma u_id_set_level [simp]: "u_id (set_level c v u) = u_id u"
  by (simp add: set_level_def)

lemma u_total_xp_set_level [simp]: "u_total_xp (set_level c v u) = u_total_xp u"
  by (simp add: set_level_def)

section \<open>Facts about the five movement types\<close>

lemma valid_type_cases:
  "t \<in> set valid_types \<Longrightarrow>
     t = lit ''Mobility'' \<or> t = lit ''Activation'' \<or> t = lit ''Stability'' \<or> t = lit ''Power''
     \<or> t = lit ''Balance''"
  by (simp add: valid_types_def)

lemma valid_types_plain: "t \<in> set valid_types \<Longrightarrow> list_all plain_char t \<and> \<not> list_ex surrogate t"
proof -
  have "list_all (\<lambda>t. list_all plain_char t \<and> \<not> list_ex surrogate t) valid_types"
    by code_simp
  then show "t \<in> set valid_types \<Longrightarrow> list_all plain_char t \<and> \<not> list_ex surrogate t"
    by (simp add: list_all_iff)
qed

lemma lower_valid: "t \<in> set valid_types \<Longrightarrow> lower unicode_lower t = map lower_char t"
  using valid_types_plain [of t] by (simp add: lower_def)

lemma map_lower_valid_types:
  "map lower_char (lit ''Mobility'') = lit ''mobility''"
  "map lower_char (lit ''Activation'') = lit ''activation''"
  "map lower_char (lit ''Stability'') = lit ''stability''"
  "map lower_char (lit ''Power'') = lit ''power''"
  "map lower_char (lit ''Balance'') = lit ''balance''"
  by code_simp+

lemma level_fields_distinct:
  "lit ''mobility'' @ lit ''_level'' = lit ''mobility_level''"
  "lit ''activation'' @ lit ''_level'' = lit ''activation_level''"
  "lit ''stability'' @ lit ''_level'' = lit ''stability_level''"
  "lit ''power'' @ lit ''_level'' = lit ''power_level''"
  "lit ''balance'' @ lit ''_level'' = lit ''balance_level''"
  "distinct level_fields"
  by code_simp+

lemma level_field_valid:
  "t \<in> set valid_types \<Longrightarrow> lower unicode_lower t @ lit ''_level'' \<in> set level_fields"
  by (auto dest!: valid_type_cases
           simp: lower_valid valid_types_def map_lower_valid_types level_fields_distinct level_fields_def)


lemma bind_valid: "t \<in> set valid_types \<Longrightarrow> bind sq (JStr t) = Inr (SqlText t)"
  using valid_types_plain [of t] by (simp add: bind_def)



lemma get_level_total_xp [simp]: "get_level c (u\<lparr>u_total_xp := x\<rparr>) = get_level c u"
  by (simp add: get_level_def)

text \<open>\<open>update_movement_level\<close> for one of the five movement types.\<close>

lemma update_movement_level_valid:
  assumes "t \<in> set valid_types"
  shows "update_movement_level sq unicode_lower d uid' (JStr t) x =
     (case recomputed_level sq d uid' t of
        Inl err \<Rightarrow> (d, Some err)
      | Inr lv \<Rightarrow> (update_users d uid' (set_level (lower unicode_lower t @ lit ''_level'') lv), None))"
  using level_field_valid [OF assms, of unicode_lower] bind_valid [OF assms, of sq]
  by (simp add: update_movement_level_def recomputed_level_def store_text_def Let_def
           split: sum.splits)

section \<open>Facts about the ledger and the total XP\<close>

lemma update_movement_level_ledger [simp]:
  "completed_exercises (fst (update_movement_level sq unicode_lower d uid mt x)) = completed_exercises d"
  by (simp add: update_movement_level_def Let_def split: sum.splits json.splits)

lemma add_xp_ledger [simp]:
  "completed_exercises (fst (add_xp sq unicode_lower d uid mt x)) = completed_exercises d"
  by (simp add: add_xp_def split: sum.splits)

lemma complete_exercise_dict:
  "fst (complete_exercise sq unicode_lower d (Some uid') (JDict data)) =
     (case save_completed_exercise sq d uid' (dict_get data (lit ''routine_id'') JNull)
             (dict_get data (lit ''exercise_name'') JNull)
             (dict_get data (lit ''movement_type'') JNull)
             (dict_get data (lit ''xp_earned'') (JInt 10)) of
        Inl err \<Rightarrow> d
      | Inr d1 \<Rightarrow> fst (add_xp sq unicode_lower d1 uid' (dict_get data (lit ''movement_type'') JNull)
                       (dict_get data (lit ''xp_earned'') (JInt 10))))"
  by (simp add: complete_exercise_def Let_def split: sum.splits prod.splits option.splits)

lemma complete_exercise_other:
  "\<not> (\<exists>data. body = JDict data) \<Longrightarrow> fst (complete_exercise sq unicode_lower d session body) = d"
  by (cases body) (simp_all add: complete_exercise_def split: option.splits)

lemma complete_routine_other:
  "\<not> (\<exists>data. body = JDict data) \<Longrightarrow> fst (complete_routine sq d session body) = d"
  by (cases body) (simp_all add: complete_routine_def split: option.splits)

lemma request_rows_other:
  "\<not> (\<exists>data. body = JDict data) \<Longrightarrow> request_rows sq (CompleteExercise session body) = []"
  by (cases body; cases session) simp_all

text \<open>What \<open>save_completed_exercise\<close> writes is the row of the request.\<close>

lemma save_completed_exercise_rows:
  "save_completed_exercise sq d uid' (dict_get data (lit ''routine_id'') JNull)
      (dict_get data (lit ''exercise_name'') JNull)
      (dict_get data (lit ''movement_type'') JNull)
      (dict_get data (lit ''xp_earned'') (JInt 10)) = res \<Longrightarrow>
   (case res of
      Inl err \<Rightarrow> request_rows sq (CompleteExercise (Some uid') (JDict data)) = []
    | Inr d1 \<Rightarrow> d1 = d\<lparr>completed_exercises := completed_exercises d
                       @ request_rows sq (CompleteExercise (Some uid') (JDict data))\<rparr>
               \<and> length (request_rows sq (CompleteExercise (Some uid') (JDict data))) = 1)"
  by (auto simp: save_completed_exercise_def split: sum.splits)

lemma serve_ledger:
  "completed_exercises (serve sq unicode_lower d rq) = completed_exercises d @ request_rows sq rq"
proof (cases rq)
  case (CompleteExercise session body)
  show ?thesis
  proof (cases "\<exists>data. body = JDict data")
    case False
    with CompleteExercise show ?thesis
      by (simp add: complete_exercise_other request_rows_other)
  next
    case True
    then obtain data where b: "body = JDict data" ..
    show ?thesis
    proof (cases session)
      case None
      with CompleteExercise b show ?thesis
        by (simp add: complete_exercise_def)
    next
      case (Some uid')
      show ?thesis
        using save_completed_exercise_rows [of sq d uid' data, OF refl]
        unfolding CompleteExercise b Some serve.simps complete_exercise_dict
        by (auto split: sum.splits)
    qed
  qed
next
  case (CompleteRoutine session body)
  then show ?thesis
    by (cases session; cases body)
       (simp_all add: complete_routine_def Let_def split: sum.splits)
qed

lemma serve_all_ledger:
  "completed_exercises (serve_all sq unicode_lower d rqs) = completed_exercises d @ ledger_rows sq rqs"
proof (induction rqs arbitrary: d)
  case Nil
  then show ?case by (simp add: ledger_rows_def)
next
  case (Cons rq rqs)
  then show ?case
    by (simp add: serve_ledger ledger_rows_def del: serve.simps)
qed

lemma rows_xp_append: "rows_xp uid (xs @ ys) = rows_xp uid xs + rows_xp uid ys"
  by (simp add: rows_xp_def)

lemma serve_all_ledger_xp:
  "ledger_xp (serve_all sq unicode_lower d rqs) uid = ledger_xp d uid + moves_xp sq uid rqs"
  by (simp add: ledger_xp_def moves_xp_def serve_all_ledger rows_xp_append)

lemma moves_xp_Cons:
  "moves_xp sq uid (rq # rqs) = rows_xp uid (request_rows sq rq) + moves_xp sq uid rqs"
  by (simp add: moves_xp_def ledger_rows_def rows_xp_append)

lemma bonuses_xp_Cons:
  "bonuses_xp sq uid (rq # rqs) = request_bonus sq uid rq + bonuses_xp sq uid rqs"
  by (simp add: bonuses_xp_def)

text \<open>A move completion with one of the five movement types and an integer for its XP.\<close>

lemma bind_JInt: "bind sq (JInt n) = (if int64 n then Inr (SqlInt n) else Inl OverflowError)"
  by (simp add: bind_def)

lemma plain_exercise_rows:
  assumes "dict_get data (lit ''movement_type'') JNull = JStr t" "t \<in> set valid_types"
    and "dict_get data (lit ''xp_earned'') (JInt 10) = JInt n"
  shows "request_rows sq (CompleteExercise (Some uid') (JDict data)) = []
       \<or> (int64 n \<and> (\<exists>r nm. request_rows sq (CompleteExercise (Some uid') (JDict data)) =
             [\<lparr>ce_user_id = uid', ce_routine_id = r, ce_exercise_name = nm,
               ce_movement_type = Some t, ce_xp_earned = SqlInt n\<rparr>]))"
  using assms bind_valid [OF assms(2), of sq]
  by (simp add: bind_JInt store_text_def store_integer_def split: sum.splits)

lemma get_user_ledger [simp]:
  "get_user (d\<lparr>completed_exercises := rows\<rparr>) uid = get_user d uid"
  by (simp add: get_user_def)

lemma update_movement_level_total_xp:
  assumes "t \<in> set valid_types"
  shows "map_option u_total_xp (get_user (fst (update_movement_level sq unicode_lower d uid' (JStr t) x)) uid) =
         map_option u_total_xp (get_user d uid)"
  by (auto simp: update_movement_level_valid [OF assms] get_user_update_users option.map_comp comp_def
           split: sum.splits)

lemma plain_exercise_total_xp:
  assumes mt: "dict_get data (lit ''movement_type'') JNull = JStr t" "t \<in> set valid_types"
    and xp: "dict_get data (lit ''xp_earned'') (JInt 10) = JInt n"
    and u: "get_user d uid = Some u" "u_total_xp u = SqlInt c"
    and b: "int64 (c + rows_xp uid (request_rows sq (CompleteExercise (Some uid') (JDict data))))"
  shows "map_option u_total_xp (get_user (fst (complete_exercise sq unicode_lower d (Some uid') (JDict data))) uid)
        = Some (SqlInt (c + rows_xp uid (request_rows sq (CompleteExercise (Some uid') (JDict data)))))"
proof -
  let ?rq = "CompleteExercise (Some uid') (JDict data)"
  let ?res = "save_completed_exercise sq d uid' (dict_get data (lit ''routine_id'') JNull)
      (dict_get data (lit ''exercise_name'') JNull) (JStr t) (JInt n)"
  have fst_eq: "fst (complete_exercise sq unicode_lower d (Some uid') (JDict data)) =
      (case ?res of Inl err \<Rightarrow> d | Inr d1 \<Rightarrow> fst (add_xp sq unicode_lower d1 uid' (JStr t) (JInt n)))"
    by (simp add: complete_exercise_dict mt xp split: sum.splits)
  have rows: "case ?res of
      Inl err \<Rightarrow> request_rows sq ?rq = []
    | Inr d1 \<Rightarrow> d1 = d\<lparr>completed_exercises := completed_exercises d @ request_rows sq ?rq\<rparr>
               \<and> length (request_rows sq ?rq) = 1"
    using save_completed_exercise_rows [of sq d uid' data, OF refl] by (simp add: mt xp)
  show ?thesis
  proof (cases ?res)
    case (Inl err)
    with rows have "request_rows sq ?rq = []" by simp
    with Inl u show ?thesis
      by (simp add: fst_eq rows_xp_def)
  next
    case (Inr d1)
    with rows have d1: "d1 = d\<lparr>completed_exercises := completed_exercises d @ request_rows sq ?rq\<rparr>"
      and len: "length (request_rows sq ?rq) = 1" by simp_all
    from len have "request_rows sq ?rq \<noteq> []" by auto
    with plain_exercise_rows [OF mt xp, of sq uid'] obtain r nm where i: "int64 n"
      and row: "request_rows sq ?rq = [\<lparr>ce_user_id = uid', ce_routine_id = r, ce_exercise_name = nm,
               ce_movement_type = Some t, ce_xp_earned = SqlInt n\<rparr>]"
      by blast
    have x: "rows_xp uid (request_rows sq ?rq) = (if uid' = uid then n else 0)"
      unfolding row by (simp add: rows_xp_def the_int_def)
    let ?d2 = "update_users d1 uid' (\<lambda>u. u\<lparr>u_total_xp := sql_plus sq (u_total_xp u) (SqlInt n)\<rparr>)"
    have "fst (complete_exercise sq unicode_lower d (Some uid') (JDict data)) =
        fst (update_movement_level sq unicode_lower ?d2 uid' (JStr t) (JInt n))"
      by (simp add: fst_eq Inr add_xp_def bind_JInt i)
    then have "map_option u_total_xp (get_user (fst (complete_exercise sq unicode_lower d (Some uid') (JDict data))) uid)
        = map_option u_total_xp (get_user ?d2 uid)"
      by (simp add: update_movement_level_total_xp [OF mt(2)])
    also have "\<dots> = Some (SqlInt (c + (if uid' = uid then n else 0)))"
    proof (cases "uid' = uid")
      case True
      with b x have "int64 (c + n)" by simp
      with True u show ?thesis
        by (simp add: get_user_update_users d1 sql_plus_def)
    next
      case False
      then have "uid \<noteq> uid'" by blast
      with u show ?thesis
        by (simp add: get_user_update_users d1)
    qed
    finally show ?thesis
      by (simp only: x)
  qed
qed

lemma plain_routine_total_xp:
  assumes xp: "dict_get data (lit ''bonus_xp'') (JInt 50) = JInt n"
    and u: "get_user d uid = Some u" "u_total_xp u = SqlInt c"
    and b: "int64 (c + request_bonus sq uid (CompleteRoutine (Some uid') (JDict data)))"
  shows "map_option u_total_xp (get_user (fst (complete_routine sq d (Some uid') (JDict data))) uid)
        = Some (SqlInt (c + request_bonus sq uid (CompleteRoutine (Some uid') (JDict data))))"
proof (cases "int64 n")
  case False
  with u xp show ?thesis
    by (simp add: complete_routine_def bind_JInt)
next
  case True
  show ?thesis
  proof (cases "uid' = uid")
    case False
    then have "uid \<noteq> uid'" by blast
    with True False u xp show ?thesis
      by (simp add: complete_routine_def bind_JInt get_user_update_users)
  next
    case same: True
    with True b xp have "int64 (c + n)"
      by (simp add: bind_JInt the_int_def)
    with True same u xp show ?thesis
      by (simp add: complete_routine_def bind_JInt get_user_update_users sql_plus_def the_int_def)
  qed
qed

lemma serve_total_xp:
  assumes p: "plain_request rq" and pb: "plain_bonus rq"
    and u: "get_user d uid = Some u" "u_total_xp u = SqlInt c"
    and b: "int64 (c + rows_xp uid (request_rows sq rq) + request_bonus sq uid rq)"
  shows "map_option u_total_xp (get_user (serve sq unicode_lower d rq) uid)
        = Some (SqlInt (c + rows_xp uid (request_rows sq rq) + request_bonus sq uid rq))"
proof (cases rq)
  case (CompleteExercise session body)
  show ?thesis
  proof (cases "\<exists>data. body = JDict data")
    case False
    with CompleteExercise u show ?thesis
      by (simp add: complete_exercise_other request_rows_other rows_xp_def)
  next
    case True
    then obtain data where body: "body = JDict data" ..
    show ?thesis
    proof (cases session)
      case None
      with CompleteExercise body u show ?thesis
        by (simp add: complete_exercise_def rows_xp_def)
    next
      case (Some uid')
      from p obtain t n where mt: "dict_get data (lit ''movement_type'') JNull = JStr t" "t \<in> set valid_types"
        and xp: "dict_get data (lit ''xp_earned'') (JInt 10) = JInt n"
        unfolding CompleteExercise body by (auto simp: json_int_def split: json.splits)
      from b have b': "int64 (c + rows_xp uid (request_rows sq (CompleteExercise (Some uid') (JDict data))))"
        unfolding CompleteExercise body Some by simp
      show ?thesis
        using plain_exercise_total_xp [OF mt xp u b', of unicode_lower]
        unfolding CompleteExercise body Some by simp
    qed
  qed
next
  case (CompleteRoutine session body)
  show ?thesis
  proof (cases "\<exists>data. body = JDict data")
    case False
    with CompleteRoutine u show ?thesis
      by (cases body; cases session) (simp_all add: complete_routine_other rows_xp_def)
  next
    case True
    then obtain data where body: "body = JDict data" ..
    show ?thesis
    proof (cases session)
      case None
      with CompleteRoutine body u show ?thesis
        by (simp add: complete_routine_def rows_xp_def)
    next
      case (Some uid')
      from pb obtain n where xp: "dict_get data (lit ''bonus_xp'') (JInt 50) = JInt n"
        unfolding CompleteRoutine body by (auto simp: json_int_def split: json.splits)
      from b have b': "int64 (c + request_bonus sq uid (CompleteRoutine (Some uid') (JDict data)))"
        unfolding CompleteRoutine body Some by (simp add: rows_xp_def)
      show ?thesis
        using plain_routine_total_xp [OF xp u b']
        unfolding CompleteRoutine body Some by (simp add: rows_xp_def)
    qed
  qed
qed

lemma totals_fit_int64: "totals_fit sq uid c rqs \<Longrightarrow> int64 c"
  by (cases rqs) simp_all

lemma serve_all_total_xp:
  assumes "list_all plain_request rqs" "list_all plain_bonus rqs"
    and "get_user d uid = Some u" "u_total_xp u = SqlInt c"
    and "totals_fit sq uid c rqs"
  shows "map_option u_total_xp (get_user (serve_all sq unicode_lower d rqs) uid)
        = Some (SqlInt (c + moves_xp sq uid rqs + bonuses_xp sq uid rqs))"
  using assms
proof (induction rqs arbitrary: d u c)
  case Nil
  then show ?case
    by (simp add: moves_xp_def bonuses_xp_def ledger_rows_def rows_xp_def)
next
  case (Cons rq rqs)
  let ?x = "rows_xp uid (request_rows sq rq)" and ?b = "request_bonus sq uid rq"
  from Cons.prems(1) have p: "plain_request rq" and ps: "list_all plain_request rqs"
    by simp_all
  from Cons.prems(2) have pb: "plain_bonus rq" and pbs: "list_all plain_bonus rqs"
    by simp_all
  from Cons.prems(5) have fit: "totals_fit sq uid (c + ?x + ?b) rqs"
    by simp
  then have b: "int64 (c + ?x + ?b)"
    by (rule totals_fit_int64)
  from serve_total_xp [OF p pb Cons.prems(3,4) b, of unicode_lower]
  obtain u' where u': "get_user (serve sq unicode_lower d rq) uid = Some u'"
      "u_total_xp u' = SqlInt (c + ?x + ?b)"
    by auto
  have "map_option u_total_xp (get_user (serve_all sq unicode_lower (serve sq unicode_lower d rq) rqs) uid)
      = Some (SqlInt (c + ?x + ?b + moves_xp sq uid rqs + bonuses_xp sq uid rqs))"
    using Cons.IH [OF ps pbs u' fit] .
  then show ?case
    by (simp add: moves_xp_Cons bonuses_xp_Cons algebra_simps del: serve.simps)
qed

section \<open>Facts about the cached levels\<close>

lemma stored_level_update_users:
  assumes "\<And>u. u_id (f u) = u_id u"
  shows "stored_level unicode_lower (update_users d uid' f) uid mt =
         (if uid' = uid
          then map_option (\<lambda>u. get_level (lower unicode_lower mt @ lit ''_level'') (f u)) (get_user d uid)
          else stored_level unicode_lower d uid mt)"
proof (cases "uid' = uid")
  case True
  then show ?thesis
    by (cases "get_user d uid") (simp_all add: stored_level_def get_user_update_users assms)
next
  case False
  then have "uid \<noteq> uid'" by blast
  then show ?thesis
    by (simp add: stored_level_def get_user_update_users assms)
qed


lemma stored_level_total_xp [simp]:
  "stored_level unicode_lower (update_users d uid' (\<lambda>u. u\<lparr>u_total_xp := g u\<rparr>)) uid mt =
   stored_level unicode_lower d uid mt"
proof -
  have "stored_level unicode_lower (update_users d uid' (\<lambda>u. u\<lparr>u_total_xp := g u\<rparr>)) uid mt =
        (if uid' = uid
         then map_option (\<lambda>u. get_level (lower unicode_lower mt @ lit ''_level'') (u\<lparr>u_total_xp := g u\<rparr>))
                (get_user d uid)
         else stored_level unicode_lower d uid mt)"
    by (rule stored_level_update_users) simp
  then show ?thesis
    by (cases "get_user d uid") (simp_all add: stored_level_def)
qed

lemma stored_level_ledger [simp]:
  "stored_level unicode_lower (d\<lparr>completed_exercises := rows\<rparr>) uid mt = stored_level unicode_lower d uid mt"
  by (simp add: stored_level_def)

lemma get_user_update_users_None:
  "(\<And>u. u_id (f u) = u_id u) \<Longrightarrow> get_user (update_users d uid' f) uid = None \<longleftrightarrow> get_user d uid = None"
  by (simp add: get_user_update_users)









section \<open>Facts about the order of the requests\<close>



lemma plain_xp_int_xp: "plain_xp v \<Longrightarrow> int_xp v"
  by (simp add: plain_xp_def int_xp_def split: sqlv.splits)











section \<open>Where the ledger claims stop\<close>

text \<open>
  Requests outside the ones that the claims about the ledger are stated for, run on the
  example database (one user, no XP, an empty ledger).

  An \<open>xp_earned\<close> that is \<open>null\<close> is stored as \<open>NULL\<close>, and \<open>total_xp + NULL\<close> is \<open>NULL\<close>.
\<close>

lemma null_xp_makes_total_xp_null:
  "map_option u_total_xp (get_user (serve_all stub_sqlite id example_db
       [example_request (lit ''Mobility'') (Some JNull)]) 1) = Some SqlNull
   \<and> map ce_xp_earned (completed_exercises (serve_all stub_sqlite id example_db
       [example_request (lit ''Mobility'') (Some JNull)])) = [SqlNull]"
  by code_simp

text \<open>
  An \<open>xp_earned\<close> of \<open>2 ^ 63\<close> does not bind: the request ends with \<open>OverflowError\<close>, no row
  is written and \<open>total_xp\<close> stays.
\<close>

lemma oversized_xp_writes_no_row:
  "complete_exercise stub_sqlite id example_db (Some 1)
     (JDict [(lit ''movement_type'', JStr (lit ''Mobility'')), (lit ''xp_earned'', JInt 9223372036854775808)])
   = (example_db, ServerError OverflowError)"
  by code_simp

text \<open>
  A \<open>total_xp\<close> of \<open>2 ^ 63 - 1\<close> and 10 more XP: the sum leaves 64 bits, and the column
  holds what SQLite makes of it (\<open>plus_other\<close>), which is no integer sum.
\<close>

lemma total_xp_leaves_integers:
  "sql_plus sq (SqlInt 9223372036854775807) (SqlInt 10)
     = plus_other sq (SqlInt 9223372036854775807) (SqlInt 10)"
  by (simp add: sql_plus_def int64_def)

text \<open>
  A movement type that is not one of the five reaches the \<open>UPDATE\<close> statement as it is,
  lower-cased: the table \<open>users\<close> becomes what SQLite makes of the statement
  (\<open>update_other\<close>), which need not leave \<open>total_xp\<close> alone.
\<close>

lemma pasted_text_reaches_sqlite:
  assumes "bind sq (JStr mt) = Inr (SqlText mt)"
    and "coalesce_sum (selected_xp d uid (Some mt)) = Inr (IntTotal 0)"
    and "lower unicode_lower mt @ lit ''_level'' \<notin> set level_fields"
    and "update_other sq (lower unicode_lower mt @ lit ''_level'') 0 uid d = Inr us"
  shows "update_movement_level sq unicode_lower d uid (JStr mt) x = (d\<lparr>users := us\<rparr>, None)"
  using assms
  by (simp add: update_movement_level_def store_text_def calculate_level_of_def calculate_level_def)

chapter \<open>The claims\<close>

section \<open>Claims about the sport classifier\<close>

text \<open>
  Claim C7. \<open>categorize_sport\<close> normalises its input: lower case (on ASCII text,
  \<open>A\<close>..\<open>Z\<close> become \<open>a\<close>..\<open>z\<close> and nothing else changes), then trimmed (the
  lower-cased input is the normalised one between two runs of whitespace, and the
  normalised one neither begins nor ends with whitespace). When the normalised input is
  a key of the keyword table, the result is that key's category. Otherwise the result is
  the category of the first entry, in the order of definition, whose key occurs in the
  normalised input or contains it: every entry before it fails both tests. When no entry
  matches, the result is \<open>Other\<close>. The function is total and has no state: it is a
  function of its argument and the table alone.
\<close>

theorem categorize_sport_spec:
  "(list_all (\<lambda>c. 0 \<le> c \<and> c < 128) exercise
      \<longrightarrow> lower unicode_lower exercise = map (\<lambda>c. if 65 \<le> c \<and> c \<le> 90 then c + 32 else c) exercise)
 \<and> (\<exists>pre post. lower unicode_lower exercise = pre @ strip (lower unicode_lower exercise) @ post
        \<and> list_all is_space pre \<and> list_all is_space post)
 \<and> (strip (lower unicode_lower exercise) \<noteq> []
      \<longrightarrow> \<not> is_space (hd (strip (lower unicode_lower exercise)))
          \<and> \<not> is_space (last (strip (lower unicode_lower exercise))))
 \<and> (map_of SPORT_CATEGORIES (strip (lower unicode_lower exercise)) = Some c
      \<longrightarrow> categorize_sport unicode_lower exercise = c)
 \<and> (map_of SPORT_CATEGORIES (strip (lower unicode_lower exercise)) = None
      \<and> SPORT_CATEGORIES = pre @ (k, c) # post
      \<and> list_all (\<lambda>(k', c'). \<not> sublist k' (strip (lower unicode_lower exercise))
                               \<and> \<not> sublist (strip (lower unicode_lower exercise)) k') pre
      \<and> (sublist k (strip (lower unicode_lower exercise))
          \<or> sublist (strip (lower unicode_lower exercise)) k)
      \<longrightarrow> categorize_sport unicode_lower exercise = c)
 \<and> (map_of SPORT_CATEGORIES (strip (lower unicode_lower exercise)) = None
      \<and> list_all (\<lambda>(k', c'). \<not> sublist k' (strip (lower unicode_lower exercise))
                               \<and> \<not> sublist (strip (lower unicode_lower exercise)) k') SPORT_CATEGORIES
      \<longrightarrow> categorize_sport unicode_lower exercise = lit ''Other'')"
proof (intro conjI impI)
  assume "list_all (\<lambda>c. 0 \<le> c \<and> c < 128) exercise"
  then show "lower unicode_lower exercise
      = map (\<lambda>c. if 65 \<le> c \<and> c \<le> 90 then c + 32 else c) exercise"
    by (rule lower_ascii)
next
  show "\<exists>pre post. lower unicode_lower exercise = pre @ strip (lower unicode_lower exercise) @ post
        \<and> list_all is_space pre \<and> list_all is_space post"
    by (rule strip_surrounded)
next
  assume "strip (lower unicode_lower exercise) \<noteq> []"
  then show "\<not> is_space (hd (strip (lower unicode_lower exercise)))"
    using strip_ends by blast
next
  assume "strip (lower unicode_lower exercise) \<noteq> []"
  then show "\<not> is_space (last (strip (lower unicode_lower exercise)))"
    using strip_ends by blast
next
  assume "map_of SPORT_CATEGORIES (strip (lower unicode_lower exercise)) = Some c"
  then show "categorize_sport unicode_lower exercise = c"
    by (simp add: categorize_sport_def categorize_sport_in_def)
next
  let ?n = "strip (lower unicode_lower exercise)"
  assume h: "map_of SPORT_CATEGORIES ?n = None
      \<and> SPORT_CATEGORIES = pre @ (k, c) # post
      \<and> list_all (\<lambda>(k', c'). \<not> sublist k' ?n \<and> \<not> sublist ?n k') pre
      \<and> (sublist k ?n \<or> sublist ?n k)"
  then have "partial_match ?n (pre @ (k, c) # post) = Some c"
    by (intro partial_match_first) simp_all
  with h show "categorize_sport unicode_lower exercise = c"
    by (simp add: categorize_sport_def categorize_sport_in_def)
next
  let ?n = "strip (lower unicode_lower exercise)"
  assume h: "map_of SPORT_CATEGORIES ?n = None
      \<and> list_all (\<lambda>(k', c'). \<not> sublist k' ?n \<and> \<not> sublist ?n k') SPORT_CATEGORIES"
  then have "partial_match ?n SPORT_CATEGORIES = None"
    by (intro partial_match_none) simp
  with h show "categorize_sport unicode_lower exercise = lit ''Other''"
    by (simp add: categorize_sport_def categorize_sport_in_def)
qed

text \<open>
  The examples of the specification, and inputs on which the result depends on the
  normalisation: \<open>SOCCER\<close> between a space, a tab, a no-break space (U+00A0) and a line
  feed is an exact hit only once it is lower-cased and trimmed; \<open>Gymnastics\<close> followed
  by a no-break space is the key \<open>gymnastics\<close> once trimmed, where the untrimmed text
  would first meet the key \<open>gym\<close> of another category.
\<close>

theorem categorize_sport_spec_witness:
  "lower id (lit ''Soccer'') = lit ''soccer''
   \<and> categorize_sport id (lit ''Soccer'') = lit ''Ball Sports''
   \<and> strip (lower id ([32, 9] @ lit ''SOCCER'' @ [160, 10])) = lit ''soccer''
   \<and> categorize_sport id ([32, 9] @ lit ''SOCCER'' @ [160, 10]) = lit ''Ball Sports''
   \<and> categorize_sport id (lit ''Gymnastics'' @ [160]) = lit ''Flexibility''
   \<and> map_of SPORT_CATEGORIES (strip (lower id (lit ''competitive rock climbing''))) = None
   \<and> categorize_sport id (lit ''competitive rock climbing'') = lit ''Outdoor''
   \<and> categorize_sport id (lit ''underwater basket weaving'') = lit ''Other''"
proof -
  let ?s = "[32, 9] @ lit ''SOCCER'' @ [160, 10]"
  let ?g = "lit ''Gymnastics'' @ [160]"
  let ?r = "lit ''competitive rock climbing''"
  let ?u = "lit ''underwater basket weaving''"
  have l0: "list_all (\<lambda>c. 0 \<le> c \<and> c < 128) (lit ''Soccer'')"
    by code_simp
  have l1: "map (\<lambda>c. if 65 \<le> c \<and> c \<le> 90 then c + 32 else c) (lit ''Soccer'') = lit ''soccer''"
    by code_simp
  have a: "map_of SPORT_CATEGORIES (strip (lower id (lit ''Soccer''))) = Some (lit ''Ball Sports'')"
    by code_simp
  have s0: "strip (lower id ?s) = lit ''soccer''"
    by code_simp
  have s1: "map_of SPORT_CATEGORIES (strip (lower id ?s)) = Some (lit ''Ball Sports'')"
    by code_simp
  have g1: "map_of SPORT_CATEGORIES (strip (lower id ?g)) = Some (lit ''Flexibility'')"
    by code_simp
  have b1: "map_of SPORT_CATEGORIES (strip (lower id ?r)) = None"
    by code_simp
  have b2: "SPORT_CATEGORIES = take 32 SPORT_CATEGORIES @ (lit ''climbing'', lit ''Outdoor'') # drop 33 SPORT_CATEGORIES"
    by code_simp
  have b3: "list_all (\<lambda>(k', c'). \<not> sublist k' (strip (lower id ?r))
               \<and> \<not> sublist (strip (lower id ?r)) k') (take 32 SPORT_CATEGORIES)"
    by code_simp
  have b4: "sublist (lit ''climbing'') (strip (lower id ?r))"
    by code_simp
  have c1: "map_of SPORT_CATEGORIES (strip (lower id ?u)) = None"
    by code_simp
  have c2: "list_all (\<lambda>(k', c'). \<not> sublist k' (strip (lower id ?u))
               \<and> \<not> sublist (strip (lower id ?u)) k') SPORT_CATEGORIES"
    by code_simp
  from l0 l1 have "lower id (lit ''Soccer'') = lit ''soccer''"
    using categorize_sport_spec [of "lit ''Soccer''" id] by simp
  moreover from a have "categorize_sport id (lit ''Soccer'') = lit ''Ball Sports''"
    using categorize_sport_spec [of "lit ''Soccer''" id "lit ''Ball Sports''"] by blast
  moreover from s1 have "categorize_sport id ?s = lit ''Ball Sports''"
    using categorize_sport_spec [of ?s id "lit ''Ball Sports''"] by blast
  moreover from g1 have "categorize_sport id ?g = lit ''Flexibility''"
    using categorize_sport_spec [of ?g id "lit ''Flexibility''"] by blast
  moreover from b1 b2 b3 b4 have "categorize_sport id ?r = lit ''Outdoor''"
    using categorize_sport_spec [of ?r id "lit ''Outdoor''"
        "take 32 SPORT_CATEGORIES" "lit ''climbing''" "drop 33 SPORT_CATEGORIES"] by blast
  moreover from c1 c2 have "categorize_sport id ?u = lit ''Other''"
    using categorize_sport_spec [of ?u id] by blast
  ultimately show ?thesis using s0 b1 by blast
qed

text \<open>
  Claim C10. An input that is empty or consists of whitespace only (any of the
  characters of \<open>str.isspace\<close>) is classified as \<open>Ball Sports\<close>, the category of the
  first table entry, and not as \<open>Other\<close>: the normalised input is the empty string,
  which occurs in every key.
\<close>

theorem categorize_sport_blank:
  "list_all is_space exercise \<Longrightarrow>
   strip (lower unicode_lower exercise) = []
   \<and> categorize_sport unicode_lower exercise = lit ''Ball Sports''
   \<and> categorize_sport unicode_lower exercise = snd (hd SPORT_CATEGORIES)
   \<and> categorize_sport unicode_lower exercise \<noteq> lit ''Other''"
proof -
  assume "list_all is_space exercise"
  then have e: "strip (lower unicode_lower exercise) = []"
    by (rule strip_lower_all_space)
  have "map_of SPORT_CATEGORIES [] = None"
    by code_simp
  moreover have "partial_match [] SPORT_CATEGORIES = Some (lit ''Ball Sports'')"
    by code_simp
  ultimately have "categorize_sport unicode_lower exercise = lit ''Ball Sports''"
    by (simp add: categorize_sport_def categorize_sport_in_def e)
  moreover have "snd (hd SPORT_CATEGORIES) = lit ''Ball Sports''"
    by code_simp
  moreover have "lit ''Ball Sports'' \<noteq> lit ''Other''"
    by code_simp
  ultimately show ?thesis
    using e by simp
qed

text \<open>
  A space, a tab, a line feed, a next line (U+0085), a no-break space (U+00A0), an em
  space (U+2003) and an ideographic space (U+3000); and the empty string.
\<close>

theorem categorize_sport_blank_witness:
  "list_all is_space [32, 9, 10, 133, 160, 8195, 12288]
   \<and> categorize_sport id [32, 9, 10, 133, 160, 8195, 12288] = lit ''Ball Sports''
   \<and> categorize_sport id [] = lit ''Ball Sports''"
proof -
  have h: "list_all is_space [32, 9, 10, 133, 160, 8195, 12288]"
    by (simp add: is_space_def)
  show ?thesis
    using h categorize_sport_blank [OF h, of id] categorize_sport_blank [of "[]" id] by simp
qed

section \<open>Claims about saving a routine\<close>

text \<open>
  Claim C8. \<open>save_routine\<close> stores a specific category (neither \<open>Other\<close> nor empty)
  unchanged. For the category \<open>Other\<close> or the empty one it scans \<open>category_keywords\<close>
  against the lower-cased exercise name and stores the first category, in table order,
  one of whose keywords occurs in the name; when no entry matches it stores
  \<open>General Fitness\<close>. The exercise \<open>5k training run\<close> classified \<open>Other\<close> is stored
  as \<open>Running\<close>.
\<close>

theorem save_routine_category:
  "(rd_sport_category rd = Some c \<and> c \<noteq> lit ''Other'' \<and> c \<noteq> []
      \<longrightarrow> stored_category (save_routine unicode_lower routines uid rd) = c)
 \<and> ((rd_sport_category rd = Some (lit ''Other'') \<or> rd_sport_category rd = Some [])
      \<and> rd_exercise rd = Some exercise
      \<and> category_keywords = pre @ (category, keywords) # post
      \<and> list_all (\<lambda>(c', kws'). \<not> list_ex (\<lambda>kw. sublist kw (lower unicode_lower exercise)) kws') pre
      \<and> list_ex (\<lambda>kw. sublist kw (lower unicode_lower exercise)) keywords
      \<longrightarrow> stored_category (save_routine unicode_lower routines uid rd) = category)
 \<and> ((rd_sport_category rd = Some (lit ''Other'') \<or> rd_sport_category rd = Some [])
      \<and> rd_exercise rd = Some exercise
      \<and> list_all (\<lambda>(c', kws'). \<not> list_ex (\<lambda>kw. sublist kw (lower unicode_lower exercise)) kws') category_keywords
      \<longrightarrow> stored_category (save_routine unicode_lower routines uid rd) = lit ''General Fitness'')
 \<and> (list_all (\<lambda>c. 0 \<le> c \<and> c < 128) exercise
      \<longrightarrow> lower unicode_lower exercise = map (\<lambda>c. if 65 \<le> c \<and> c \<le> 90 then c + 32 else c) exercise)"
proof (intro conjI impI)
  assume "rd_sport_category rd = Some c \<and> c \<noteq> lit ''Other'' \<and> c \<noteq> []"
  then show "stored_category (save_routine unicode_lower routines uid rd) = c"
    by (simp add: stored_category_def save_routine_def infer_sport_category_def)
next
  let ?n = "lower unicode_lower exercise"
  assume h: "(rd_sport_category rd = Some (lit ''Other'') \<or> rd_sport_category rd = Some [])
      \<and> rd_exercise rd = Some exercise
      \<and> category_keywords = pre @ (category, keywords) # post
      \<and> list_all (\<lambda>(c', kws'). \<not> list_ex (\<lambda>kw. sublist kw ?n) kws') pre
      \<and> list_ex (\<lambda>kw. sublist kw ?n) keywords"
  then have k: "keyword_scan ?n category_keywords sc = category" for sc
    using keyword_scan_first [of ?n pre "keywords" category post sc] by simp
  from h have eq: "category_keywords = pre @ (category, keywords) # post"
    by blast
  have "(category, keywords) \<in> set (pre @ (category, keywords) # post)"
    by simp
  then have "(category, keywords) \<in> set category_keywords"
    by (simp only: eq)
  then have "category \<in> fst ` set category_keywords"
    by force
  then have "category \<noteq> [] \<and> category \<noteq> lit ''Other''"
    by (rule category_keywords_names)
  with h k show "stored_category (save_routine unicode_lower routines uid rd) = category"
    by (auto simp: stored_category_def save_routine_def infer_sport_category_def)
next
  let ?n = "lower unicode_lower exercise"
  assume h: "(rd_sport_category rd = Some (lit ''Other'') \<or> rd_sport_category rd = Some [])
      \<and> rd_exercise rd = Some exercise
      \<and> list_all (\<lambda>(c', kws'). \<not> list_ex (\<lambda>kw. sublist kw ?n) kws') category_keywords"
  then have k: "keyword_scan ?n category_keywords sc = sc" for sc
    using keyword_scan_none [of ?n category_keywords sc] by simp
  have "lit ''Other'' \<noteq> []"
    by (simp add: lit_def)
  with h k show "stored_category (save_routine unicode_lower routines uid rd) = lit ''General Fitness''"
    by (auto simp: stored_category_def save_routine_def infer_sport_category_def)
next
  assume "list_all (\<lambda>c. 0 \<le> c \<and> c < 128) exercise"
  then show "lower unicode_lower exercise
      = map (\<lambda>c. if 65 \<le> c \<and> c \<le> 90 then c + 32 else c) exercise"
    by (rule lower_ascii)
qed

text \<open>
  The example of the specification; the same name in capitals, \<open>5K Training Run\<close>,
  where no keyword occurs in the name as it is written and \<open>run\<close> and \<open>5k\<close> occur in
  the lower-cased one; a specific category; and a name that no keyword matches.
\<close>

theorem save_routine_category_witness:
  "stored_category (save_routine id [] 1
       \<lparr>rd_sport_category = Some (lit ''Other''), rd_exercise = Some (lit ''5k training run'')\<rparr>)
     = lit ''Running''
   \<and> \<not> list_ex (\<lambda>kw. sublist kw (lit ''5K Training Run'')) (concat (map snd category_keywords))
   \<and> lower id (lit ''5K Training Run'') = lit ''5k training run''
   \<and> stored_category (save_routine id [] 1
       \<lparr>rd_sport_category = Some (lit ''Other''), rd_exercise = Some (lit ''5K Training Run'')\<rparr>)
     = lit ''Running''
   \<and> stored_category (save_routine id [] 1
       \<lparr>rd_sport_category = Some [], rd_exercise = Some (lit ''YOGA Flow'')\<rparr>)
     = lit ''Yoga''
   \<and> stored_category (save_routine id [] 1
       \<lparr>rd_sport_category = Some (lit ''Outdoor''), rd_exercise = Some (lit ''5k training run'')\<rparr>)
     = lit ''Outdoor''
   \<and> stored_category (save_routine id [] 1
       \<lparr>rd_sport_category = Some (lit ''Other''), rd_exercise = Some (lit ''Underwater Basket Weaving'')\<rparr>)
     = lit ''General Fitness''"
proof -
  let ?a = "\<lparr>rd_sport_category = Some (lit ''Other''), rd_exercise = Some (lit ''5k training run'')\<rparr>"
  let ?a' = "\<lparr>rd_sport_category = Some (lit ''Other''), rd_exercise = Some (lit ''5K Training Run'')\<rparr>"
  let ?y = "\<lparr>rd_sport_category = Some [], rd_exercise = Some (lit ''YOGA Flow'')\<rparr>"
  let ?b = "\<lparr>rd_sport_category = Some (lit ''Outdoor''), rd_exercise = Some (lit ''5k training run'')\<rparr>"
  let ?c = "\<lparr>rd_sport_category = Some (lit ''Other''), rd_exercise = Some (lit ''Underwater Basket Weaving'')\<rparr>"
  let ?run = "map lit [''running'', ''run'', ''sprint'', ''jog'', ''marathon'', ''5k'', ''10k'']"
  let ?yoga = "map lit [''yoga'', ''downward dog'', ''warrior'', ''tree pose'', ''sun salutation'']"
  have a1: "category_keywords = [] @ (lit ''Running'', ?run) # tl category_keywords"
    by code_simp
  have a2: "list_ex (\<lambda>kw. sublist kw (lower id (lit ''5k training run''))) ?run"
    by code_simp
  have a3: "list_ex (\<lambda>kw. sublist kw (lower id (lit ''5K Training Run''))) ?run"
    by code_simp
  have n: "\<not> list_ex (\<lambda>kw. sublist kw (lit ''5K Training Run'')) (concat (map snd category_keywords))"
    by code_simp
  have f0: "list_all (\<lambda>c. 0 \<le> c \<and> c < 128) (lit ''5K Training Run'')"
    by code_simp
  have f1: "map (\<lambda>c. if 65 \<le> c \<and> c \<le> 90 then c + 32 else c) (lit ''5K Training Run'')
      = lit ''5k training run''"
    by code_simp
  have y1: "category_keywords = take 7 category_keywords @ (lit ''Yoga'', ?yoga) # drop 8 category_keywords"
    by code_simp
  have y2: "list_all (\<lambda>(c', kws'). \<not> list_ex (\<lambda>kw. sublist kw (lower id (lit ''YOGA Flow''))) kws')
              (take 7 category_keywords)"
    by code_simp
  have y3: "list_ex (\<lambda>kw. sublist kw (lower id (lit ''YOGA Flow''))) ?yoga"
    by code_simp
  have b1: "lit ''Outdoor'' \<noteq> lit ''Other'' \<and> lit ''Outdoor'' \<noteq> []"
    by code_simp
  have c1: "list_all (\<lambda>(c', kws'). \<not> list_ex (\<lambda>kw. sublist kw (lower id (lit ''Underwater Basket Weaving''))) kws') category_keywords"
    by code_simp
  have "stored_category (save_routine id [] 1 ?a) = lit ''Running''"
    using a1 a2 save_routine_category [of ?a _ id "[]" 1 "lit ''5k training run''" "[]" "lit ''Running''"
        ?run "tl category_keywords"]
    by simp
  moreover have "stored_category (save_routine id [] 1 ?a') = lit ''Running''"
    using a1 a3 save_routine_category [of ?a' _ id "[]" 1 "lit ''5K Training Run''" "[]" "lit ''Running''"
        ?run "tl category_keywords"]
    by simp
  moreover from f0 f1 have "lower id (lit ''5K Training Run'') = lit ''5k training run''"
    using save_routine_category [of _ _ id _ _ "lit ''5K Training Run''"] by simp
  moreover have "stored_category (save_routine id [] 1 ?y) = lit ''Yoga''"
    using y1 y2 y3 save_routine_category [of ?y _ id "[]" 1 "lit ''YOGA Flow''" "take 7 category_keywords"
        "lit ''Yoga''" ?yoga "drop 8 category_keywords"]
    by simp
  moreover have "stored_category (save_routine id [] 1 ?b) = lit ''Outdoor''"
    using b1 save_routine_category [of ?b "lit ''Outdoor''" id "[]" 1] by simp
  moreover have "stored_category (save_routine id [] 1 ?c) = lit ''General Fitness''"
    using c1 save_routine_category [of ?c _ id "[]" 1 "lit ''Underwater Basket Weaving''"] by simp
  ultimately show ?thesis using n by blast
qed

section \<open>Claims about the routine parser\<close>

text \<open>
  Claim C6. On the empty text \<open>_safe_json_load\<close> returns no document and the message
  \<open>Empty model output.\<close> On a text that is not empty it returns what \<open>json.loads\<close> makes
  of the whole text when that succeeds. When it fails, the candidate is the part of the
  text from the first opening brace to the last closing brace: the document parsed from
  the candidate, or no document and \<open>JSON parse error:\<close> followed by the parser's message
  when the candidate fails too. When no opening brace stands before a closing brace, the
  result is no document and \<open>No JSON object found in model output.\<close>
\<close>

theorem safe_json_load_spec:
  "(text = [] \<longrightarrow> safe_json_load lib text = (JNull, Some (lit ''Empty model output.'')))
 \<and> (text \<noteq> [] \<and> json_loads lib text = Inr v \<longrightarrow> safe_json_load lib text = (v, None))
 \<and> (text \<noteq> [] \<and> json_loads lib text = Inl e0
      \<and> text = pre @ (of_char CHR ''{'') # mid @ (of_char CHR ''}'') # post
      \<and> (of_char CHR ''{'') \<notin> set pre \<and> (of_char CHR ''}'') \<notin> set post
      \<longrightarrow> safe_json_load lib text =
            (case json_loads lib ((of_char CHR ''{'') # mid @ [(of_char CHR ''}'')]) of
               Inr v \<Rightarrow> (v, None)
             | Inl e \<Rightarrow> (JNull, Some (lit ''JSON parse error: '' @ e))))
 \<and> (text \<noteq> [] \<and> json_loads lib text = Inl e0
      \<and> \<not> (\<exists>pre mid post. text = pre @ (of_char CHR ''{'') # mid @ (of_char CHR ''}'') # post)
      \<longrightarrow> safe_json_load lib text = (JNull, Some (lit ''No JSON object found in model output.'')))"
proof (intro conjI impI)
  assume "text = []"
  then show "safe_json_load lib text = (JNull, Some (lit ''Empty model output.''))"
    by (simp add: safe_json_load_def)
next
  assume "text \<noteq> [] \<and> json_loads lib text = Inr v"
  then show "safe_json_load lib text = (v, None)"
    by (simp add: safe_json_load_def)
next
  assume h: "text \<noteq> [] \<and> json_loads lib text = Inl e0
      \<and> text = pre @ (of_char CHR ''{'') # mid @ (of_char CHR ''}'') # post
      \<and> (of_char CHR ''{'') \<notin> set pre \<and> (of_char CHR ''}'') \<notin> set post"
  then have t: "text = pre @ (of_char CHR ''{'') # mid @ (of_char CHR ''}'') # post" by blast
  from h have st: "find_char (of_char CHR ''{'') text = int (length pre)"
    by (simp add: find_char_first)
  from h have "rfind_char (of_char CHR ''}'') ((pre @ (of_char CHR ''{'') # mid) @ (of_char CHR ''}'') # post) = int (length (pre @ (of_char CHR ''{'') # mid))"
    by (intro rfind_char_last) blast
  with t have en: "rfind_char (of_char CHR ''}'') text = int (length pre) + 1 + int (length mid)"
    by simp
  have sl: "slice text (int (length pre)) (int (length pre) + 1 + int (length mid) + 1) = (of_char CHR ''{'') # mid @ [(of_char CHR ''}'')]"
    unfolding t by (rule slice_span)
  from h have ne: "text \<noteq> []" and l: "json_loads lib text = Inl e0"
    by blast+
  from st have st': "find_char 123 text = int (length pre)"
    by simp
  from en have en': "rfind_char 125 text = int (length pre) + 1 + int (length mid)"
    by simp
  have "safe_json_load lib text =
      (case json_loads lib (slice text (int (length pre)) (int (length pre) + 1 + int (length mid) + 1)) of
               Inr v \<Rightarrow> (v, None)
             | Inl e \<Rightarrow> (JNull, Some (lit ''JSON parse error: '' @ e)))"
    by (simp add: safe_json_load_def st' en' Let_def ne l)
  then show "safe_json_load lib text =
            (case json_loads lib ((of_char CHR ''{'') # mid @ [(of_char CHR ''}'')]) of
               Inr v \<Rightarrow> (v, None)
             | Inl e \<Rightarrow> (JNull, Some (lit ''JSON parse error: '' @ e)))"
    by (simp only: sl)
next
  assume h: "text \<noteq> [] \<and> json_loads lib text = Inl e0
      \<and> \<not> (\<exists>pre mid post. text = pre @ (of_char CHR ''{'') # mid @ (of_char CHR ''}'') # post)"
  with span_exists [of "(of_char CHR ''{'')" "text" "(of_char CHR ''}'')"]
  have "\<not> (find_char (of_char CHR ''{'') text \<noteq> - 1 \<and> rfind_char (of_char CHR ''}'') text \<noteq> - 1
            \<and> rfind_char (of_char CHR ''}'') text > find_char (of_char CHR ''{'') text)"
    by blast
  with h show "safe_json_load lib text = (JNull, Some (lit ''No JSON object found in model output.''))"
    by (auto simp: safe_json_load_def Let_def)
qed

theorem safe_json_load_spec_witness:
  "safe_json_load (stub_lib (JDict [])) [] = (JNull, Some (lit ''Empty model output.''))
   \<and> safe_json_load (stub_lib (JDict [])) (lit ''{}'') = (JDict [], None)
   \<and> safe_json_load (stub_lib (JDict [])) (lit ''Sure: {} ok'') = (JDict [], None)
   \<and> safe_json_load (stub_lib (JDict [])) (lit ''Sure: {x} ok'') = (JNull, Some (lit ''JSON parse error: Expecting value''))
   \<and> safe_json_load (stub_lib (JDict [])) (lit ''} no {'') = (JNull, Some (lit ''No JSON object found in model output.''))"
proof -
  have a: "safe_json_load (stub_lib (JDict [])) [] = (JNull, Some (lit ''Empty model output.''))"
    using safe_json_load_spec [of "[]" "stub_lib (JDict [])"] by simp
  have b: "safe_json_load (stub_lib (JDict [])) (lit ''{}'') = (JDict [], None)"
    using safe_json_load_spec [of "(lit ''{}'')" "stub_lib (JDict [])" "JDict []"] by (simp add: stub_lib_def lit_def)
  have c: "safe_json_load (stub_lib (JDict [])) (lit ''Sure: {} ok'') = (JDict [], None)"
    using safe_json_load_spec [of "(lit ''Sure: {} ok'')" "stub_lib (JDict [])" _ "(lit ''Expecting value'')" "(lit ''Sure: '')" "[]" "(lit '' ok'')"]
    by (simp add: stub_lib_def lit_def)
  have d: "safe_json_load (stub_lib (JDict [])) (lit ''Sure: {x} ok'') = (JNull, Some (lit ''JSON parse error: Expecting value''))"
    using safe_json_load_spec [of "(lit ''Sure: {x} ok'')" "stub_lib (JDict [])" _ "(lit ''Expecting value'')" "(lit ''Sure: '')" "(lit ''x'')" "(lit '' ok'')"]
    by (simp add: stub_lib_def lit_def)
  have "\<not> (find_char (of_char CHR ''{'') (lit ''} no {'') \<noteq> - 1 \<and> rfind_char (of_char CHR ''}'') (lit ''} no {'') \<noteq> - 1
           \<and> find_char (of_char CHR ''{'') (lit ''} no {'') < rfind_char (of_char CHR ''}'') (lit ''} no {''))"
    by (simp add: rfind_char_def lit_def)
  then have "\<not> (\<exists>pre mid post. (lit ''} no {'') = pre @ (of_char CHR ''{'') # mid @ (of_char CHR ''}'') # post)"
    using span_first_last by blast
  then have e: "safe_json_load (stub_lib (JDict [])) (lit ''} no {'') = (JNull, Some (lit ''No JSON object found in model output.''))"
    using safe_json_load_spec [of "(lit ''} no {'')" "stub_lib (JDict [])" _ "(lit ''Expecting value'')"]
    by (simp add: stub_lib_def lit_def)
  from a b c d e show ?thesis by blast
qed

text \<open>
  Claim C4. Whatever the provider's text is and whatever the JSON parser makes of it (a
  document or a failure, which is a value here and never an exception that escapes),
  \<open>generate_warmups\<close> returns a routine whose \<open>error\<close> is set exactly when its list of
  warm-ups is empty, and whose \<open>raw\<close> field is the provider's text, trimmed: the text
  is the \<open>raw\<close> field between two runs of whitespace, and the \<open>raw\<close> field neither
  begins nor ends with whitespace.
\<close>

theorem generate_warmups_error_iff_empty:
  "(rt_error (generate_warmups lib exercise mg out) \<noteq> None) =
     (rt_warmups (generate_warmups lib exercise mg out) = [])
   \<and> rt_raw (generate_warmups lib exercise mg out) = strip (case out of Some t \<Rightarrow> t | None \<Rightarrow> [])
   \<and> (\<exists>pre post. (case out of Some t \<Rightarrow> t | None \<Rightarrow> [])
                       = pre @ rt_raw (generate_warmups lib exercise mg out) @ post
                     \<and> list_all is_space pre \<and> list_all is_space post)
   \<and> (rt_raw (generate_warmups lib exercise mg out) \<noteq> []
        \<longrightarrow> \<not> is_space (hd (rt_raw (generate_warmups lib exercise mg out)))
            \<and> \<not> is_space (last (rt_raw (generate_warmups lib exercise mg out))))"
  using generate_warmups_fields [of lib exercise mg out]
    strip_surrounded [of "case out of Some t \<Rightarrow> t | None \<Rightarrow> []"]
    strip_ends [of "case out of Some t \<Rightarrow> t | None \<Rightarrow> []"]
  by simp

theorem generate_warmups_error_iff_empty_witness:
  "rt_error (generate_warmups (stub_lib example_doc) (lit ''Tennis'') (lit ''shoulders'') (Some (lit '' {} ''))) = None
   \<and> length (rt_warmups (generate_warmups (stub_lib example_doc) (lit ''Tennis'') (lit ''shoulders'') (Some (lit '' {} '')))) = 3
   \<and> rt_raw (generate_warmups (stub_lib example_doc) (lit ''Tennis'') (lit ''shoulders'') (Some (lit '' {} ''))) = lit ''{}''
   \<and> rt_error (generate_warmups (stub_lib example_doc) (lit ''Tennis'') (lit ''shoulders'') (Some (lit ''no json''))) =
       Some (lit ''No JSON object found in model output.'')
   \<and> rt_warmups (generate_warmups (stub_lib example_doc) (lit ''Tennis'') (lit ''shoulders'') (Some (lit ''no json''))) = []
   \<and> rt_raw (generate_warmups (stub_lib example_doc) (lit ''Tennis'') (lit ''shoulders'') (Some (lit ''no json''))) = lit ''no json''
   \<and> rt_error (generate_warmups (stub_lib example_doc) (lit ''Tennis'') (lit ''shoulders'') None) =
       Some (lit ''Empty model output.'')
   \<and> rt_raw (generate_warmups (stub_lib example_doc) (lit ''Tennis'') (lit ''shoulders'')
         (Some ([160, 10] @ lit ''{}'' @ [8195, 160]))) = lit ''{}''
   \<and> rt_error (generate_warmups (stub_lib example_doc) (lit ''Tennis'') (lit ''shoulders'')
         (Some ([160, 10] @ lit ''{}'' @ [8195, 160]))) = None
   \<and> rt_error (generate_warmups (stub_lib example_doc) (lit ''Tennis'') (lit ''shoulders'') (Some [160, 32])) =
       Some (lit ''Empty model output.'')
   \<and> \<not> is_space (hd (rt_raw (generate_warmups (stub_lib example_doc) (lit ''Tennis'') (lit ''shoulders'')
         (Some ([160, 10] @ lit ''{}'' @ [8195, 160])))))
   \<and> \<not> is_space (last (rt_raw (generate_warmups (stub_lib example_doc) (lit ''Tennis'') (lit ''shoulders'')
         (Some ([160, 10] @ lit ''{}'' @ [8195, 160])))))"
proof -
  let ?n = "Some ([160, 10] @ lit ''{}'' @ [8195, 160])"
  have n1: "length (rt_warmups (generate_warmups (stub_lib example_doc) (lit ''Tennis'') (lit ''shoulders'') ?n)) = 3"
    by code_simp
  have n2: "strip ([160, 10] @ lit ''{}'' @ [8195, 160]) = lit ''{}''"
    by code_simp
  have n3: "rt_error (generate_warmups (stub_lib example_doc) (lit ''Tennis'') (lit ''shoulders'') (Some [160, 32])) =
       Some (lit ''Empty model output.'')"
    by code_simp
  from n1 have "rt_warmups (generate_warmups (stub_lib example_doc) (lit ''Tennis'') (lit ''shoulders'') ?n) \<noteq> []"
    by auto
  then have n4: "rt_error (generate_warmups (stub_lib example_doc) (lit ''Tennis'') (lit ''shoulders'') ?n) = None"
    using generate_warmups_error_iff_empty [of "stub_lib example_doc" "lit ''Tennis''" "lit ''shoulders''" ?n]
    by simp
  have n5: "rt_raw (generate_warmups (stub_lib example_doc) (lit ''Tennis'') (lit ''shoulders'') ?n) = lit ''{}''"
    using generate_warmups_error_iff_empty [of "stub_lib example_doc" "lit ''Tennis''" "lit ''shoulders''" ?n] n2
    by simp
  have "lit ''{}'' \<noteq> []"
    by (simp add: lit_def)
  with n5 have "rt_raw (generate_warmups (stub_lib example_doc) (lit ''Tennis'') (lit ''shoulders'') ?n) \<noteq> []"
    by simp
  then have n6: "\<not> is_space (hd (rt_raw (generate_warmups (stub_lib example_doc) (lit ''Tennis'') (lit ''shoulders'') ?n)))
      \<and> \<not> is_space (last (rt_raw (generate_warmups (stub_lib example_doc) (lit ''Tennis'') (lit ''shoulders'') ?n)))"
    using generate_warmups_error_iff_empty [of "stub_lib example_doc" "lit ''Tennis''" "lit ''shoulders''" ?n]
    by blast
  have a: "length (rt_warmups (generate_warmups (stub_lib example_doc) (lit ''Tennis'') (lit ''shoulders'') (Some (lit '' {} '')))) = 3"
    by code_simp
  have b: "rt_warmups (generate_warmups (stub_lib example_doc) (lit ''Tennis'') (lit ''shoulders'') (Some (lit ''no json''))) = []"
    by code_simp
  have c: "rt_error (generate_warmups (stub_lib example_doc) (lit ''Tennis'') (lit ''shoulders'') (Some (lit ''no json''))) =
       Some (lit ''No JSON object found in model output.'')"
    by code_simp
  have d: "rt_error (generate_warmups (stub_lib example_doc) (lit ''Tennis'') (lit ''shoulders'') None) =
       Some (lit ''Empty model output.'')"
    by code_simp
  have e: "strip (lit '' {} '') = lit ''{}''" "strip (lit ''no json'') = lit ''no json''"
    by code_simp+
  from a have "rt_warmups (generate_warmups (stub_lib example_doc) (lit ''Tennis'') (lit ''shoulders'') (Some (lit '' {} ''))) \<noteq> []"
    by auto
  then have "rt_error (generate_warmups (stub_lib example_doc) (lit ''Tennis'') (lit ''shoulders'') (Some (lit '' {} ''))) = None"
    using generate_warmups_error_iff_empty [of "stub_lib example_doc" "(lit ''Tennis'')" "(lit ''shoulders'')" "Some (lit '' {} '')"]
    by simp
  moreover have "rt_raw (generate_warmups (stub_lib example_doc) (lit ''Tennis'') (lit ''shoulders'') (Some (lit '' {} ''))) = lit ''{}''"
    using generate_warmups_error_iff_empty [of "stub_lib example_doc" "(lit ''Tennis'')" "(lit ''shoulders'')" "Some (lit '' {} '')"] e
    by simp
  moreover have "rt_raw (generate_warmups (stub_lib example_doc) (lit ''Tennis'') (lit ''shoulders'') (Some (lit ''no json''))) = lit ''no json''"
    using generate_warmups_error_iff_empty [of "stub_lib example_doc" "(lit ''Tennis'')" "(lit ''shoulders'')" "Some (lit ''no json'')"] e
    by simp
  ultimately show ?thesis using a b c d n3 n4 n5 n6 by blast
qed

text \<open>
  Claim C5. When the parsed document is a dictionary whose \<open>warmups\<close> field is a list, the
  routine's warm-ups are the moves made of the elements that are kept, in their original
  order. An element is kept exactly when it is a dictionary whose trimmed name is not
  empty and whose duration is positive, the duration being \<open>duration_seconds\<close> when that
  key is present, else \<open>duration\<close>, else 0, read as an integer, and 0 when it cannot be
  read. The movement type of a move is the trimmed field when it is one of Mobility,
  Activation, Stability, Power and Balance, and Mobility otherwise or when the field is
  absent. So every move of the routine has a name that is not empty and neither begins
  nor ends with whitespace, a positive duration and one of the five movement types.
\<close>

theorem generate_warmups_kept:
  assumes "fst (safe_json_load lib (strip (case out of Some t \<Rightarrow> t | None \<Rightarrow> []))) = JDict ro"
    and "map_of ro (lit ''warmups'') = Some (JList items)"
  shows "rt_warmups (generate_warmups lib exercise mg out) = map (spec_move lib) (filter (spec_keep lib) items)
    \<and> list_all (\<lambda>w. w_movement_type w \<in> set valid_types) (rt_warmups (generate_warmups lib exercise mg out))
    \<and> list_all (\<lambda>w. w_name w \<noteq> [] \<and> \<not> is_space (hd (w_name w)) \<and> \<not> is_space (last (w_name w))
                    \<and> 0 < w_duration w)
         (rt_warmups (generate_warmups lib exercise mg out))"
proof -
  have w: "rt_warmups (generate_warmups lib exercise mg out) = map (spec_move lib) (filter (spec_keep lib) items)"
    using generate_warmups_fields [of lib exercise mg out] assms
    by (simp add: extract_warmups_list)
  have "list_all (\<lambda>w. w_movement_type w \<in> set valid_types) (map (spec_move lib) (filter (spec_keep lib) items))"
    by (simp add: list_all_iff spec_move_valid)
  moreover have "list_all (\<lambda>w. w_name w \<noteq> [] \<and> \<not> is_space (hd (w_name w)) \<and> \<not> is_space (last (w_name w))
                    \<and> 0 < w_duration w)
         (map (spec_move lib) (filter (spec_keep lib) items))"
    by (simp add: list_all_iff spec_move_kept)
  ultimately show ?thesis using w by simp
qed

theorem generate_warmups_kept_witness:
  "rt_warmups (generate_warmups (stub_lib example_doc) (lit ''Tennis'') (lit ''shoulders'') (Some (lit ''{}''))) =
     [\<lparr>w_name = lit ''Arm Circles'', w_duration = 30, w_notes = lit ''slow'', w_movement_type = lit ''Mobility''\<rparr>,
      \<lparr>w_name = lit ''Jump Squats'', w_duration = 45, w_notes = [], w_movement_type = lit ''Power''\<rparr>,
      \<lparr>w_name = lit ''Lunge'', w_duration = 20, w_notes = [], w_movement_type = lit ''Balance''\<rparr>]"
proof -
  let ?items = "[JDict [(lit ''name'', JStr (lit ''Arm Circles'')), (lit ''duration_seconds'', JInt 30),
                      (lit ''notes'', JStr (lit ''slow'')), (lit ''movement_type'', JStr (lit ''Explosive''))],
               JStr (lit ''not a move''),
               JDict [(lit ''name'', JStr (lit ''Plank'')), (lit ''duration_seconds'', JInt 0)],
               JDict [(lit ''duration_seconds'', JInt 20)],
               JDict [(lit ''name'', JStr (lit '' Jump Squats '')), (lit ''duration'', JStr (lit ''45'')),
                      (lit ''movement_type'', JStr (lit ''Power''))],
               JDict [(lit ''name'', JStr [160, 8195]), (lit ''duration_seconds'', JInt 15)],
               JDict [(lit ''name'', JStr ([160] @ lit ''Lunge'' @ [133])), (lit ''duration_seconds'', JInt 20),
                      (lit ''movement_type'', JStr ([8195] @ lit ''Balance'' @ [160]))]] :: unit json list"
  let ?ro = "[(lit ''warmups'', JList ?items), (lit ''safety'', JStr (lit ''Stop if pain.''))]"
  have a: "fst (safe_json_load (stub_lib example_doc) (strip (case Some (lit ''{}'') of Some t \<Rightarrow> t | None \<Rightarrow> []))) = JDict ?ro"
    by code_simp
  have b: "map_of ?ro (lit ''warmups'') = Some (JList ?items)"
    by simp
  have c: "map (spec_move (stub_lib example_doc)) (filter (spec_keep (stub_lib example_doc)) ?items) =
     [\<lparr>w_name = lit ''Arm Circles'', w_duration = 30, w_notes = lit ''slow'', w_movement_type = lit ''Mobility''\<rparr>,
      \<lparr>w_name = lit ''Jump Squats'', w_duration = 45, w_notes = [], w_movement_type = lit ''Power''\<rparr>,
      \<lparr>w_name = lit ''Lunge'', w_duration = 20, w_notes = [], w_movement_type = lit ''Balance''\<rparr>]"
    by code_simp
  from generate_warmups_kept [OF a b, of "lit ''Tennis''" "lit ''shoulders''"] c show ?thesis
    by simp
qed

section \<open>Claims about the levelling functions\<close>

text \<open>
  Claim C2, as the code has it. \<open>calculate_level\<close> returns 0 for every \<open>xp \<le> 0\<close>. For
  \<open>0 < xp < 50 * 2 ^ 46\<close> it returns the floor of the square root of \<open>xp / 50\<close>, the
  root and the quotient being those of the real numbers. It is a function of its
  argument alone, and it returns a level that is not negative, raising nothing, for
  every \<open>xp\<close> below \<open>50 * 2 ^ 1023\<close>, which covers every sum that a 64-bit column can hold.
\<close>

theorem calculate_level_spec:
  "(xp \<le> 0 \<longrightarrow> calculate_level xp = Inr 0)
 \<and> (0 < xp \<and> xp < 50 * 2 ^ 46 \<longrightarrow> calculate_level xp = Inr \<lfloor>sqrt (real_of_int xp / 50)\<rfloor>)
 \<and> (xp < 50 * 2 ^ 1023 \<longrightarrow> (\<exists>l. calculate_level xp = Inr l \<and> 0 \<le> l))"
proof (intro conjI impI)
  assume "xp \<le> 0"
  then show "calculate_level xp = Inr 0" by (simp add: calculate_level_def)
next
  assume "0 < xp \<and> xp < 50 * 2 ^ 46"
  then show "calculate_level xp = Inr \<lfloor>sqrt (real_of_int xp / 50)\<rfloor>"
    by (intro calculate_level_in_range) simp_all
next
  assume h: "xp < 50 * 2 ^ 1023"
  show "\<exists>l. calculate_level xp = Inr l \<and> 0 \<le> l"
  proof (cases "xp \<le> 0")
    case True
    then show ?thesis by (simp add: calculate_level_def)
  next
    case False
    with h have "int_truediv xp 50 = Inr (round53 xp 50)"
      by (intro int_truediv_no_overflow) simp_all
    with False show ?thesis by (simp add: calculate_level_def)
  qed
qed

theorem calculate_level_spec_witness:
  "calculate_level (- 5) = Inr 0
   \<and> calculate_level 200 = Inr \<lfloor>sqrt (real_of_int 200 / 50)\<rfloor>
   \<and> calculate_level 200 = Inr 2
   \<and> (\<exists>l. calculate_level (2 ^ 63 - 1) = Inr l \<and> 0 \<le> l)"
proof -
  have a: "calculate_level (- 5) = Inr 0"
    using calculate_level_spec [of "- 5"] by simp
  have b: "calculate_level 200 = Inr \<lfloor>sqrt (real_of_int 200 / 50)\<rfloor>"
    using calculate_level_spec [of 200] by simp
  have c: "calculate_level 200 = Inr 2"
    by code_simp
  have d: "\<exists>l. calculate_level (2 ^ 63 - 1) = Inr l \<and> 0 \<le> l"
    using calculate_level_spec [of "2 ^ 63 - 1"] by simp
  from a b c d show ?thesis by blast
qed

text \<open>
  Claim C2 as the specification states it, for every integer, fails in two ways. At
  \<open>xp = 499999999999999999\<close> the quotient \<open>xp / 50\<close> rounds to the double \<open>10 ^ 16\<close>,
  whose root is \<open>10 ^ 8\<close>, while the floor of the real square root is \<open>99999999\<close>. At
  \<open>xp = 50 * 2 ^ 1024\<close> the division raises \<open>OverflowError\<close>.
\<close>

theorem calculate_level_counterexample:
  "calculate_level 499999999999999999 = Inr 100000000
   \<and> \<lfloor>sqrt (real_of_int 499999999999999999 / 50)\<rfloor> = 99999999
   \<and> calculate_level (50 * 2 ^ 1024) = Inl OverflowError"
proof (intro conjI)
  show "calculate_level 499999999999999999 = Inr 100000000"
    by code_simp
  show "\<lfloor>sqrt (real_of_int 499999999999999999 / 50)\<rfloor> = 99999999"
    by (rule floor_sqrt_eq) simp_all
  show "calculate_level (50 * 2 ^ 1024) = Inl OverflowError"
    by code_simp
qed

text \<open>
  Claim C3 at the level \<open>L = 8388664\<close>: \<open>xp_for_next_level L\<close> is \<open>(L + 1) ^ 2 * 50\<close>,
  and \<open>calculate_level\<close> of it is \<open>L + 1\<close>, but \<open>calculate_level\<close> of one XP less is
  \<open>L + 1\<close> too, where the claim says \<open>L\<close>: in double precision the root of
  \<open>(L + 1) ^ 2 - 1 / 50\<close> rounds up to \<open>L + 1\<close>. Below \<open>L + 1 = 2 ^ 23\<close> both equations
  of the claim hold (\<open>xp_for_next_level_inverse\<close>).
\<close>

theorem inverse_fails_at_large_level:
  "xp_for_next_level 8388664 - 1 = 3518485024111249
   \<and> calculate_level (xp_for_next_level 8388664 - 1) = Inr 8388665
   \<and> calculate_level (xp_for_next_level 8388664) = Inr 8388665"
  by code_simp

section \<open>Claims about the ledger\<close>




text \<open>
  Claim C9, as the code has it. A request adds at most one row to \<open>completed_exercises\<close>:
  a move completion of a logged-in user whose body is a dictionary adds one when its four
  fields bind (an integer \<open>xp_earned\<close> beyond 64 bits does not), and a routine completion
  adds none, so that the
  ledger after a history is the ledger before it followed by the rows of the history's
  move completions, and the sum of XP over a user's rows grows by the XP of these rows.
  For a user whose \<open>total_xp\<close> is an integer, and a history whose move completions
  name one of the five movement types and whose \<open>xp_earned\<close> and \<open>bonus_xp\<close> are
  integers, or absent: as long as the running total (the initial \<open>total_xp\<close>, then with
  the XP of each row of the user and each bonus of the user added in turn) stays within
  64 bits, the stored \<open>total_xp\<close> at the end is the initial one plus the XP of the
  user's rows plus the user's bonuses. So a \<open>total_xp\<close> that was the sum of XP over the
  user's rows ends as that sum plus the bonuses.
\<close>

theorem total_xp_is_ledger_plus_bonuses:
  "completed_exercises (serve sq unicode_lower d rq) = completed_exercises d @ request_rows sq rq
 \<and> request_rows sq (CompleteRoutine session body) = []
 \<and> length (request_rows sq (CompleteExercise session body)) \<le> 1
 \<and> (bind sq (dict_get data (lit ''routine_id'') JNull) = Inr r
      \<and> bind sq (dict_get data (lit ''exercise_name'') JNull) = Inr n
      \<and> bind sq (dict_get data (lit ''movement_type'') JNull) = Inr m
      \<and> bind sq (dict_get data (lit ''xp_earned'') (JInt 10)) = Inr x
     \<longrightarrow> request_rows sq (CompleteExercise (Some user_id) (JDict data)) =
           [\<lparr>ce_user_id = user_id, ce_routine_id = r, ce_exercise_name = n,
             ce_movement_type = store_text sq m, ce_xp_earned = store_integer sq x\<rparr>])
 \<and> completed_exercises (serve_all sq unicode_lower d rqs) = completed_exercises d @ ledger_rows sq rqs
 \<and> ledger_xp (serve_all sq unicode_lower d rqs) uid = ledger_xp d uid + moves_xp sq uid rqs
 \<and> (list_all plain_request rqs \<and> list_all plain_bonus rqs
      \<and> get_user d uid = Some u \<and> u_total_xp u = SqlInt c \<and> totals_fit sq uid c rqs
     \<longrightarrow> map_option u_total_xp (get_user (serve_all sq unicode_lower d rqs) uid)
           = Some (SqlInt (c + moves_xp sq uid rqs + bonuses_xp sq uid rqs))
         \<and> (c = ledger_xp d uid
             \<longrightarrow> map_option u_total_xp (get_user (serve_all sq unicode_lower d rqs) uid)
                   = Some (SqlInt (ledger_xp (serve_all sq unicode_lower d rqs) uid
                                   + bonuses_xp sq uid rqs))))"
proof (intro conjI impI)
  show "completed_exercises (serve sq unicode_lower d rq) = completed_exercises d @ request_rows sq rq"
    by (rule serve_ledger)
  show "request_rows sq (CompleteRoutine session body) = []"
    by simp
  show "length (request_rows sq (CompleteExercise session body)) \<le> 1"
    by (cases session; cases body) (simp_all split: sum.splits)
  show "completed_exercises (serve_all sq unicode_lower d rqs) = completed_exercises d @ ledger_rows sq rqs"
    by (rule serve_all_ledger)
  show x: "ledger_xp (serve_all sq unicode_lower d rqs) uid = ledger_xp d uid + moves_xp sq uid rqs"
    by (rule serve_all_ledger_xp)
  {
    assume "bind sq (dict_get data (lit ''routine_id'') JNull) = Inr r
      \<and> bind sq (dict_get data (lit ''exercise_name'') JNull) = Inr n
      \<and> bind sq (dict_get data (lit ''movement_type'') JNull) = Inr m
      \<and> bind sq (dict_get data (lit ''xp_earned'') (JInt 10)) = Inr x"
    then show "request_rows sq (CompleteExercise (Some user_id) (JDict data)) =
           [\<lparr>ce_user_id = user_id, ce_routine_id = r, ce_exercise_name = n,
             ce_movement_type = store_text sq m, ce_xp_earned = store_integer sq x\<rparr>]"
      by simp
  }
  assume h: "list_all plain_request rqs \<and> list_all plain_bonus rqs
      \<and> get_user d uid = Some u \<and> u_total_xp u = SqlInt c \<and> totals_fit sq uid c rqs"
  then show t: "map_option u_total_xp (get_user (serve_all sq unicode_lower d rqs) uid)
           = Some (SqlInt (c + moves_xp sq uid rqs + bonuses_xp sq uid rqs))"
    using serve_all_total_xp [of rqs d uid u c sq unicode_lower] by blast
  assume "c = ledger_xp d uid"
  with t x show "map_option u_total_xp (get_user (serve_all sq unicode_lower d rqs) uid)
                   = Some (SqlInt (ledger_xp (serve_all sq unicode_lower d rqs) uid
                                   + bonuses_xp sq uid rqs))"
    by simp
qed

text \<open>
  The example history, served from the example database: three rows, 220 XP in the
  ledger, a bonus of 50, and a \<open>total_xp\<close> of 270.
\<close>

theorem total_xp_is_ledger_plus_bonuses_witness:
  "list_all plain_request example_history \<and> list_all plain_bonus example_history
   \<and> totals_fit stub_sqlite 1 0 example_history
   \<and> length (completed_exercises (serve_all stub_sqlite id example_db example_history)) = 3
   \<and> ledger_xp (serve_all stub_sqlite id example_db example_history) 1 = 220
   \<and> bonuses_xp stub_sqlite 1 example_history = 50
   \<and> map_option u_total_xp (get_user (serve_all stub_sqlite id example_db example_history) 1)
       = Some (SqlInt 270)"
proof -
  obtain u where u: "get_user example_db 1 = Some u" "u_total_xp u = SqlInt 0"
    by (simp add: example_db_def get_user_def)
  have ok: "list_all plain_request example_history" "list_all plain_bonus example_history"
    by code_simp+
  have fit: "totals_fit stub_sqlite 1 0 example_history"
    by code_simp
  have e: "completed_exercises example_db = []" "ledger_xp example_db 1 = 0"
    by code_simp+
  have l: "length (ledger_rows stub_sqlite example_history) = 3"
    by code_simp
  have m: "moves_xp stub_sqlite 1 example_history = 220" "bonuses_xp stub_sqlite 1 example_history = 50"
    by code_simp+
  from total_xp_is_ledger_plus_bonuses [where sq = stub_sqlite and unicode_lower = id and d = example_db
      and rqs = example_history and uid = 1 and u = u and c = 0]
    u e l m ok fit
  show ?thesis
    by simp
qed

text \<open>
  Claim C9 as the specification states it fails on a routine completion: from a
  database with one user, no XP and an empty ledger, one routine completion leaves the
  ledger empty (no entry is created for the bonus) and sets \<open>total_xp\<close> to 50, while the
  XP of the user's ledger entries sums to 0.
\<close>

theorem routine_bonus_counterexample:
  "completed_exercises (serve_all stub_sqlite id example_db [CompleteRoutine (Some 1) (JDict [])]) = []
   \<and> map_option u_total_xp (get_user (serve_all stub_sqlite id example_db [CompleteRoutine (Some 1) (JDict [])]) 1)
       = Some (SqlInt 50)
   \<and> ledger_xp (serve_all stub_sqlite id example_db [CompleteRoutine (Some 1) (JDict [])]) 1 = 0"
  by code_simp

end
